(* ===== verification/Velnor_Prelude.thy ===== *)
theory Velnor_Prelude
  imports Main "HOL-Library.Word" "HOL-Library.Product_Lexorder" "HOL-Library.List_Lexorder"
    "HOL-Library.Char_ord"
begin

text \<open>
  Shared vocabulary of the development.

  \<^item> Machine integers: \<open>u32\<close> and \<open>u64\<close> are words; an SQL \<open>INTEGER\<close> column (an \<open>i64\<close> in the
    Rust code) is an \<open>int\<close>, and every conversion the code writes between the two is a function
    here, with the saturation or wrap-around of the Rust expression it stands for.
  \<^item> Tables: an SQL table with a primary key is an association list in row order.  The SQL
    statements the code issues (\<open>INSERT\<close>, \<open>UPDATE ... WHERE\<close>, \<open>DELETE ... WHERE\<close>,
    \<open>SELECT ... LIMIT 1\<close>) are functions on such lists, with lemmas that relate them to
    \<open>map_of\<close>.
  \<^item> Transactions: the body of a transaction commits a new state, rolls back with a value, or
    aborts with an error; \<open>run_tx\<close> gives the observable result.  Only \<open>Commit\<close> changes the
    state.
\<close>

section \<open>Collections of facts\<close>

named_theorems table_simps \<open>lookups after table statements\<close>
named_theorems int_conv \<open>integer conversions\<close>
named_theorems tx_simps \<open>results of transactions\<close>

section \<open>Machine integers\<close>

type_synonym u8 = "8 word"
type_synonym u32 = "32 word"
type_synonym u64 = "64 word"

definition i64_max :: int where
  "i64_max = 9223372036854775807"

definition u32_max :: u32 where
  "u32_max = 4294967295"

text \<open>Rust \<open>i64::try_from(x).unwrap_or(i64::MAX)\<close> on a \<open>u64\<close>.\<close>

definition i64_try_from_u64 :: "u64 \<Rightarrow> int" where
  "i64_try_from_u64 x = (if uint x \<le> i64_max then uint x else i64_max)"

text \<open>Rust \<open>x as i64\<close> on a \<open>u64\<close>: the two's complement reading.\<close>

definition as_i64 :: "u64 \<Rightarrow> int" where
  "as_i64 x = sint x"

text \<open>Rust \<open>x.max(0) as u64\<close> on an \<open>i64\<close>.\<close>

definition u64_max0 :: "int \<Rightarrow> u64" where
  "u64_max0 i = word_of_int (max i 0)"

text \<open>Rust \<open>u32::try_from(i).ok()\<close> and \<open>u64::try_from(i).ok()\<close> on an \<open>i64\<close>.\<close>

definition u32_try_from_i64 :: "int \<Rightarrow> u32 option" where
  "u32_try_from_i64 i = (if 0 \<le> i \<and> i \<le> 4294967295 then Some (word_of_int i) else None)"

definition u64_try_from_i64 :: "int \<Rightarrow> u64 option" where
  "u64_try_from_i64 i = (if 0 \<le> i then Some (word_of_int i) else None)"

text \<open>Rust \<open>saturating_add(1)\<close> on an \<open>i64\<close>, and \<open>saturating_sub\<close> on unsigned words.\<close>

definition i64_saturating_add1 :: "int \<Rightarrow> int" where
  "i64_saturating_add1 i = (if i < i64_max then i + 1 else i64_max)"

definition saturating_sub_word :: "'a::len word \<Rightarrow> 'a word \<Rightarrow> 'a word" where
  "saturating_sub_word a b = (if b \<le> a then a - b else 0)"

definition saturating_add_word :: "'a::len word \<Rightarrow> 'a word \<Rightarrow> 'a word" where
  "saturating_add_word a b = (if unat a + unat b < 2 ^ LENGTH('a) then a + b else - 1)"

lemma uint_saturating_sub [int_conv]:
  "uint (saturating_sub_word a b) = max 0 (uint a - uint b)"
  by (auto simp: saturating_sub_word_def word_le_def uint_sub_lem max_def)

lemma u32_try_from_i64_uint [simp]: "u32_try_from_i64 (uint (n :: u32)) = Some n"
  using uint_lt2p [of n] by (simp add: u32_try_from_i64_def)

lemma uint_u32_try_from_i64 [int_conv]:
  "u32_try_from_i64 i = Some n \<Longrightarrow> uint n = i"
  by (auto simp: u32_try_from_i64_def uint_word_of_int_eq take_bit_eq_mod split: if_splits)

lemma i64_try_from_u64_small [int_conv]:
  "uint x \<le> i64_max \<Longrightarrow> i64_try_from_u64 x = uint x"
  by (simp add: i64_try_from_u64_def)

lemma i64_try_from_u64_nonneg [simp]: "0 \<le> i64_try_from_u64 x"
  by (simp add: i64_try_from_u64_def i64_max_def)

section \<open>Tables\<close>

type_synonym ('k, 'r) table = "('k \<times> 'r) list"

text \<open>\<open>UPDATE t SET ... WHERE key = k AND p\<close>; the second function is the number of rows changed.\<close>

definition tbl_update :: "'k \<Rightarrow> ('r \<Rightarrow> bool) \<Rightarrow> ('r \<Rightarrow> 'r) \<Rightarrow> ('k, 'r) table \<Rightarrow> ('k, 'r) table" where
  "tbl_update k p f t = map (\<lambda>(k', r). if k' = k \<and> p r then (k', f r) else (k', r)) t"

definition tbl_matches :: "'k \<Rightarrow> ('r \<Rightarrow> bool) \<Rightarrow> ('k, 'r) table \<Rightarrow> nat" where
  "tbl_matches k p t = length (filter (\<lambda>(k', r). k' = k \<and> p r) t)"

text \<open>\<open>DELETE FROM t WHERE key = k AND p\<close>, and \<open>INSERT\<close> of a row whose key is not present.\<close>

definition tbl_delete :: "'k \<Rightarrow> ('r \<Rightarrow> bool) \<Rightarrow> ('k, 'r) table \<Rightarrow> ('k, 'r) table" where
  "tbl_delete k p t = filter (\<lambda>(k', r). \<not> (k' = k \<and> p r)) t"

definition tbl_insert :: "'k \<Rightarrow> 'r \<Rightarrow> ('k, 'r) table \<Rightarrow> ('k, 'r) table" where
  "tbl_insert k r t = t @ [(k, r)]"

text \<open>\<open>COALESCE(MAX(col), 0)\<close>.\<close>

fun sql_max :: "int list \<Rightarrow> int option" where
  "sql_max [] = None"
| "sql_max (x # xs) = (case sql_max xs of None \<Rightarrow> Some x | Some m \<Rightarrow> Some (max x m))"

definition coalesce0 :: "int option \<Rightarrow> int" where
  "coalesce0 m = (case m of None \<Rightarrow> 0 | Some x \<Rightarrow> x)"

text \<open>\<open>SELECT key FROM t WHERE p ORDER BY f LIMIT 1\<close>.\<close>

definition select_first_by ::
    "('k \<Rightarrow> 'r \<Rightarrow> bool) \<Rightarrow> ('r \<Rightarrow> 'o::linorder) \<Rightarrow> ('k, 'r) table \<Rightarrow> 'k option" where
  "select_first_by p f t =
     (case sort_key (\<lambda>(k, r). f r) (filter (\<lambda>(k, r). p k r) t) of
        [] \<Rightarrow> None | (k, r) # _ \<Rightarrow> Some k)"

lemma keys_tbl_update [simp]: "map fst (tbl_update k p f t) = map fst t"
  by (induction t) (auto simp: tbl_update_def)

lemma length_tbl_update [simp]: "length (tbl_update k p f t) = length t"
  by (simp add: tbl_update_def)

lemma dom_tbl_update [simp]: "fst ` set (tbl_update k p f t) = fst ` set t"
  by (metis keys_tbl_update list.set_map)

lemma keys_tbl_insert [simp]: "map fst (tbl_insert k r t) = map fst t @ [k]"
  by (simp add: tbl_insert_def)

lemma set_tbl_update:
  "set (tbl_update k p f t) = (\<lambda>(k', r). if k' = k \<and> p r then (k', f r) else (k', r)) ` set t"
  by (simp add: tbl_update_def)

lemma length_tbl_insert [simp]: "length (tbl_insert k r t) = Suc (length t)"
  by (simp add: tbl_insert_def)

lemma set_tbl_insert [simp]: "set (tbl_insert k r t) = insert (k, r) (set t)"
  by (simp add: tbl_insert_def)

lemma set_tbl_delete: "set (tbl_delete k p t) \<subseteq> set t"
  by (auto simp: tbl_delete_def)

lemma length_tbl_delete [simp]: "length (tbl_delete k p t) \<le> length t"
  by (simp add: tbl_delete_def)

lemma distinct_keys_tbl_delete [intro]:
  "distinct (map fst t) \<Longrightarrow> distinct (map fst (tbl_delete k p t))"
  by (simp add: tbl_delete_def distinct_map_filter)

text \<open>Lookups stay lookups: the library rules that turn them into membership are switched off.\<close>

declare map_of_eq_Some_iff [simp del] Some_eq_map_of_iff [simp del]

lemma map_of_tbl_update [simp]:
  "map_of (tbl_update k p f t) k' =
     (if k' = k then map_option (\<lambda>r. if p r then f r else r) (map_of t k) else map_of t k')"
proof (cases "k' = k")
  case True
  then show ?thesis unfolding tbl_update_def by (induction t) auto
next
  case False
  then show ?thesis unfolding tbl_update_def by (induction t) auto
qed

lemma map_of_tbl_insert [simp]:
  "map_of (tbl_insert k r t) k' =
     (case map_of t k' of Some x \<Rightarrow> Some x | None \<Rightarrow> if k' = k then Some r else None)"
  by (auto simp: tbl_insert_def map_add_def split: option.splits)

lemma map_of_tbl_delete_other [simp]:
  "k' \<noteq> k \<Longrightarrow> map_of (tbl_delete k p t) k' = map_of t k'"
  by (induction t) (auto simp: tbl_delete_def)

lemma map_of_tbl_delete [table_simps]:
  "distinct (map fst t) \<Longrightarrow>
   map_of (tbl_delete k p t) k' =
     (if k' = k then (case map_of t k of None \<Rightarrow> None | Some r \<Rightarrow> if p r then None else Some r)
      else map_of t k')"
proof (induction t)
  case Nil
  then show ?case by (simp add: tbl_delete_def)
next
  case (Cons x t)
  obtain a b where x: "x = (a, b)" by (cases x)
  have a: "map_of t a = None" using Cons.prems x by (simp add: map_of_eq_None_iff)
  have "map_of (tbl_delete k p (x # t)) k' =
      (if a = k \<and> p b then map_of (tbl_delete k p t) k'
       else if k' = a then Some b else map_of (tbl_delete k p t) k')"
    by (simp add: x tbl_delete_def)
  moreover have "map_of (tbl_delete k p t) k' =
      (if k' = k then (case map_of t k of None \<Rightarrow> None | Some r \<Rightarrow> if p r then None else Some r)
       else map_of t k')"
    using Cons by simp
  ultimately show ?case using a by (auto simp: x)
qed

lemma tbl_matches_map_of [table_simps]:
  "distinct (map fst t) \<Longrightarrow>
   tbl_matches k p t = (case map_of t k of Some r \<Rightarrow> if p r then 1 else 0 | None \<Rightarrow> 0)"
proof (induction t)
  case Nil
  then show ?case by (simp add: tbl_matches_def)
next
  case (Cons x t)
  have "fst x \<notin> fst ` set t" using Cons.prems by simp
  then have none: "filter (\<lambda>(k', r). k' = fst x \<and> p r) t = []"
    by (auto simp: filter_empty_conv intro: rev_image_eqI)
  show ?case
    using Cons none by (cases x) (auto simp: tbl_matches_def)
qed

lemma map_of_in_set: "map_of t k = Some r \<Longrightarrow> (k, r) \<in> set t"
  by (rule map_of_SomeD)

lemma sql_max_upper: "x \<in> set xs \<Longrightarrow> \<exists>m. sql_max xs = Some m \<and> x \<le> m"
  by (induction xs) (fastforce split: option.splits)+

lemma coalesce0_upper: "x \<in> set xs \<Longrightarrow> x \<le> coalesce0 (sql_max xs)"
  using sql_max_upper by (fastforce simp: coalesce0_def)

text \<open>What \<open>ORDER BY ... LIMIT 1\<close> returns: a matching row no other matching row precedes.\<close>

lemma select_first_by_None [simp]:
  "select_first_by p f t = None \<longleftrightarrow> (\<forall>(k, r) \<in> set t. \<not> p k r)"
proof -
  let ?xs = "filter (\<lambda>(k, r). p k r) t"
  have "select_first_by p f t = None \<longleftrightarrow> sort_key (\<lambda>(k, r). f r) ?xs = []"
    by (auto simp: select_first_by_def split: list.splits)
  also have "\<dots> \<longleftrightarrow> ?xs = []"
    by (metis length_0_conv length_sort)
  finally show ?thesis by (auto simp: filter_empty_conv)
qed

lemma select_first_by_Some:
  assumes "select_first_by p f t = Some k"
  shows "\<exists>r. (k, r) \<in> set t \<and> p k r \<and> (\<forall>(k', r') \<in> set t. p k' r' \<longrightarrow> f r \<le> f r')"
proof -
  let ?g = "\<lambda>(k :: 'a, r). f r"
  let ?xs = "filter (\<lambda>(k, r). p k r) t"
  obtain r ys where s: "sort_key ?g ?xs = (k, r) # ys"
    using assms by (auto simp: select_first_by_def split: list.splits)
  have "sorted (map ?g (sort_key ?g ?xs))" by (rule sorted_sort_key)
  then have le: "\<forall>x \<in> set ys. ?g (k, r) \<le> ?g x" by (simp add: s)
  have st: "set ?xs = insert (k, r) (set ys)" by (metis list.simps(15) s set_sort)
  have "(k, r) \<in> set ?xs" using st by simp
  moreover have "f r \<le> f r'" if "(k', r') \<in> set t" "p k' r'" for k' r'
  proof -
    have "(k', r') \<in> set ?xs" using that by simp
    then show ?thesis using st le by fastforce
  qed
  ultimately show ?thesis by fastforce
qed

section \<open>Transactions\<close>

datatype ('e, 's, 'a) tx = Commit 'a 's | Rollback 'a | Abort 'e

primrec run_tx :: "('e, 's, 'a) tx \<Rightarrow> 's \<Rightarrow> ('e + 'a) \<times> 's" where
  "run_tx (Commit a s') s = (Inr a, s')"
| "run_tx (Rollback a) s = (Inr a, s)"
| "run_tx (Abort e) s = (Inl e, s)"

text \<open>The Rust operator \<open>?\<close>: an error leaves the transaction without a commit.\<close>

primrec try_tx :: "'e + 'a \<Rightarrow> ('a \<Rightarrow> ('e, 's, 'b) tx) \<Rightarrow> ('e, 's, 'b) tx" where
  "try_tx (Inl e) k = Abort e"
| "try_tx (Inr a) k = k a"

primrec try_sum :: "'e + 'a \<Rightarrow> ('a \<Rightarrow> 'e + 'b) \<Rightarrow> 'e + 'b" where
  "try_sum (Inl e) k = Inl e"
| "try_sum (Inr a) k = k a"

lemma try_tx_Commit:
  "try_tx m k = Commit a s \<longleftrightarrow> (\<exists>x. m = Inr x \<and> k x = Commit a s)"
  by (cases m) auto

lemma try_tx_Rollback:
  "try_tx m k = Rollback a \<longleftrightarrow> (\<exists>x. m = Inr x \<and> k x = Rollback a)"
  by (cases m) auto

lemma try_sum_Inr: "try_sum m k = Inr b \<longleftrightarrow> (\<exists>x. m = Inr x \<and> k x = Inr b)"
  by (cases m) auto

lemma run_tx_Inl [tx_simps]: "run_tx t s = (Inl e, s') \<longleftrightarrow> t = Abort e \<and> s' = s"
  by (cases t) auto

lemma run_tx_state: "run_tx t s = (r, s') \<Longrightarrow> s' = s \<or> (\<exists>a. t = Commit a s' \<and> r = Inr a)"
  by (cases t) auto

text \<open>An invariant of the state survives a transaction when every commit keeps it.\<close>

lemma run_tx_keeps:
  assumes "P s" and "\<And>a s'. t = Commit a s' \<Longrightarrow> P s'"
  shows "P (snd (run_tx t s))"
  using assms by (cases t) auto

end
