(* ===== verification/Permit_Ledger.thy ===== *)
theory Permit_Ledger
  imports Velnor_Prelude
begin

text \<open>
  The host-wide \<open>max_jobs=N\<close> permit ledger, \<open>src/crates/velnor-control/src/permit_ledger.rs\<close>:
  its data and every operation.

  \<^item> The SQLite file after \<open>open\<close> is the record \<open>PermitLedger\<close>: the singleton row of
    \<open>permit_meta\<close> as three fields, one table per remaining SQL table.  Lane and state columns
    stay text, as in the schema, because reading them can fail.
  \<^item> A method that opens an immediate transaction is \<open>run_tx\<close> of its body: \<open>Commit\<close> where the
    code reaches \<open>tx.commit()\<close>, \<open>Rollback\<close> where it returns \<open>Ok\<close> before, \<open>Abort\<close> where it
    returns an error.
  \<^item> The wall clock, the process id and the fresh UUID of a call are its \<open>Env\<close>.
\<close>

section \<open>Data\<close>

datatype PermitLane = Native | ScaleSet

definition PermitLane_as_str :: "PermitLane \<Rightarrow> string" where
  "PermitLane_as_str l = (case l of Native \<Rightarrow> ''native'' | ScaleSet \<Rightarrow> ''scale-set'')"

definition PermitLane_parse :: "string \<Rightarrow> PermitLane option" where
  "PermitLane_parse v =
     (if v = ''native'' then Some Native
      else if v = ''scale-set'' then Some ScaleSet
      else None)"

datatype DemandState = Eligible | Granted | Terminal | Cancelled | Waiting

definition DemandState_as_str :: "DemandState \<Rightarrow> string" where
  "DemandState_as_str s =
     (case s of
        Eligible \<Rightarrow> ''eligible''
      | Granted \<Rightarrow> ''granted''
      | Terminal \<Rightarrow> ''terminal''
      | Cancelled \<Rightarrow> ''cancelled''
      | Waiting \<Rightarrow> ''waiting'')"

definition DemandState_parse :: "string \<Rightarrow> DemandState option" where
  "DemandState_parse v =
     (if v = ''eligible'' then Some Eligible
      else if v = ''granted'' then Some Granted
      else if v = ''terminal'' then Some Terminal
      else if v = ''cancelled'' then Some Cancelled
      else if v = ''waiting'' then Some Waiting
      else None)"

record PermitDemand =
  d_holder :: string
  d_lane :: PermitLane
  d_scope :: string
  d_first_seen_unix :: u64
  d_sequence :: int
  d_state :: DemandState
  d_updated_unix :: u64

datatype PermitState =
  Reserved | Acquiring | Provisioning | Assignable | Running | Cleaning | Uncertain

definition PermitState_as_str :: "PermitState \<Rightarrow> string" where
  "PermitState_as_str s =
     (case s of
        Reserved \<Rightarrow> ''reserved''
      | Acquiring \<Rightarrow> ''acquiring''
      | Provisioning \<Rightarrow> ''provisioning''
      | Assignable \<Rightarrow> ''assignable''
      | Running \<Rightarrow> ''running''
      | Cleaning \<Rightarrow> ''cleaning''
      | Uncertain \<Rightarrow> ''uncertain'')"

definition PermitState_parse :: "string \<Rightarrow> PermitState option" where
  "PermitState_parse v =
     (if v = ''reserved'' then Some Reserved
      else if v = ''acquiring'' then Some Acquiring
      else if v = ''provisioning'' then Some Provisioning
      else if v = ''assignable'' then Some Assignable
      else if v = ''running'' then Some Running
      else if v = ''cleaning'' then Some Cleaning
      else if v = ''uncertain'' then Some Uncertain
      else None)"

record PermitHolder =
  h_holder :: string
  h_lane :: PermitLane
  h_state :: PermitState
  h_acquired_unix :: u64
  h_updated_unix :: u64
  h_generation :: u64
  h_pid :: "u32 option"

record ScaleSetRecoveryClaim =
  rc_token :: string
  rc_owner_pid :: u32

datatype AdoptOutcome = Adopted string | LiveHolder | Missing | StaleGeneration

datatype CleanupClaimOutcome = Claimed | ClosedAbsent | DemandClosed | StaleAttempt

datatype AttemptRotationOutcome =
  Rotated | AlreadyRotated | Missing | StaleAttempt | StaleGeneration

datatype OwnedReleaseOutcome = Released | AlreadyAbsent | StaleAttempt

datatype AcquireAttemptOutcome =
  Acquired string | AlreadyHeld | Full | Deferred | Closed | StaleGeneration | NotConfigured

record ReconcileReport =
  marked_uncertain :: "string list"
  confirmed :: "string list"

text \<open>The storage errors the modelled statements can raise by themselves; failures of the disk
  or of the lock are not part of the model.\<close>

datatype StorageError = QueryReturnedNoRows | UniqueViolation | InvalidColumnType

datatype LedgerError =
    Storage StorageError
  | UnknownLane string
  | UnknownState string
  | UnknownDemandState string
  | UnknownHolder string
  | StaleAttempt string
  | RecoveryClaimed u32
  | DemandLaneMismatch string PermitLane string
  | StaleGeneration u64 u64

text \<open>Rows of the tables \<open>permits\<close> and \<open>permit_demands\<close>, without their key \<open>holder\<close>.\<close>

record PermitRow =
  p_lane :: string
  p_state :: string
  p_acquired_unix :: int
  p_updated_unix :: int
  p_generation :: int
  p_pid :: "int option"
  p_attempt_token :: string
  p_recovery_claim_token :: "string option"
  p_recovery_previous_pid :: "int option"
  p_recovery_previous_token :: "string option"

record DemandRow =
  q_lane :: string
  q_scope :: string
  q_first_seen_unix :: int
  q_sequence :: int
  q_state :: string
  q_updated_unix :: int

record PermitLedger =
  meta_max_jobs :: "int option"
  meta_generation :: int
  meta_reconciled_generation :: int
  permits :: "(string, PermitRow) table"
  permit_demands :: "(string, DemandRow) table"
  token_migrations :: "(string, string \<times> int) table"
  recovery_claims :: "(string \<times> int) option"
  cleanup_releases :: "(string \<times> string) list"

text \<open>What one call reads from its surroundings: \<open>unix_now()\<close>, \<open>std::process::id()\<close> and
  \<open>Uuid::new_v4().to_string()\<close>.\<close>

record Env =
  unix_now :: u64
  process_id :: u32
  new_uuid :: string

type_synonym 'a outcome = "(LedgerError + 'a) \<times> PermitLedger"

definition DEMAND_STALE_AFTER_SECS :: u64 where
  "DEMAND_STALE_AFTER_SECS = 300"

text \<open>Durations in milliseconds.\<close>

definition DEFERRED_WAIT_BUDGET :: nat where
  "DEFERRED_WAIT_BUDGET = 5000"

definition DEFERRED_WAIT_MIN :: nat where
  "DEFERRED_WAIT_MIN = 1"

definition DEFERRED_WAIT_MAX :: nat where
  "DEFERRED_WAIT_MAX = 50"

definition deferred_wait :: "u32 \<Rightarrow> nat" where
  "deferred_wait attempt = min (DEFERRED_WAIT_MIN * 2 ^ unat (min attempt 10)) DEFERRED_WAIT_MAX"

section \<open>Row statements\<close>

text \<open>The \<open>UPDATE\<close> statements on \<open>permit_demands\<close> that the operations share.\<close>

definition put_demand_state ::
    "string \<Rightarrow> DemandState \<Rightarrow> int \<Rightarrow> (DemandRow \<Rightarrow> bool) \<Rightarrow> PermitLedger \<Rightarrow> PermitLedger" where
  "put_demand_state holder st now cond L =
     L\<lparr>permit_demands := tbl_update holder cond
          (\<lambda>d. d\<lparr>q_state := DemandState_as_str st, q_updated_unix := now\<rparr>) (permit_demands L)\<rparr>"

definition touch_demand :: "string \<Rightarrow> int \<Rightarrow> PermitLedger \<Rightarrow> PermitLedger" where
  "touch_demand holder now L =
     L\<lparr>permit_demands := tbl_update holder (\<lambda>_. True)
          (\<lambda>d. d\<lparr>q_updated_unix := now\<rparr>) (permit_demands L)\<rparr>"

definition delete_permit :: "string \<Rightarrow> string \<Rightarrow> PermitLedger \<Rightarrow> PermitLedger" where
  "delete_permit holder tok L =
     L\<lparr>permits := tbl_delete holder (\<lambda>r. p_attempt_token r = tok) (permits L)\<rparr>"

definition delete_cleanup_release :: "string \<Rightarrow> string \<Rightarrow> PermitLedger \<Rightarrow> PermitLedger" where
  "delete_cleanup_release holder tok L =
     L\<lparr>cleanup_releases := filter (\<lambda>k. k \<noteq> (holder, tok)) (cleanup_releases L)\<rparr>"

text \<open>The unique index on \<open>permits.attempt_token\<close>: a row of another holder with this token.\<close>

definition token_taken :: "string \<Rightarrow> string \<Rightarrow> PermitLedger \<Rightarrow> bool" where
  "token_taken holder tok L \<longleftrightarrow>
     (\<exists>(h, r) \<in> set (permits L). h \<noteq> holder \<and> p_attempt_token r = tok)"

definition migrated_token :: "string \<Rightarrow> string \<Rightarrow> PermitLedger \<Rightarrow> bool" where
  "migrated_token holder tok L \<longleftrightarrow>
     (\<exists>(h, t, _) \<in> set (token_migrations L). h = holder \<and> t = tok)"

section \<open>Reading demands and owners\<close>

definition read_demand :: "PermitLedger \<Rightarrow> string \<Rightarrow> LedgerError + PermitDemand option" where
  "read_demand L holder =
     (case map_of (permit_demands L) holder of
        None \<Rightarrow> Inr None
      | Some d \<Rightarrow>
          (case PermitLane_parse (q_lane d) of
             None \<Rightarrow> Inl (UnknownLane (q_lane d))
           | Some l \<Rightarrow>
               (case DemandState_parse (q_state d) of
                  None \<Rightarrow> Inl (UnknownDemandState (q_state d))
                | Some st \<Rightarrow>
                    Inr (Some \<lparr>d_holder = holder, d_lane = l, d_scope = q_scope d,
                      d_first_seen_unix = u64_max0 (q_first_seen_unix d),
                      d_sequence = q_sequence d, d_state = st,
                      d_updated_unix = u64_max0 (q_updated_unix d)\<rparr>))))"

definition read_owned_attempt_state ::
    "PermitLedger \<Rightarrow> string \<Rightarrow> string \<Rightarrow> LedgerError + string" where
  "read_owned_attempt_state L holder tok =
     (case map_of (permits L) holder of
        Some r \<Rightarrow>
          if p_attempt_token r = tok then Inr (p_state r)
          else Inl (LedgerError.StaleAttempt holder)
      | None \<Rightarrow>
          if map_of (permit_demands L) holder \<noteq> None
          then Inl (LedgerError.StaleAttempt holder)
          else Inl (UnknownHolder holder))"

definition check_demand_lane ::
    "string \<Rightarrow> PermitDemand \<Rightarrow> PermitLane \<Rightarrow> LedgerError + unit" where
  "check_demand_lane holder dm lane =
     (if d_lane dm = lane then Inr ()
      else Inl (DemandLaneMismatch holder lane (PermitLane_as_str (d_lane dm))))"

text \<open>\<open>SELECT COALESCE(MAX(sequence), 0) + 1\<close>: SQLite turns an overflowing sum into a real
  number, which cannot be read as an \<open>i64\<close>.\<close>

definition next_sequence :: "PermitLedger \<Rightarrow> LedgerError + int" where
  "next_sequence L =
     (let m = coalesce0 (sql_max (map (\<lambda>x. q_sequence (snd x)) (permit_demands L)))
      in if i64_max \<le> m then Inl (Storage InvalidColumnType) else Inr (m + 1))"

definition ensure_demand_tx ::
    "string \<Rightarrow> PermitLane \<Rightarrow> string \<Rightarrow> u64 \<Rightarrow> u64 \<Rightarrow> DemandState \<Rightarrow> PermitLedger
      \<Rightarrow> LedgerError + PermitDemand \<times> PermitLedger" where
  "ensure_demand_tx holder lane scope first_seen updated initial_state L =
     try_sum (read_demand L holder) (\<lambda>existing.
       case existing of
         Some dm \<Rightarrow> try_sum (check_demand_lane holder dm lane) (\<lambda>_. Inr (dm, L))
       | None \<Rightarrow>
           try_sum (next_sequence L) (\<lambda>sq.
             Inr (\<lparr>d_holder = holder, d_lane = lane, d_scope = scope,
                   d_first_seen_unix = first_seen, d_sequence = sq, d_state = initial_state,
                   d_updated_unix = updated\<rparr>,
                  L\<lparr>permit_demands := tbl_insert holder
                      \<lparr>q_lane = PermitLane_as_str lane, q_scope = scope,
                       q_first_seen_unix = i64_try_from_u64 first_seen, q_sequence = sq,
                       q_state = DemandState_as_str initial_state,
                       q_updated_unix = i64_try_from_u64 updated\<rparr> (permit_demands L)\<rparr>)))"

section \<open>The recovery claim\<close>

definition claim_scaleset_recovery ::
    "Env \<Rightarrow> (u32 \<Rightarrow> bool) \<Rightarrow> PermitLedger \<Rightarrow> ScaleSetRecoveryClaim outcome" where
  "claim_scaleset_recovery env is_alive L = run_tx
     (case recovery_claims L of
        Some (tok, raw_pid) \<Rightarrow>
          if tok = [] then
            Abort (LedgerError.StaleAttempt ''Scale Set recovery claim token'')
          else (case u32_try_from_i64 raw_pid of
              None \<Rightarrow> Abort (LedgerError.StaleAttempt ''Scale Set recovery claim owner pid'')
            | Some old_pid \<Rightarrow>
                if old_pid = 0 then
                  Abort (LedgerError.StaleAttempt ''Scale Set recovery claim owner pid'')
                else if is_alive old_pid then Abort (RecoveryClaimed old_pid)
                else
                  Commit \<lparr>rc_token = tok, rc_owner_pid = process_id env\<rparr>
                    (L\<lparr>recovery_claims := Some (tok, uint (process_id env))\<rparr>))
      | None \<Rightarrow>
          Commit \<lparr>rc_token = new_uuid env, rc_owner_pid = process_id env\<rparr>
            (L\<lparr>recovery_claims := Some (new_uuid env, uint (process_id env))\<rparr>)) L"

text \<open>\<open>ScaleSetRecoveryClaim::release\<close>; the claim's token is cleared after the commit.\<close>

definition claim_release ::
    "ScaleSetRecoveryClaim \<Rightarrow> PermitLedger \<Rightarrow> ScaleSetRecoveryClaim outcome" where
  "claim_release c L = run_tx
     (if recovery_claims L = Some (rc_token c, uint (rc_owner_pid c))
      then Commit (c\<lparr>rc_token := []\<rparr>) (L\<lparr>recovery_claims := None\<rparr>)
      else Abort (LedgerError.StaleAttempt ''Scale Set recovery claim'')) L"

section \<open>Configuration, epochs and observation\<close>

definition max_jobs :: "PermitLedger \<Rightarrow> u32 option" where
  "max_jobs L = Option.bind (meta_max_jobs L) u32_try_from_i64"

definition set_max_jobs :: "u32 \<Rightarrow> PermitLedger \<Rightarrow> unit outcome" where
  "set_max_jobs n L = (Inr (), L\<lparr>meta_max_jobs := Some (uint n)\<rparr>)"

definition set_max_jobs_if_unset :: "u32 \<Rightarrow> PermitLedger \<Rightarrow> bool outcome" where
  "set_max_jobs_if_unset n L = run_tx
     (if meta_max_jobs L = None
      then Commit True (L\<lparr>meta_max_jobs := Some (uint n)\<rparr>)
      else Commit False L) L"

definition generation :: "PermitLedger \<Rightarrow> u64" where
  "generation L = u64_max0 (meta_generation L)"

definition begin_epoch :: "PermitLedger \<Rightarrow> u64 outcome" where
  "begin_epoch L = run_tx
     (let nxt = i64_saturating_add1 (meta_generation L)
      in Commit (u64_max0 nxt) (L\<lparr>meta_generation := nxt\<rparr>)) L"

definition reconciled :: "PermitLedger \<Rightarrow> bool" where
  "reconciled L \<longleftrightarrow> meta_generation L = meta_reconciled_generation L"

text \<open>\<open>u32::try_from(count.max(0)).unwrap_or(u32::MAX)\<close>.\<close>

definition count_u32 :: "nat \<Rightarrow> u32" where
  "count_u32 n = (case u32_try_from_i64 (max (int n) 0) of Some c \<Rightarrow> c | None \<Rightarrow> u32_max)"

definition occupied :: "PermitLedger \<Rightarrow> u32" where
  "occupied L = count_u32 (length (permits L))"

definition occupied_by_lane :: "PermitLane \<Rightarrow> PermitLedger \<Rightarrow> u32" where
  "occupied_by_lane lane L =
     count_u32 (length (filter (\<lambda>(_, r). p_lane r = PermitLane_as_str lane) (permits L)))"

definition occupied_in_state :: "PermitState \<Rightarrow> PermitLedger \<Rightarrow> u32" where
  "occupied_in_state st L =
     count_u32 (length (filter (\<lambda>(_, r). p_state r = PermitState_as_str st) (permits L)))"

definition advertised_free :: "PermitLedger \<Rightarrow> u32 option" where
  "advertised_free L =
     (if \<not> reconciled L then None
      else case max_jobs L of
             None \<Rightarrow> None
           | Some n \<Rightarrow> Some (saturating_sub_word n (occupied L)))"

fun read_holders :: "(string, PermitRow) table \<Rightarrow> LedgerError + PermitHolder list" where
  "read_holders [] = Inr []"
| "read_holders ((h, r) # rows) =
     (case PermitLane_parse (p_lane r) of
        None \<Rightarrow> Inl (UnknownLane (p_lane r))
      | Some l \<Rightarrow>
          (case PermitState_parse (p_state r) of
             None \<Rightarrow> Inl (UnknownState (p_state r))
           | Some st \<Rightarrow>
               try_sum (read_holders rows) (\<lambda>hs. Inr (
                 \<lparr>h_holder = h, h_lane = l, h_state = st,
                  h_acquired_unix = u64_max0 (p_acquired_unix r),
                  h_updated_unix = u64_max0 (p_updated_unix r),
                  h_generation = u64_max0 (p_generation r),
                  h_pid = Option.bind (p_pid r) u32_try_from_i64\<rparr> # hs))))"

definition holders :: "PermitLedger \<Rightarrow> LedgerError + PermitHolder list" where
  "holders L = read_holders (sort_key fst (permits L))"

definition has_permit :: "PermitLedger \<Rightarrow> string \<Rightarrow> bool" where
  "has_permit L holder \<longleftrightarrow> map_of (permits L) holder \<noteq> None"

definition is_current_attempt :: "PermitLedger \<Rightarrow> string \<Rightarrow> string \<Rightarrow> bool" where
  "is_current_attempt L holder tok \<longleftrightarrow>
     (\<exists>(h, r) \<in> set (permits L). h = holder \<and> p_attempt_token r = tok)"

definition demand :: "PermitLedger \<Rightarrow> string \<Rightarrow> LedgerError + PermitDemand option" where
  "demand L holder = read_demand L holder"

definition holder_state :: "PermitLedger \<Rightarrow> string \<Rightarrow> LedgerError + PermitState option" where
  "holder_state L holder =
     (case map_of (permits L) holder of
        None \<Rightarrow> Inr None
      | Some r \<Rightarrow> (case PermitState_parse (p_state r) of
                     None \<Rightarrow> Inl (UnknownState (p_state r))
                   | Some st \<Rightarrow> Inr (Some st)))"

section \<open>Demand operations\<close>

definition observe_demand ::
    "string \<Rightarrow> PermitLane \<Rightarrow> string \<Rightarrow> u64 \<Rightarrow> u64 \<Rightarrow> PermitLedger \<Rightarrow> PermitDemand outcome" where
  "observe_demand holder lane scope first_seen observed L = run_tx
     (let held_lane = map_option p_lane (map_of (permits L) holder) in
      if (case held_lane of Some hl \<Rightarrow> hl \<noteq> PermitLane_as_str lane | None \<Rightarrow> False)
      then Abort (DemandLaneMismatch holder lane (the held_lane))
      else
        try_tx (ensure_demand_tx holder lane scope first_seen observed
                  (if held_lane \<noteq> None then Granted else Eligible) L) (\<lambda>(existing, L1).
          let L2 = (if d_state existing = Waiting
                    then put_demand_state holder Eligible (i64_try_from_u64 observed) (\<lambda>_. True) L1
                    else if d_state existing \<in> {Eligible, Granted}
                    then touch_demand holder (i64_try_from_u64 observed) L1
                    else L1)
          in try_tx (read_demand L2 holder) (\<lambda>dm.
               case dm of
                 None \<Rightarrow> Abort (UnknownHolder holder)
               | Some dm \<Rightarrow> Commit dm L2))) L"

definition demand_in :: "DemandState set \<Rightarrow> DemandRow \<Rightarrow> bool" where
  "demand_in S d \<longleftrightarrow> (\<exists>st \<in> S. q_state d = DemandState_as_str st)"

definition park_demand :: "Env \<Rightarrow> string \<Rightarrow> PermitLedger \<Rightarrow> bool outcome" where
  "park_demand env holder L = run_tx
     (let changed = tbl_matches holder (demand_in {Eligible}) (permit_demands L)
      in Commit (changed > 0)
           (put_demand_state holder Waiting (as_i64 (unix_now env)) (demand_in {Eligible}) L)) L"

definition cancel_demand :: "Env \<Rightarrow> string \<Rightarrow> PermitLedger \<Rightarrow> bool outcome" where
  "cancel_demand env holder L = run_tx
     (let cond = (\<lambda>d. demand_in {Eligible, Waiting} d \<and> \<not> has_permit L holder);
          changed = tbl_matches holder cond (permit_demands L)
      in Commit (changed > 0)
           (put_demand_state holder Cancelled (as_i64 (unix_now env)) cond L)) L"

section \<open>Acquisition\<close>

text \<open>The queue head: \<open>SELECT holder ... WHERE state = 'eligible' AND updated_unix > fresh_after
  ORDER BY first_seen_unix, sequence LIMIT 1\<close>.\<close>

definition queue_head :: "u64 \<Rightarrow> PermitLedger \<Rightarrow> string option" where
  "queue_head fresh_after L =
     select_first_by (\<lambda>_ d. demand_in {Eligible} d \<and> i64_try_from_u64 fresh_after < q_updated_unix d)
       (\<lambda>d. (q_first_seen_unix d, q_sequence d)) (permit_demands L)"

text \<open>The demand's update before the capacity check: an eligible row is refreshed, a granted row
  without a permit and a parked row become eligible again.\<close>

definition revive_demand :: "string \<Rightarrow> DemandState \<Rightarrow> u64 \<Rightarrow> PermitLedger \<Rightarrow> PermitLedger" where
  "revive_demand holder st now L =
     (if st = Granted then put_demand_state holder Eligible (i64_try_from_u64 now) (\<lambda>_. True) L
      else if st = Waiting then put_demand_state holder Eligible (i64_try_from_u64 now) (\<lambda>_. True) L
      else touch_demand holder (i64_try_from_u64 now) L)"

definition insert_permit ::
    "string \<Rightarrow> PermitLane \<Rightarrow> PermitState \<Rightarrow> int \<Rightarrow> u64 \<Rightarrow> u32 option \<Rightarrow> string \<Rightarrow> PermitLedger
      \<Rightarrow> LedgerError + PermitLedger" where
  "insert_permit holder lane st now gen pid tok L =
     (if token_taken holder tok L then Inl (Storage UniqueViolation)
      else Inr (L\<lparr>permits := tbl_insert holder
        \<lparr>p_lane = PermitLane_as_str lane, p_state = PermitState_as_str st,
         p_acquired_unix = now, p_updated_unix = now,
         p_generation = i64_try_from_u64 gen, p_pid = map_option uint pid,
         p_attempt_token = tok, p_recovery_claim_token = None,
         p_recovery_previous_pid = None, p_recovery_previous_token = None\<rparr> (permits L)\<rparr>))"

text \<open>The end of an acquisition, once the demand is eligible: the capacity check, the queue
  check, and the grant.\<close>

definition grant_tx ::
    "Env \<Rightarrow> string \<Rightarrow> PermitLane \<Rightarrow> PermitState \<Rightarrow> u64 \<Rightarrow> u32 option \<Rightarrow> string option \<Rightarrow> u32
      \<Rightarrow> PermitLedger \<Rightarrow> (LedgerError, PermitLedger, AcquireAttemptOutcome) tx" where
  "grant_tx env holder lane st gen pid staged n L =
     (let now = unix_now env in
      if max (int (length (permits L))) 0 \<ge> uint n then Commit Full L
      else
        case queue_head (saturating_sub_word now DEMAND_STALE_AFTER_SECS) L of
          None \<Rightarrow> Abort (Storage QueryReturnedNoRows)
        | Some oldest \<Rightarrow>
            if oldest \<noteq> holder then Commit Deferred L
            else
              let now_i64 = i64_try_from_u64 now;
                  tok = (case staged of Some t \<Rightarrow> t | None \<Rightarrow> new_uuid env)
              in try_tx (insert_permit holder lane st now_i64 gen pid tok L) (\<lambda>L1.
                   Commit (Acquired tok)
                     (put_demand_state holder Granted now_i64 (\<lambda>_. True) L1)))"

text \<open>The branch of an acquisition whose holder already has a permit row.\<close>

definition held_tx ::
    "string \<Rightarrow> PermitLane \<Rightarrow> PermitState \<Rightarrow> string option \<Rightarrow> PermitRow \<Rightarrow> PermitLedger
      \<Rightarrow> (LedgerError, PermitLedger, AcquireAttemptOutcome) tx" where
  "held_tx holder lane st staged r L =
     (if p_lane r \<noteq> PermitLane_as_str lane
      then Abort (DemandLaneMismatch holder lane (p_lane r))
      else if staged = Some (p_attempt_token r) \<and> p_state r = PermitState_as_str st
      then try_tx (read_demand L holder) (\<lambda>dm.
             case dm of
               None \<Rightarrow> Abort (UnknownHolder holder)
             | Some dm \<Rightarrow>
                 try_tx (check_demand_lane holder dm lane) (\<lambda>_.
                   if d_state dm \<noteq> Granted then Rollback AlreadyHeld
                   else Commit (Acquired (p_attempt_token r)) L))
      else Commit AlreadyHeld L)"

definition acquire_attempt_with_token ::
    "Env \<Rightarrow> string \<Rightarrow> PermitLane \<Rightarrow> PermitState \<Rightarrow> u64 \<Rightarrow> u32 option \<Rightarrow> string option
      \<Rightarrow> PermitLedger \<Rightarrow> AcquireAttemptOutcome outcome" where
  "acquire_attempt_with_token env holder lane st gen pid staged L = run_tx
     (let now = unix_now env in
      if generation L \<noteq> gen then Rollback AcquireAttemptOutcome.StaleGeneration
      else case map_of (permits L) holder of
        Some r \<Rightarrow> held_tx holder lane st staged r L
      | None \<Rightarrow>
          (case max_jobs L of
             None \<Rightarrow> Rollback NotConfigured
           | Some n \<Rightarrow>
               try_tx (ensure_demand_tx holder lane [] now now Eligible L) (\<lambda>(dm, L1).
                 if d_state dm = Terminal \<or> d_state dm = Cancelled then Rollback Closed
                 else grant_tx env holder lane st gen pid staged n
                        (revive_demand holder (d_state dm) now L1)))) L"

definition acquire_attempt ::
    "Env \<Rightarrow> string \<Rightarrow> PermitLane \<Rightarrow> PermitState \<Rightarrow> u64 \<Rightarrow> u32 option \<Rightarrow> PermitLedger
      \<Rightarrow> AcquireAttemptOutcome outcome" where
  "acquire_attempt env holder lane st gen pid L =
     acquire_attempt_with_token env holder lane st gen pid None L"

definition acquire_scaleset_attempt_with_token ::
    "Env \<Rightarrow> string \<Rightarrow> PermitState \<Rightarrow> u64 \<Rightarrow> u32 option \<Rightarrow> string \<Rightarrow> PermitLedger
      \<Rightarrow> AcquireAttemptOutcome outcome" where
  "acquire_scaleset_attempt_with_token env holder st gen pid tok L =
     (if tok = [] then (Inl (LedgerError.StaleAttempt holder), L)
      else acquire_attempt_with_token env holder ScaleSet st gen pid (Some tok) L)"

section \<open>Adoption and rotation\<close>

text \<open>After a row changes owner, its demand exists and is no longer eligible.\<close>

definition grant_demand_tx ::
    "string \<Rightarrow> PermitLane \<Rightarrow> u64 \<Rightarrow> int \<Rightarrow> PermitLedger \<Rightarrow> LedgerError + PermitLedger" where
  "grant_demand_tx holder lane now now_i64 L =
     try_sum (ensure_demand_tx holder lane [] now now Granted L) (\<lambda>(dm, L1).
       Inr (if d_state dm = Eligible
            then put_demand_state holder Granted now_i64 (\<lambda>_. True) L1 else L1))"

definition adopt_row :: "PermitState \<Rightarrow> int \<Rightarrow> u64 \<Rightarrow> u32 \<Rightarrow> string \<Rightarrow> PermitRow \<Rightarrow> PermitRow" where
  "adopt_row st now gen pid tok r =
     r\<lparr>p_state := PermitState_as_str st, p_updated_unix := now,
       p_generation := i64_try_from_u64 gen, p_pid := Some (uint pid),
       p_attempt_token := tok, p_recovery_claim_token := None,
       p_recovery_previous_pid := None, p_recovery_previous_token := None\<rparr>"

definition adopt_for_redelivery ::
    "Env \<Rightarrow> string \<Rightarrow> PermitLane \<Rightarrow> PermitState \<Rightarrow> u64 \<Rightarrow> u32 \<Rightarrow> (u32 \<Rightarrow> bool) \<Rightarrow> PermitLedger
      \<Rightarrow> AdoptOutcome outcome" where
  "adopt_for_redelivery env holder lane st gen pid is_alive L = run_tx
     (if generation L \<noteq> gen then Rollback AdoptOutcome.StaleGeneration
      else case map_of (permits L) holder of
        None \<Rightarrow> Rollback AdoptOutcome.Missing
      | Some r \<Rightarrow>
          if p_lane r \<noteq> PermitLane_as_str lane then Rollback LiveHolder
          else (case Option.bind (p_pid r) u32_try_from_i64 of
              None \<Rightarrow> Rollback LiveHolder
            | Some row_pid \<Rightarrow>
                let demand_state = map_option q_state (map_of (permit_demands L) holder);
                    retained = (lane = Native \<and> row_pid = pid
                      \<and> p_state r = PermitState_as_str Uncertain
                      \<and> demand_state = Some (DemandState_as_str Terminal))
                in if is_alive row_pid \<and> \<not> retained then Rollback LiveHolder
                   else
                     let now = unix_now env; tok = new_uuid env
                     in if token_taken holder tok L then Abort (Storage UniqueViolation)
                        else try_tx (grant_demand_tx holder lane now (i64_try_from_u64 now)
                               (L\<lparr>permits := tbl_update holder (\<lambda>_. True)
                                    (adopt_row st (i64_try_from_u64 now) gen pid tok) (permits L)\<rparr>))
                             (\<lambda>L1. Commit (Adopted tok) L1))) L"

definition rotate_row ::
    "PermitState \<Rightarrow> int \<Rightarrow> u64 \<Rightarrow> u32 \<Rightarrow> string \<Rightarrow> string \<Rightarrow> u32 \<Rightarrow> string option \<Rightarrow> PermitRow
      \<Rightarrow> PermitRow" where
  "rotate_row st now gen pid target claim prev_pid prev_tok r =
     r\<lparr>p_state := PermitState_as_str st, p_updated_unix := now,
       p_generation := i64_try_from_u64 gen, p_pid := Some (uint pid),
       p_attempt_token := target, p_recovery_claim_token := Some claim,
       p_recovery_previous_pid := Some (uint prev_pid),
       p_recovery_previous_token := prev_tok\<rparr>"

text \<open>The row already carries the staged target: a completed rotation, or somebody else's.\<close>

definition rotation_replay ::
    "u64 \<Rightarrow> u32 \<Rightarrow> string option \<Rightarrow> string \<Rightarrow> PermitRow \<Rightarrow> PermitLedger
      \<Rightarrow> (LedgerError, PermitLedger, AttemptRotationOutcome) tx" where
  "rotation_replay gen prev_pid prev_tok claim r L =
     (if generation L < gen then Rollback AttemptRotationOutcome.StaleGeneration
      else if p_recovery_claim_token r = Some claim
            \<and> p_recovery_previous_pid r = Some (uint prev_pid)
            \<and> p_recovery_previous_token r = prev_tok
            \<and> u64_try_from_i64 (p_generation r) = Some gen
      then Commit AlreadyRotated L
      else Rollback AttemptRotationOutcome.StaleAttempt)"

text \<open>The compare-and-swap itself, on a row of the right lane with another token.\<close>

definition rotate_cas_tx ::
    "Env \<Rightarrow> string \<Rightarrow> PermitState \<Rightarrow> u64 \<Rightarrow> u32 \<Rightarrow> string option \<Rightarrow> string \<Rightarrow> string \<Rightarrow> PermitRow
      \<Rightarrow> PermitLedger \<Rightarrow> (LedgerError, PermitLedger, AttemptRotationOutcome) tx" where
  "rotate_cas_tx env holder st gen prev_pid prev_tok target claim r L =
     (if p_attempt_token r = []
         \<or> Option.bind (p_pid r) u32_try_from_i64 \<noteq> Some prev_pid
         \<or> \<not> (case prev_tok of
                Some previous \<Rightarrow> previous = p_attempt_token r
              | None \<Rightarrow> migrated_token holder (p_attempt_token r) L)
      then Rollback AttemptRotationOutcome.StaleAttempt
      else
        let now = i64_try_from_u64 (unix_now env);
            cond = (\<lambda>r'. p_lane r' = PermitLane_as_str ScaleSet
              \<and> p_attempt_token r' = p_attempt_token r \<and> p_pid r' = Some (uint prev_pid));
            changed = tbl_matches holder cond (permits L)
        in if 0 < changed \<and> token_taken holder target L then Abort (Storage UniqueViolation)
           else if changed \<noteq> 1 then Rollback AttemptRotationOutcome.StaleAttempt
           else try_tx (grant_demand_tx holder ScaleSet (u64_max0 now) now
                  (L\<lparr>permits := tbl_update holder cond
                       (rotate_row st now gen (process_id env) target claim prev_pid prev_tok)
                       (permits L)\<rparr>))
                (\<lambda>L1. Commit Rotated L1))"

definition rotate_scaleset_attempt_for_recovery ::
    "Env \<Rightarrow> string \<Rightarrow> PermitState \<Rightarrow> u64 \<Rightarrow> u32 \<Rightarrow> string option \<Rightarrow> string \<Rightarrow> string \<Rightarrow> PermitLedger
      \<Rightarrow> AttemptRotationOutcome outcome" where
  "rotate_scaleset_attempt_for_recovery env holder st gen prev_pid prev_tok target claim L =
     (if target = [] \<or> claim = [] \<or> prev_pid = 0 \<or> prev_tok = Some [] \<or> prev_tok = Some target
      then (Inr AttemptRotationOutcome.StaleAttempt, L)
      else run_tx
        (if recovery_claims L \<noteq> Some (claim, uint (process_id env))
         then Rollback AttemptRotationOutcome.StaleAttempt
         else case map_of (permits L) holder of
           None \<Rightarrow> Rollback AttemptRotationOutcome.Missing
         | Some r \<Rightarrow>
             if p_lane r \<noteq> PermitLane_as_str ScaleSet
             then Abort (DemandLaneMismatch holder ScaleSet (p_lane r))
             else if p_attempt_token r = target
             then rotation_replay gen prev_pid prev_tok claim r L
             else if generation L \<noteq> gen then Rollback AttemptRotationOutcome.StaleGeneration
             else rotate_cas_tx env holder st gen prev_pid prev_tok target claim r L) L)"

section \<open>Transitions and cleanup claims\<close>

definition transition_for_attempt ::
    "Env \<Rightarrow> string \<Rightarrow> PermitState \<Rightarrow> u64 \<Rightarrow> string \<Rightarrow> PermitLedger \<Rightarrow> unit outcome" where
  "transition_for_attempt env holder st gen tok L = run_tx
     (if generation L \<noteq> gen then Abort (LedgerError.StaleGeneration (generation L) gen)
      else try_tx (read_owned_attempt_state L holder tok) (\<lambda>current_state.
        if current_state = PermitState_as_str Cleaning then Commit () L
        else Commit ()
          (L\<lparr>permits := tbl_update holder
               (\<lambda>r. p_attempt_token r = tok
                  \<and> (p_state r \<noteq> PermitState_as_str Cleaning \<or> st = Cleaning))
               (\<lambda>r. r\<lparr>p_state := PermitState_as_str st, p_updated_unix := as_i64 (unix_now env),
                      p_generation := i64_try_from_u64 gen,
                      p_pid := Some (uint (process_id env))\<rparr>) (permits L)\<rparr>))) L"

definition transition_owned ::
    "Env \<Rightarrow> string \<Rightarrow> PermitState \<Rightarrow> u64 \<Rightarrow> string \<Rightarrow> PermitLedger \<Rightarrow> unit outcome" where
  "transition_owned env holder st gen tok L = transition_for_attempt env holder st gen tok L"

text \<open>The two branches of a recorded terminal cleanup: the permit row exists, or it is gone.\<close>

definition cleanup_present_tx ::
    "Env \<Rightarrow> string \<Rightarrow> PermitLane \<Rightarrow> string \<Rightarrow> PermitRow \<Rightarrow> PermitLedger
      \<Rightarrow> (LedgerError, PermitLedger, CleanupClaimOutcome) tx" where
  "cleanup_present_tx env holder lane tok r L =
     (if p_lane r \<noteq> PermitLane_as_str lane
      then Abort (DemandLaneMismatch holder lane (p_lane r))
      else try_tx (read_demand L holder) (\<lambda>dm.
        try_tx (case dm of Some dm \<Rightarrow> check_demand_lane holder dm lane | None \<Rightarrow> Inr ()) (\<lambda>_.
          if p_attempt_token r \<noteq> tok then Commit CleanupClaimOutcome.StaleAttempt L
          else Commit Claimed
            (L\<lparr>permits := tbl_update holder (\<lambda>r. p_attempt_token r = tok)
                 (\<lambda>r. r\<lparr>p_state := PermitState_as_str Cleaning,
                        p_updated_unix := i64_try_from_u64 (unix_now env),
                        p_generation := meta_generation L,
                        p_pid := Some (uint (process_id env))\<rparr>) (permits L)\<rparr>))))"

definition cleanup_absent_tx ::
    "Env \<Rightarrow> string \<Rightarrow> PermitLane \<Rightarrow> string \<Rightarrow> PermitLedger
      \<Rightarrow> (LedgerError, PermitLedger, CleanupClaimOutcome) tx" where
  "cleanup_absent_tx env holder lane tok L =
     (let now = unix_now env in
      try_tx (read_demand L holder) (\<lambda>existing.
        try_tx (case existing of Some dm \<Rightarrow> check_demand_lane holder dm lane | None \<Rightarrow> Inr ()) (\<lambda>_.
          let was_closed = (case existing of
                Some dm \<Rightarrow> d_state dm = Terminal \<or> d_state dm = Cancelled | None \<Rightarrow> False);
              cancelled = (case existing of Some dm \<Rightarrow> d_state dm = Cancelled | None \<Rightarrow> False);
              L1 = (if lane = Native \<and> was_closed \<and> cancelled
                       \<and> (holder, tok) \<notin> set (cleanup_releases L)
                    then L\<lparr>cleanup_releases := cleanup_releases L @ [(holder, tok)]\<rparr> else L)
          in if was_closed then Commit ClosedAbsent L1
             else try_tx (ensure_demand_tx holder lane [] now now Terminal L1) (\<lambda>(_, L2).
               Commit DemandClosed
                 (put_demand_state holder Terminal (i64_try_from_u64 now) (\<lambda>_. True) L2)))))"

definition claim_recorded_terminal_cleanup ::
    "Env \<Rightarrow> string \<Rightarrow> PermitLane \<Rightarrow> string \<Rightarrow> PermitLedger \<Rightarrow> CleanupClaimOutcome outcome" where
  "claim_recorded_terminal_cleanup env holder lane tok L =
     (if tok = [] then (Inr CleanupClaimOutcome.StaleAttempt, L)
      else run_tx
        (case map_of (permits L) holder of
           Some r \<Rightarrow> cleanup_present_tx env holder lane tok r L
         | None \<Rightarrow> cleanup_absent_tx env holder lane tok L) L)"

section \<open>Releases\<close>

definition release_with_demand_state ::
    "Env \<Rightarrow> string \<Rightarrow> DemandState \<Rightarrow> string \<Rightarrow> PermitLedger \<Rightarrow> bool outcome" where
  "release_with_demand_state env holder next tok L = run_tx
     (let now = i64_try_from_u64 (unix_now env);
          removed = tbl_matches holder (\<lambda>r. p_attempt_token r = tok) (permits L);
          L1 = delete_permit holder tok L
      in if removed = 0 then Commit False L1
         else Commit (removed > 0)
           (case next of
              Terminal \<Rightarrow> put_demand_state holder next now (\<lambda>_. True) L1
            | Cancelled \<Rightarrow> put_demand_state holder next now (\<lambda>_. True) L1
            | Eligible \<Rightarrow> put_demand_state holder Eligible now (demand_in {Eligible, Granted}) L1
            | Granted \<Rightarrow> L1
            | Waiting \<Rightarrow> L1)) L"

definition release_owned :: "Env \<Rightarrow> string \<Rightarrow> string \<Rightarrow> PermitLedger \<Rightarrow> bool outcome" where
  "release_owned env holder tok L = release_with_demand_state env holder Terminal tok L"

definition release_to_eligible_owned ::
    "Env \<Rightarrow> string \<Rightarrow> string \<Rightarrow> PermitLedger \<Rightarrow> bool outcome" where
  "release_to_eligible_owned env holder tok L = release_with_demand_state env holder Eligible tok L"

definition release_cancelled_owned ::
    "Env \<Rightarrow> string \<Rightarrow> string \<Rightarrow> PermitLedger \<Rightarrow> bool outcome" where
  "release_cancelled_owned env holder tok L = release_with_demand_state env holder Cancelled tok L"

definition release_scaleset_staged_owned ::
    "Env \<Rightarrow> string \<Rightarrow> string \<Rightarrow> DemandState \<Rightarrow> PermitLedger \<Rightarrow> OwnedReleaseOutcome outcome" where
  "release_scaleset_staged_owned env holder tok next L =
     (if tok = [] \<or> next \<notin> {Eligible, Cancelled, Terminal}
      then (Inr OwnedReleaseOutcome.StaleAttempt, L)
      else run_tx
        (let now = i64_try_from_u64 (unix_now env) in
         case map_of (permits L) holder of
           None \<Rightarrow>
             try_tx (read_demand L holder) (\<lambda>dm.
               case dm of
                 None \<Rightarrow> Commit OwnedReleaseOutcome.StaleAttempt L
               | Some dm \<Rightarrow>
                   try_tx (check_demand_lane holder dm ScaleSet) (\<lambda>_.
                     if d_state dm = next then Commit AlreadyAbsent L
                     else Commit OwnedReleaseOutcome.StaleAttempt L))
         | Some r \<Rightarrow>
             if p_lane r \<noteq> PermitLane_as_str ScaleSet
             then Abort (DemandLaneMismatch holder ScaleSet (p_lane r))
             else if p_attempt_token r \<noteq> tok then Commit OwnedReleaseOutcome.StaleAttempt L
             else
               try_tx (read_demand L holder) (\<lambda>dm.
                 case dm of
                   None \<Rightarrow> Abort (UnknownHolder holder)
                 | Some dm \<Rightarrow>
                     try_tx (check_demand_lane holder dm ScaleSet) (\<lambda>_.
                       if next = Eligible \<and> d_state dm \<notin> {Eligible, Granted}
                       then Commit OwnedReleaseOutcome.StaleAttempt L
                       else if next \<in> {Terminal, Cancelled, Eligible}
                       then Commit Released
                              (put_demand_state holder next now (\<lambda>_. True)
                                 (delete_permit holder tok L))
                       else Rollback OwnedReleaseOutcome.StaleAttempt))) L)"

text \<open>A native release whose permit row is already gone.\<close>

definition native_absent_tx ::
    "string \<Rightarrow> string \<Rightarrow> DemandState \<Rightarrow> PermitLedger
      \<Rightarrow> (LedgerError, PermitLedger, OwnedReleaseOutcome) tx" where
  "native_absent_tx holder tok next L =
     try_tx (read_demand L holder) (\<lambda>dm.
       case dm of
         None \<Rightarrow> Commit OwnedReleaseOutcome.StaleAttempt (delete_cleanup_release holder tok L)
       | Some dm \<Rightarrow>
           try_tx (check_demand_lane holder dm Native) (\<lambda>_.
             let recorded_cancelled_cleanup = (next = Terminal \<and> d_state dm = Cancelled
                   \<and> (holder, tok) \<in> set (cleanup_releases L))
             in Commit (if d_state dm = next \<or> recorded_cancelled_cleanup
                        then AlreadyAbsent else OwnedReleaseOutcome.StaleAttempt)
                  (delete_cleanup_release holder tok L)))"

definition release_native_owned_with_terminal_demand ::
    "Env \<Rightarrow> string \<Rightarrow> string \<Rightarrow> DemandState \<Rightarrow> PermitLedger \<Rightarrow> OwnedReleaseOutcome outcome" where
  "release_native_owned_with_terminal_demand env holder tok next L = run_tx
     (case map_of (permits L) holder of
        None \<Rightarrow> native_absent_tx holder tok next L
      | Some r \<Rightarrow>
          if p_lane r \<noteq> PermitLane_as_str Native
          then Abort (DemandLaneMismatch holder Native (p_lane r))
          else if p_attempt_token r \<noteq> tok
          then Commit OwnedReleaseOutcome.StaleAttempt (delete_cleanup_release holder tok L)
          else
            let now = unix_now env in
            try_tx (ensure_demand_tx holder Native [] now now next L) (\<lambda>(_, L1).
              Commit Released
                (delete_cleanup_release holder tok
                  (put_demand_state holder next (i64_try_from_u64 now) (\<lambda>_. True)
                    (delete_permit holder tok L1))))) L"

definition release_native_terminal_owned ::
    "Env \<Rightarrow> string \<Rightarrow> string \<Rightarrow> PermitLedger \<Rightarrow> OwnedReleaseOutcome outcome" where
  "release_native_terminal_owned env holder tok L =
     release_native_owned_with_terminal_demand env holder tok Terminal L"

definition release_native_cancelled_owned ::
    "Env \<Rightarrow> string \<Rightarrow> string \<Rightarrow> PermitLedger \<Rightarrow> OwnedReleaseOutcome outcome" where
  "release_native_cancelled_owned env holder tok L =
     release_native_owned_with_terminal_demand env holder tok Cancelled L"

section \<open>Retained uncertain permits\<close>

definition retain_uncertain_for_attempt ::
    "Env \<Rightarrow> string \<Rightarrow> u64 \<Rightarrow> string \<Rightarrow> PermitLedger \<Rightarrow> unit outcome" where
  "retain_uncertain_for_attempt env holder gen tok L = run_tx
     (if generation L \<noteq> gen then Abort (LedgerError.StaleGeneration (generation L) gen)
      else try_tx (read_owned_attempt_state L holder tok) (\<lambda>current_state.
        if current_state = PermitState_as_str Cleaning then Commit () L
        else
          let now = i64_try_from_u64 (unix_now env) in
          Commit ()
            (put_demand_state holder Terminal now (demand_in {Eligible, Granted})
              (L\<lparr>permits := tbl_update holder
                   (\<lambda>r. p_attempt_token r = tok \<and> p_state r \<noteq> PermitState_as_str Cleaning)
                   (\<lambda>r. r\<lparr>p_state := PermitState_as_str Uncertain, p_updated_unix := now,
                          p_generation := i64_try_from_u64 gen\<rparr>) (permits L)\<rparr>)))) L"

definition retain_uncertain_owned ::
    "Env \<Rightarrow> string \<Rightarrow> u64 \<Rightarrow> string \<Rightarrow> PermitLedger \<Rightarrow> unit outcome" where
  "retain_uncertain_owned env holder gen tok L = retain_uncertain_for_attempt env holder gen tok L"

definition retain_uncertain_after_cleanup_owned ::
    "Env \<Rightarrow> string \<Rightarrow> string \<Rightarrow> PermitLedger \<Rightarrow> unit outcome" where
  "retain_uncertain_after_cleanup_owned env holder tok L =
     (if tok = [] then (Inl (LedgerError.StaleAttempt holder), L)
      else run_tx
        (case map_of (permits L) holder of
           None \<Rightarrow> Abort (LedgerError.StaleAttempt holder)
         | Some r \<Rightarrow>
             if p_lane r \<noteq> PermitLane_as_str Native
             then Abort (DemandLaneMismatch holder Native (p_lane r))
             else if p_attempt_token r \<noteq> tok then Abort (LedgerError.StaleAttempt holder)
             else
               let now = unix_now env in
               try_tx (ensure_demand_tx holder Native [] now now Granted
                   (L\<lparr>permits := tbl_update holder (\<lambda>r. p_attempt_token r = tok)
                        (\<lambda>r. r\<lparr>p_state := PermitState_as_str Uncertain,
                               p_updated_unix := i64_try_from_u64 now,
                               p_generation := meta_generation L,
                               p_pid := Some (uint (process_id env))\<rparr>) (permits L)\<rparr>))
                 (\<lambda>(_, L1). Commit ()
                    (put_demand_state holder Terminal (i64_try_from_u64 now)
                      (\<lambda>d. q_state d \<noteq> DemandState_as_str Cancelled) L1))) L)"

definition retain_recorded_failure_uncertain_owned ::
    "Env \<Rightarrow> string \<Rightarrow> u64 \<Rightarrow> string \<Rightarrow> PermitLedger \<Rightarrow> unit outcome" where
  "retain_recorded_failure_uncertain_owned env holder gen tok L = run_tx
     (if generation L \<noteq> gen then Abort (LedgerError.StaleGeneration (generation L) gen)
      else try_tx (read_owned_attempt_state L holder tok) (\<lambda>_.
        let now = i64_try_from_u64 (unix_now env) in
        Commit ()
          (put_demand_state holder Terminal now (demand_in {Eligible, Granted})
            (L\<lparr>permits := tbl_update holder (\<lambda>r. p_attempt_token r = tok)
                 (\<lambda>r. r\<lparr>p_state := PermitState_as_str Uncertain, p_updated_unix := now,
                        p_generation := i64_try_from_u64 gen\<rparr>) (permits L)\<rparr>)))) L"

section \<open>Reconciliation\<close>

text \<open>The working state of one reconciliation: the holders seen so far, the holders confirmed,
  and the ledger inside the transaction.\<close>

type_synonym recon = "string list \<times> string list \<times> PermitLedger"

fun reconcile_alive ::
    "int \<Rightarrow> (string \<times> PermitLane \<times> string) list \<Rightarrow> recon \<Rightarrow> LedgerError + recon" where
  "reconcile_alive now [] st = Inr st"
| "reconcile_alive now ((holder, lane, tok) # rest) (observed, conf, L) =
     (if tok = [] \<or> holder \<in> set observed then Inl (LedgerError.StaleAttempt holder)
      else case map_of (permits L) holder of
        None \<Rightarrow> Inl (LedgerError.StaleAttempt holder)
      | Some r \<Rightarrow>
          if p_lane r \<noteq> PermitLane_as_str lane
          then Inl (DemandLaneMismatch holder lane (p_lane r))
          else if p_attempt_token r \<noteq> tok then Inl (LedgerError.StaleAttempt holder)
          else try_sum (grant_demand_tx holder lane (u64_max0 now) now L) (\<lambda>L1.
                 reconcile_alive now rest (holder # observed, conf @ [holder], L1)))"

text \<open>Whether the row proves the staged rotation: it still has the exact previous token (or the
  token recorded by the migration), or it has the target with the claim, previous pid and
  previous token of the committed rotation.\<close>

definition completed_rotation_matches :: "string option \<Rightarrow> PermitRow \<Rightarrow> bool" where
  "completed_rotation_matches prev_tok r \<longleftrightarrow>
     (case p_recovery_claim_token r of Some t \<Rightarrow> t \<noteq> [] | None \<Rightarrow> False)
     \<and> (case p_recovery_previous_pid r of Some pid \<Rightarrow> 0 < pid | None \<Rightarrow> False)
     \<and> (case prev_tok of
          Some previous \<Rightarrow> p_recovery_previous_token r = Some previous
        | None \<Rightarrow> p_recovery_previous_token r = None)"

definition previous_matches ::
    "string \<Rightarrow> string option \<Rightarrow> string \<Rightarrow> PermitRow \<Rightarrow> PermitLedger \<Rightarrow> bool" where
  "previous_matches holder prev_tok target r L =
     (if prev_tok = Some (p_attempt_token r) then True
      else if p_attempt_token r = target then completed_rotation_matches prev_tok r
      else (case prev_tok of
              None \<Rightarrow> migrated_token holder (p_attempt_token r) L
            | Some _ \<Rightarrow> False))"

fun reconcile_rotations ::
    "int \<Rightarrow> (string \<times> PermitLane \<times> string option \<times> string) list \<Rightarrow> recon
      \<Rightarrow> LedgerError + recon" where
  "reconcile_rotations now [] st = Inr st"
| "reconcile_rotations now ((holder, lane, prev_tok, target) # rest) (observed, conf, L) =
     (if lane \<noteq> ScaleSet \<or> target = [] \<or> prev_tok = Some [] \<or> prev_tok = Some target
         \<or> holder \<in> set observed
      then Inl (LedgerError.StaleAttempt holder)
      else case map_of (permits L) holder of
        None \<Rightarrow> Inl (LedgerError.StaleAttempt holder)
      | Some r \<Rightarrow>
          if p_lane r \<noteq> PermitLane_as_str ScaleSet
          then Inl (DemandLaneMismatch holder ScaleSet (p_lane r))
          else if p_attempt_token r = [] \<or> \<not> previous_matches holder prev_tok target r L
          then Inl (LedgerError.StaleAttempt holder)
          else try_sum (grant_demand_tx holder ScaleSet (u64_max0 now) now L) (\<lambda>L1.
                 reconcile_rotations now rest (holder # observed, conf @ [holder], L1)))"

fun reconcile_releases ::
    "(string \<times> PermitLane \<times> string \<times> DemandState) list \<Rightarrow> recon \<Rightarrow> LedgerError + recon" where
  "reconcile_releases [] st = Inr st"
| "reconcile_releases ((holder, lane, tok, target) # rest) (observed, conf, L) =
     (if lane \<noteq> ScaleSet then Inl (DemandLaneMismatch holder ScaleSet (PermitLane_as_str lane))
      else if target \<notin> {Eligible, Cancelled, Terminal} \<or> tok = [] \<or> holder \<in> set observed
      then Inl (LedgerError.StaleAttempt holder)
      else case map_of (permits L) holder of
        None \<Rightarrow>
          (case map_of (permit_demands L) holder of
             None \<Rightarrow> Inl (LedgerError.StaleAttempt holder)
           | Some d \<Rightarrow>
               if q_lane d \<noteq> PermitLane_as_str lane
               then Inl (DemandLaneMismatch holder lane (q_lane d))
               else if DemandState_parse (q_state d) \<noteq> Some target
               then Inl (LedgerError.StaleAttempt holder)
               else reconcile_releases rest (holder # observed, conf, L))
      | Some r \<Rightarrow>
          if p_lane r \<noteq> PermitLane_as_str lane
          then Inl (DemandLaneMismatch holder ScaleSet (p_lane r))
          else if p_attempt_token r \<noteq> tok then Inl (LedgerError.StaleAttempt holder)
          else reconcile_releases rest (holder # observed, conf @ [holder], L))"

fun reconcile_acquisitions ::
    "(string \<times> PermitLane \<times> string) list \<Rightarrow> recon \<Rightarrow> LedgerError + recon" where
  "reconcile_acquisitions [] st = Inr st"
| "reconcile_acquisitions ((holder, lane, tok) # rest) (observed, conf, L) =
     (if lane \<noteq> ScaleSet \<or> tok = [] \<or> holder \<in> set observed
      then Inl (LedgerError.StaleAttempt holder)
      else case map_of (permits L) holder of
        None \<Rightarrow> reconcile_acquisitions rest (holder # observed, conf, L)
      | Some r \<Rightarrow>
          if p_lane r \<noteq> PermitLane_as_str lane
          then Inl (DemandLaneMismatch holder lane (p_lane r))
          else if p_attempt_token r \<noteq> tok then Inl (LedgerError.StaleAttempt holder)
          else reconcile_acquisitions rest (holder # observed, conf @ [holder], L))"

text \<open>The loop over the recorded rows: a holder nobody observed becomes uncertain, unless a
  cleanup worker has claimed it.\<close>

definition not_cleaning :: "PermitRow \<Rightarrow> bool" where
  "not_cleaning r \<longleftrightarrow> p_state r \<noteq> PermitState_as_str Cleaning"

definition mark_uncertain :: "string \<Rightarrow> int \<Rightarrow> PermitLedger \<Rightarrow> PermitLedger" where
  "mark_uncertain holder now L =
     L\<lparr>permits := tbl_update holder not_cleaning
          (\<lambda>r. r\<lparr>p_state := PermitState_as_str Uncertain, p_updated_unix := now,
                 p_generation := meta_generation L\<rparr>) (permits L)\<rparr>"

fun reconcile_unobserved ::
    "int \<Rightarrow> string list \<Rightarrow> (string \<times> string) list \<Rightarrow> string list \<Rightarrow> PermitLedger
      \<Rightarrow> LedgerError + string list \<times> PermitLedger" where
  "reconcile_unobserved now observed [] marked L = Inr (marked, L)"
| "reconcile_unobserved now observed ((holder, raw_lane) # rest) marked L =
     (if holder \<in> set observed then reconcile_unobserved now observed rest marked L
      else case PermitLane_parse raw_lane of
        None \<Rightarrow> Inl (UnknownLane raw_lane)
      | Some lane \<Rightarrow>
          if tbl_matches holder not_cleaning (permits L) = 0
          then reconcile_unobserved now observed rest marked L
          else try_sum (grant_demand_tx holder lane (u64_max0 now) now
                          (mark_uncertain holder now L)) (\<lambda>L1.
                 reconcile_unobserved now observed rest (marked @ [holder]) L1))"

definition reconcile_attempts_with_staged_acquisitions ::
    "Env \<Rightarrow> (string \<times> PermitLane \<times> string) list
      \<Rightarrow> (string \<times> PermitLane \<times> string option \<times> string) list
      \<Rightarrow> (string \<times> PermitLane \<times> string \<times> DemandState) list
      \<Rightarrow> (string \<times> PermitLane \<times> string) list \<Rightarrow> PermitLedger \<Rightarrow> ReconcileReport outcome" where
  "reconcile_attempts_with_staged_acquisitions env alive rotations releases acquisitions L = run_tx
     (let now = as_i64 (unix_now env) in
      try_tx (reconcile_alive now alive ([], [], L)) (\<lambda>s1.
      try_tx (reconcile_rotations now rotations s1) (\<lambda>s2.
      try_tx (reconcile_releases releases s2) (\<lambda>s3.
      try_tx (reconcile_acquisitions acquisitions s3) (\<lambda>(observed, conf, L4).
      try_tx (reconcile_unobserved now observed (map (\<lambda>(h, r). (h, p_lane r)) (permits L4)) [] L4)
        (\<lambda>(marked, L5).
          Commit \<lparr>marked_uncertain = sort marked, confirmed = sort conf\<rparr>
            (L5\<lparr>meta_reconciled_generation := meta_generation L5\<rparr>))))))) L"

definition reconcile_attempts_with_staged_releases ::
    "Env \<Rightarrow> (string \<times> PermitLane \<times> string) list
      \<Rightarrow> (string \<times> PermitLane \<times> string option \<times> string) list
      \<Rightarrow> (string \<times> PermitLane \<times> string \<times> DemandState) list
      \<Rightarrow> PermitLedger \<Rightarrow> ReconcileReport outcome" where
  "reconcile_attempts_with_staged_releases env alive rotations releases L =
     reconcile_attempts_with_staged_acquisitions env alive rotations releases [] L"

definition reconcile_attempts_with_staged ::
    "Env \<Rightarrow> (string \<times> PermitLane \<times> string) list
      \<Rightarrow> (string \<times> PermitLane \<times> string option \<times> string) list
      \<Rightarrow> PermitLedger \<Rightarrow> ReconcileReport outcome" where
  "reconcile_attempts_with_staged env alive rotations L =
     reconcile_attempts_with_staged_releases env alive rotations [] L"

definition reconcile_attempts ::
    "Env \<Rightarrow> (string \<times> PermitLane \<times> string) list \<Rightarrow> PermitLedger \<Rightarrow> ReconcileReport outcome" where
  "reconcile_attempts env alive L = reconcile_attempts_with_staged env alive [] L"

end
