(* ===== verification/Ledger_Invariants.thy ===== *)
theory Ledger_Invariants
  imports Permit_Ledger
begin

text \<open>
  The invariants of the permit ledger and their preservation.

  \<^item> \<open>ledger_wf\<close> is what the SQL schema and the text columns promise: one row per holder, one
    ticket number per demand, one owner token per permit, no empty owner token, and columns that
    parse back.
  \<^item> \<open>coherent\<close> ties the two tables: a permit row has a demand of its own lane that is granted or
    terminal, and a granted demand has a permit row.
  \<^item> The row statements keep both.  This theory shows that every operation keeps \<open>ledger_wf\<close>;
    theory \<open>Ledger_Coherence\<close> does so for \<open>coherent\<close>.  The case rules for the results of the
    operations are shared by the later theories.
\<close>

named_theorems wf_intros \<open>row statements keep ledger_wf\<close>

section \<open>Text columns\<close>

lemma PermitLane_parse_iff [simp]: "PermitLane_parse v = Some l \<longleftrightarrow> v = PermitLane_as_str l"
  by (cases l) (auto simp: PermitLane_parse_def PermitLane_as_str_def)

lemma DemandState_parse_iff [simp]: "DemandState_parse v = Some s \<longleftrightarrow> v = DemandState_as_str s"
  by (cases s) (auto simp: DemandState_parse_def DemandState_as_str_def)

lemma PermitState_parse_iff [simp]: "PermitState_parse v = Some s \<longleftrightarrow> v = PermitState_as_str s"
  by (cases s) (auto simp: PermitState_parse_def PermitState_as_str_def)

lemma PermitLane_as_str_inj [simp]: "PermitLane_as_str a = PermitLane_as_str b \<longleftrightarrow> a = b"
  by (metis PermitLane_parse_iff option.inject)

lemma DemandState_as_str_inj [simp]: "DemandState_as_str a = DemandState_as_str b \<longleftrightarrow> a = b"
  by (metis DemandState_parse_iff option.inject)

lemma PermitState_as_str_inj [simp]: "PermitState_as_str a = PermitState_as_str b \<longleftrightarrow> a = b"
  by (metis PermitState_parse_iff option.inject)

lemma PermitLane_parse_as_str [simp]: "PermitLane_parse (PermitLane_as_str l) = Some l"
  by simp

lemma DemandState_parse_as_str [simp]: "DemandState_parse (DemandState_as_str s) = Some s"
  by simp

lemma PermitState_parse_as_str [simp]: "PermitState_parse (PermitState_as_str s) = Some s"
  by simp

lemma demand_in_as_str [simp]:
  "q_state d = DemandState_as_str st \<Longrightarrow> demand_in S d \<longleftrightarrow> st \<in> S"
  by (auto simp: demand_in_def)

section \<open>Invariants\<close>

definition permit_ok :: "PermitRow \<Rightarrow> bool" where
  "permit_ok r \<longleftrightarrow> PermitLane_parse (p_lane r) \<noteq> None \<and> PermitState_parse (p_state r) \<noteq> None
     \<and> p_attempt_token r \<noteq> []"

definition demand_ok :: "DemandRow \<Rightarrow> bool" where
  "demand_ok d \<longleftrightarrow> PermitLane_parse (q_lane d) \<noteq> None \<and> DemandState_parse (q_state d) \<noteq> None"

definition ledger_wf :: "PermitLedger \<Rightarrow> bool" where
  "ledger_wf L \<longleftrightarrow>
     distinct (map fst (permits L)) \<and> distinct (map fst (permit_demands L))
     \<and> distinct (map (\<lambda>x. p_attempt_token (snd x)) (permits L))
     \<and> distinct (map (\<lambda>x. q_sequence (snd x)) (permit_demands L))
     \<and> (\<forall>r \<in> snd ` set (permits L). permit_ok r)
     \<and> (\<forall>d \<in> snd ` set (permit_demands L). demand_ok d)"

fun coherent_rows :: "PermitRow option \<Rightarrow> DemandRow option \<Rightarrow> bool" where
  "coherent_rows (Some r) (Some d) \<longleftrightarrow> q_lane d = p_lane r \<and> demand_in {Granted, Terminal} d"
| "coherent_rows (Some r) None \<longleftrightarrow> False"
| "coherent_rows None (Some d) \<longleftrightarrow> \<not> demand_in {Granted} d"
| "coherent_rows None None \<longleftrightarrow> True"

definition coherent_at :: "string \<Rightarrow> PermitLedger \<Rightarrow> bool" where
  "coherent_at h L \<longleftrightarrow> coherent_rows (map_of (permits L) h) (map_of (permit_demands L) h)"

definition coherent :: "PermitLedger \<Rightarrow> bool" where
  "coherent L \<longleftrightarrow> (\<forall>h. coherent_at h L)"

text \<open>Two ledgers agree on the rows of every holder but one.\<close>

definition same_but :: "string \<Rightarrow> PermitLedger \<Rightarrow> PermitLedger \<Rightarrow> bool" where
  "same_but h L L' \<longleftrightarrow>
     (\<forall>h'. h' \<noteq> h \<longrightarrow> map_of (permits L') h' = map_of (permits L) h'
                  \<and> map_of (permit_demands L') h' = map_of (permit_demands L) h')"

lemma same_but_refl [simp, intro]: "same_but h L L"
  by (simp add: same_but_def)

lemma same_but_trans: "same_but h L L1 \<Longrightarrow> same_but h L1 L2 \<Longrightarrow> same_but h L L2"
  by (simp add: same_but_def)

lemma coherent_same_but:
  assumes "coherent L" "same_but h L L'" "coherent_at h L'"
  shows "coherent L'"
  unfolding coherent_def
proof
  fix h'
  show "coherent_at h' L'"
    using assms by (cases "h' = h") (auto simp: coherent_def coherent_at_def same_but_def)
qed

lemma ledger_wf_distinct:
  assumes "ledger_wf L"
  shows "distinct (map fst (permits L))" "distinct (map fst (permit_demands L))"
  using assms by (auto simp: ledger_wf_def)

lemma ledger_wf_permit:
  "ledger_wf L \<Longrightarrow> map_of (permits L) h = Some r \<Longrightarrow> permit_ok r"
  unfolding ledger_wf_def using map_of_in_set by fastforce

lemma ledger_wf_demand:
  "ledger_wf L \<Longrightarrow> map_of (permit_demands L) h = Some d \<Longrightarrow> demand_ok d"
  unfolding ledger_wf_def using map_of_in_set by fastforce

lemma demand_okE:
  assumes "demand_ok d"
  obtains l st where "q_lane d = PermitLane_as_str l" "q_state d = DemandState_as_str st"
  using assms by (auto simp: demand_ok_def)

lemma permit_okE:
  assumes "permit_ok r"
  obtains l st where "p_lane r = PermitLane_as_str l" "p_state r = PermitState_as_str st"
    "p_attempt_token r \<noteq> []"
  using assms by (auto simp: permit_ok_def)

section \<open>Row statements\<close>

lemma put_demand_state_sel [simp]:
  "permits (put_demand_state h st now c L) = permits L"
  "meta_max_jobs (put_demand_state h st now c L) = meta_max_jobs L"
  "meta_generation (put_demand_state h st now c L) = meta_generation L"
  "meta_reconciled_generation (put_demand_state h st now c L) = meta_reconciled_generation L"
  "recovery_claims (put_demand_state h st now c L) = recovery_claims L"
  "cleanup_releases (put_demand_state h st now c L) = cleanup_releases L"
  "token_migrations (put_demand_state h st now c L) = token_migrations L"
  by (simp_all add: put_demand_state_def)

lemma touch_demand_sel [simp]:
  "permits (touch_demand h now L) = permits L"
  "meta_max_jobs (touch_demand h now L) = meta_max_jobs L"
  "meta_generation (touch_demand h now L) = meta_generation L"
  "meta_reconciled_generation (touch_demand h now L) = meta_reconciled_generation L"
  "recovery_claims (touch_demand h now L) = recovery_claims L"
  "cleanup_releases (touch_demand h now L) = cleanup_releases L"
  "token_migrations (touch_demand h now L) = token_migrations L"
  by (simp_all add: touch_demand_def)

lemma delete_permit_sel [simp]:
  "permit_demands (delete_permit h tok L) = permit_demands L"
  "meta_max_jobs (delete_permit h tok L) = meta_max_jobs L"
  "meta_generation (delete_permit h tok L) = meta_generation L"
  "meta_reconciled_generation (delete_permit h tok L) = meta_reconciled_generation L"
  "recovery_claims (delete_permit h tok L) = recovery_claims L"
  "cleanup_releases (delete_permit h tok L) = cleanup_releases L"
  "token_migrations (delete_permit h tok L) = token_migrations L"
  by (simp_all add: delete_permit_def)

lemma delete_cleanup_release_sel [simp]:
  "permits (delete_cleanup_release h tok L) = permits L"
  "permit_demands (delete_cleanup_release h tok L) = permit_demands L"
  "meta_max_jobs (delete_cleanup_release h tok L) = meta_max_jobs L"
  "meta_generation (delete_cleanup_release h tok L) = meta_generation L"
  "meta_reconciled_generation (delete_cleanup_release h tok L) = meta_reconciled_generation L"
  "recovery_claims (delete_cleanup_release h tok L) = recovery_claims L"
  "token_migrations (delete_cleanup_release h tok L) = token_migrations L"
  by (simp_all add: delete_cleanup_release_def)

lemma map_of_put_demand_state [simp]:
  "map_of (permit_demands (put_demand_state h st now c L)) h' =
     (if h' = h then map_option (\<lambda>d. if c d
          then d\<lparr>q_state := DemandState_as_str st, q_updated_unix := now\<rparr> else d)
        (map_of (permit_demands L) h)
      else map_of (permit_demands L) h')"
  by (simp add: put_demand_state_def)

lemma map_of_touch_demand [simp]:
  "map_of (permit_demands (touch_demand h now L)) h' =
     (if h' = h then map_option (\<lambda>d. d\<lparr>q_updated_unix := now\<rparr>) (map_of (permit_demands L) h)
      else map_of (permit_demands L) h')"
  by (simp add: touch_demand_def)

lemma map_snd_tbl_update:
  "(\<And>r. g (f r) = g r) \<Longrightarrow> map (\<lambda>x. g (snd x)) (tbl_update k p f t) = map (\<lambda>x. g (snd x)) t"
  by (induction t) (auto simp: tbl_update_def)

lemma ball_tbl_update:
  "\<forall>r \<in> snd ` set t. P r \<Longrightarrow> (\<And>r. P r \<Longrightarrow> P (f r)) \<Longrightarrow> \<forall>r \<in> snd ` set (tbl_update k p f t). P r"
  by (auto simp: tbl_update_def split: if_splits)

lemma distinct_tbl_update_fresh:
  assumes keys: "distinct (map fst t)" and vals: "distinct (map (\<lambda>x. g (snd x)) t)"
    and free: "\<forall>(k', r) \<in> set t. k' \<noteq> k \<longrightarrow> g r \<noteq> v" and new: "\<And>r. g (f r) = v"
  shows "distinct (map (\<lambda>x. g (snd x)) (tbl_update k p f t))"
proof -
  let ?u = "\<lambda>(k', r). if k' = k \<and> p r then (k', f r) else (k', r)"
  have inj: "inj_on (\<lambda>x. g (snd x)) (set t)" using vals by (simp add: distinct_map)
  have t: "distinct t" using keys by (simp add: distinct_map)
  have key: "r = r'" if "(a, r) \<in> set t" "(a, r') \<in> set t" for a r r'
    using keys that by (rule eq_key_imp_eq_value)
  have "inj_on (\<lambda>x. g (snd (?u x))) (set t)"
  proof (rule inj_onI)
    fix x y assume xy: "x \<in> set t" "y \<in> set t" and e: "g (snd (?u x)) = g (snd (?u y))"
    obtain a r b r' where x: "x = (a, r)" and y: "y = (b, r')" by (cases x, cases y)
    show "x = y"
    proof (cases "a = b")
      case True
      then show ?thesis using key [of a r r'] xy x y by simp
    next
      case False
      have fr: "a \<noteq> k \<Longrightarrow> g r \<noteq> v" "b \<noteq> k \<Longrightarrow> g r' \<noteq> v" using free xy x y by auto
      have "g r = g r'" using e False fr by (simp add: x y new split: if_splits)
      then show ?thesis using inj_onD [OF inj _ xy] x y by simp
    qed
  qed
  then have "distinct (map (\<lambda>x. g (snd (?u x))) t)" using t by (simp add: distinct_map)
  then show ?thesis unfolding tbl_update_def map_map comp_def .
qed

lemma wf_put_demand_state [wf_intros]:
  assumes "ledger_wf L" shows "ledger_wf (put_demand_state h st now c L)"
proof -
  let ?f = "\<lambda>d. d\<lparr>q_state := DemandState_as_str st, q_updated_unix := now\<rparr>"
  have "\<forall>d \<in> snd ` set (tbl_update h c ?f (permit_demands L)). demand_ok d"
    using assms by (intro ball_tbl_update) (auto simp: ledger_wf_def demand_ok_def)
  then show ?thesis
    using assms by (simp add: ledger_wf_def put_demand_state_def map_snd_tbl_update)
qed

lemma wf_touch_demand [wf_intros]:
  assumes "ledger_wf L" shows "ledger_wf (touch_demand h now L)"
proof -
  have "\<forall>d \<in> snd ` set (tbl_update h (\<lambda>_. True) (\<lambda>d. d\<lparr>q_updated_unix := now\<rparr>) (permit_demands L)).
      demand_ok d"
    using assms by (intro ball_tbl_update) (auto simp: ledger_wf_def demand_ok_def)
  then show ?thesis
    using assms by (simp add: ledger_wf_def touch_demand_def map_snd_tbl_update)
qed

lemma wf_delete_permit [wf_intros]:
  assumes "ledger_wf L" shows "ledger_wf (delete_permit h tok L)"
  using assms by (auto simp: ledger_wf_def delete_permit_def tbl_delete_def distinct_map_filter)

lemma wf_delete_cleanup_release [wf_intros]:
  "ledger_wf L \<Longrightarrow> ledger_wf (delete_cleanup_release h tok L)"
  by (simp add: ledger_wf_def)

lemma wf_permits_update:
  assumes "ledger_wf L" and "\<And>r. p_attempt_token (f r) = p_attempt_token r"
    and "\<And>r. permit_ok r \<Longrightarrow> permit_ok (f r)"
  shows "ledger_wf (L\<lparr>permits := tbl_update h c f (permits L)\<rparr>)"
proof -
  have "\<forall>r \<in> snd ` set (tbl_update h c f (permits L)). permit_ok r"
    using assms(1,3) by (intro ball_tbl_update) (auto simp: ledger_wf_def)
  then show ?thesis
    using assms(1,2) by (simp add: ledger_wf_def map_snd_tbl_update)
qed

lemma wf_permits_retoken:
  assumes "ledger_wf L" and "\<not> token_taken h tok L" and "\<And>r. p_attempt_token (f r) = tok"
    and "\<And>r. permit_ok r \<Longrightarrow> permit_ok (f r)"
  shows "ledger_wf (L\<lparr>permits := tbl_update h c f (permits L)\<rparr>)"
proof -
  have "\<forall>r \<in> snd ` set (tbl_update h c f (permits L)). permit_ok r"
    using assms(1,4) by (intro ball_tbl_update) (auto simp: ledger_wf_def)
  moreover have "distinct (map (\<lambda>x. p_attempt_token (snd x)) (tbl_update h c f (permits L)))"
    using assms(1-3) by (intro distinct_tbl_update_fresh) (auto simp: ledger_wf_def token_taken_def)
  ultimately show ?thesis
    using assms(1) by (simp add: ledger_wf_def)
qed

section \<open>Reading and creating demands\<close>

lemma read_demand_None:
  "read_demand L h = Inr None \<longleftrightarrow> map_of (permit_demands L) h = None"
  by (auto simp: read_demand_def split: option.splits)

lemma read_demand_SomeD:
  assumes "read_demand L h = Inr (Some dm)"
  shows "\<exists>d. map_of (permit_demands L) h = Some d \<and> q_lane d = PermitLane_as_str (d_lane dm)
    \<and> q_state d = DemandState_as_str (d_state dm) \<and> q_sequence d = d_sequence dm"
  using assms by (auto simp: read_demand_def split: option.splits)

lemma read_demand_wf:
  assumes "ledger_wf L" "map_of (permit_demands L) h = Some d"
  shows "\<exists>dm. read_demand L h = Inr (Some dm)"
  using ledger_wf_demand [OF assms] assms(2)
  by (auto simp: read_demand_def demand_ok_def split: option.splits)

lemma check_demand_lane_Inr [simp]:
  "check_demand_lane h dm lane = Inr u \<longleftrightarrow> d_lane dm = lane"
  by (simp add: check_demand_lane_def)

definition new_demand_row ::
    "PermitLane \<Rightarrow> string \<Rightarrow> u64 \<Rightarrow> u64 \<Rightarrow> DemandState \<Rightarrow> int \<Rightarrow> DemandRow" where
  "new_demand_row lane scope first_seen updated st sq =
     \<lparr>q_lane = PermitLane_as_str lane, q_scope = scope,
      q_first_seen_unix = i64_try_from_u64 first_seen, q_sequence = sq,
      q_state = DemandState_as_str st, q_updated_unix = i64_try_from_u64 updated\<rparr>"

lemma new_demand_row_sel [simp]:
  "q_lane (new_demand_row lane sc fs up st sq) = PermitLane_as_str lane"
  "q_state (new_demand_row lane sc fs up st sq) = DemandState_as_str st"
  "q_sequence (new_demand_row lane sc fs up st sq) = sq"
  "q_first_seen_unix (new_demand_row lane sc fs up st sq) = i64_try_from_u64 fs"
  "q_updated_unix (new_demand_row lane sc fs up st sq) = i64_try_from_u64 up"
  by (simp_all add: new_demand_row_def)

lemma ensure_demand_txE:
  assumes "ensure_demand_tx h lane sc fs up st L = Inr (dm, L')"
  obtains (old) d where "L' = L" "map_of (permit_demands L) h = Some d"
      "q_lane d = PermitLane_as_str lane" "q_state d = DemandState_as_str (d_state dm)"
      "q_sequence d = d_sequence dm"
    | (new) sq where "map_of (permit_demands L) h = None" "next_sequence L = Inr sq"
      "d_state dm = st" "d_sequence dm = sq"
      "L' = L\<lparr>permit_demands := tbl_insert h (new_demand_row lane sc fs up st sq) (permit_demands L)\<rparr>"
proof -
  obtain ex where ex: "read_demand L h = Inr ex"
    using assms by (auto simp: ensure_demand_tx_def try_sum_Inr)
  show thesis
  proof (cases ex)
    case None
    then have "map_of (permit_demands L) h = None" using ex by (simp add: read_demand_None)
    then show thesis
      using assms ex new None by (auto simp: ensure_demand_tx_def try_sum_Inr new_demand_row_def)
  next
    case (Some dm')
    then have "dm' = dm" "L' = L" "d_lane dm = lane"
      using assms ex by (auto simp: ensure_demand_tx_def try_sum_Inr)
    then show thesis
      using old read_demand_SomeD [of L h dm] ex Some by auto
  qed
qed

lemma next_sequence_fresh:
  "next_sequence L = Inr sq \<Longrightarrow> \<forall>x \<in> set (permit_demands L). q_sequence (snd x) < sq"
  using coalesce0_upper [of _ "map (\<lambda>x. q_sequence (snd x)) (permit_demands L)"]
  by (fastforce simp: next_sequence_def Let_def split: if_splits)

lemma wf_new_demand:
  assumes "ledger_wf L" "map_of (permit_demands L) h = None" "next_sequence L = Inr sq"
  shows "ledger_wf (L\<lparr>permit_demands :=
           tbl_insert h (new_demand_row lane sc fs up st sq) (permit_demands L)\<rparr>)"
proof -
  have "sq \<notin> (\<lambda>x. q_sequence (snd x)) ` set (permit_demands L)"
    using next_sequence_fresh [OF assms(3)] by force
  then show ?thesis
    using assms(1,2) by (auto simp: ledger_wf_def tbl_insert_def map_of_eq_None_iff demand_ok_def)
qed

lemma wf_ensure_demand_tx:
  assumes "ensure_demand_tx h lane sc fs up st L = Inr (dm, L')" "ledger_wf L"
  shows "ledger_wf L'"
  using assms(1)
proof (cases rule: ensure_demand_txE)
  case (old d)
  then show ?thesis using assms(2) by simp
next
  case (new sq)
  then show ?thesis using assms(2) wf_new_demand by simp
qed

lemma ensure_demand_tx_sel:
  assumes "ensure_demand_tx h lane sc fs up st L = Inr (dm, L')"
  shows "permits L' = permits L" "meta_max_jobs L' = meta_max_jobs L"
    "meta_generation L' = meta_generation L"
    "meta_reconciled_generation L' = meta_reconciled_generation L"
    "recovery_claims L' = recovery_claims L" "cleanup_releases L' = cleanup_releases L"
    "token_migrations L' = token_migrations L"
  using assms by (auto elim: ensure_demand_txE)

lemma ensure_demand_tx_row:
  assumes "ensure_demand_tx h lane sc fs up st L = Inr (dm, L')"
  obtains d where "map_of (permit_demands L') h = Some d" "q_lane d = PermitLane_as_str lane"
    "q_state d = DemandState_as_str (d_state dm)" "q_sequence d = d_sequence dm"
  using assms by (cases rule: ensure_demand_txE) auto

lemma ensure_demand_tx_other:
  assumes "ensure_demand_tx h lane sc fs up st L = Inr (dm, L')" "h' \<noteq> h"
  shows "map_of (permit_demands L') h' = map_of (permit_demands L) h'"
  using assms(1)
proof (cases rule: ensure_demand_txE)
  case (new sq)
  then show ?thesis using assms(2) by (simp split: option.splits)
qed simp

lemma grant_demand_txE:
  assumes "grant_demand_tx h lane now now_i64 L = Inr L'"
  obtains dm L1 where "ensure_demand_tx h lane [] now now Granted L = Inr (dm, L1)"
    "L' = (if d_state dm = Eligible
           then put_demand_state h Granted now_i64 (\<lambda>_. True) L1 else L1)"
  using assms by (auto simp: grant_demand_tx_def try_sum_Inr)

lemma wf_grant_demand_tx:
  "grant_demand_tx h lane now now_i64 L = Inr L' \<Longrightarrow> ledger_wf L \<Longrightarrow> ledger_wf L'"
  by (erule grant_demand_txE) (simp add: wf_ensure_demand_tx wf_put_demand_state)

lemma grant_demand_tx_sel:
  assumes "grant_demand_tx h lane now now_i64 L = Inr L'"
  shows "permits L' = permits L" "meta_max_jobs L' = meta_max_jobs L"
    "meta_generation L' = meta_generation L"
    "meta_reconciled_generation L' = meta_reconciled_generation L"
    "recovery_claims L' = recovery_claims L" "cleanup_releases L' = cleanup_releases L"
    "token_migrations L' = token_migrations L"
  using assms by (auto elim!: grant_demand_txE dest: ensure_demand_tx_sel)

lemma wf_insert_permit:
  assumes "insert_permit h lane st now gen pid tok L = Inr L'"
    and "ledger_wf L" "map_of (permits L) h = None" "tok \<noteq> []"
  shows "ledger_wf L'"
proof -
  have h: "h \<notin> fst ` set (permits L)" using assms(3) by (simp add: map_of_eq_None_iff)
  have free: "\<not> token_taken h tok L" and L': "L' = L\<lparr>permits := tbl_insert h
      \<lparr>p_lane = PermitLane_as_str lane, p_state = PermitState_as_str st, p_acquired_unix = now,
       p_updated_unix = now, p_generation = i64_try_from_u64 gen, p_pid = map_option uint pid,
       p_attempt_token = tok, p_recovery_claim_token = None, p_recovery_previous_pid = None,
       p_recovery_previous_token = None\<rparr> (permits L)\<rparr>"
    using assms(1) by (simp_all add: insert_permit_def split: if_splits)
  have "p_attempt_token (snd x) \<noteq> tok" if "x \<in> set (permits L)" for x
  proof -
    have "fst x \<noteq> h" using h that by auto
    then show ?thesis using free that by (cases x) (auto simp: token_taken_def)
  qed
  then have "tok \<notin> (\<lambda>x. p_attempt_token (snd x)) ` set (permits L)" by blast
  then show ?thesis
    using assms(2,4) h
    by (simp add: L' ledger_wf_def tbl_insert_def permit_ok_def)
qed

section \<open>Every operation keeps the ledger well formed\<close>

lemma wf_other_fields [wf_intros]:
  "ledger_wf L \<Longrightarrow> ledger_wf (L\<lparr>recovery_claims := c\<rparr>)"
  "ledger_wf L \<Longrightarrow> ledger_wf (L\<lparr>meta_max_jobs := m\<rparr>)"
  "ledger_wf L \<Longrightarrow> ledger_wf (L\<lparr>meta_generation := g\<rparr>)"
  "ledger_wf L \<Longrightarrow> ledger_wf (L\<lparr>meta_reconciled_generation := g\<rparr>)"
  "ledger_wf L \<Longrightarrow> ledger_wf (L\<lparr>cleanup_releases := cr\<rparr>)"
  by (simp_all add: ledger_wf_def)

lemma wf_run_tx:
  "ledger_wf L \<Longrightarrow> (\<And>a L'. t = Commit a L' \<Longrightarrow> ledger_wf L') \<Longrightarrow> ledger_wf (snd (run_tx t L))"
  by (rule run_tx_keeps)

lemma wf_claim_scaleset_recovery:
  "ledger_wf L \<Longrightarrow> ledger_wf (snd (claim_scaleset_recovery env alive L))"
  unfolding claim_scaleset_recovery_def
  by (rule wf_run_tx) (auto intro: wf_intros split: option.splits if_splits)

lemma wf_claim_release: "ledger_wf L \<Longrightarrow> ledger_wf (snd (claim_release c L))"
  unfolding claim_release_def
  by (rule wf_run_tx) (auto intro: wf_intros split: if_splits)

lemma wf_set_max_jobs: "ledger_wf L \<Longrightarrow> ledger_wf (snd (set_max_jobs n L))"
  by (simp add: set_max_jobs_def wf_intros)

lemma wf_set_max_jobs_if_unset: "ledger_wf L \<Longrightarrow> ledger_wf (snd (set_max_jobs_if_unset n L))"
  unfolding set_max_jobs_if_unset_def
  by (rule wf_run_tx) (auto intro: wf_intros split: if_splits)

lemma wf_begin_epoch: "ledger_wf L \<Longrightarrow> ledger_wf (snd (begin_epoch L))"
  by (simp add: begin_epoch_def Let_def wf_intros)

lemma wf_observe_demand:
  "ledger_wf L \<Longrightarrow> ledger_wf (snd (observe_demand h lane sc fs ob L))"
  unfolding observe_demand_def
  by (rule wf_run_tx)
    (auto simp: try_tx_Commit Let_def split: option.splits if_splits prod.splits
      dest!: wf_ensure_demand_tx intro: wf_intros)

lemma wf_park_demand: "ledger_wf L \<Longrightarrow> ledger_wf (snd (park_demand env h L))"
  by (simp add: park_demand_def Let_def wf_intros)

lemma wf_cancel_demand: "ledger_wf L \<Longrightarrow> ledger_wf (snd (cancel_demand env h L))"
  by (simp add: cancel_demand_def Let_def wf_intros)

lemma wf_revive_demand: "ledger_wf L \<Longrightarrow> ledger_wf (revive_demand h st now L)"
  by (simp add: revive_demand_def wf_intros)

lemma revive_demand_sel [simp]:
  "permits (revive_demand h st now L) = permits L"
  "meta_max_jobs (revive_demand h st now L) = meta_max_jobs L"
  "meta_generation (revive_demand h st now L) = meta_generation L"
  "meta_reconciled_generation (revive_demand h st now L) = meta_reconciled_generation L"
  "recovery_claims (revive_demand h st now L) = recovery_claims L"
  "cleanup_releases (revive_demand h st now L) = cleanup_releases L"
  "token_migrations (revive_demand h st now L) = token_migrations L"
  by (simp_all add: revive_demand_def)

text \<open>How a grant can commit: the capacity refusal, the queue refusal, or the grant itself.\<close>

lemma grant_tx_CommitE:
  assumes "grant_tx env h lane st gen pid staged n L = Commit a L'"
  obtains (full) "a = Full" "L' = L" "uint n \<le> int (length (permits L))"
    | (deferred) h' where "a = Deferred" "L' = L" "int (length (permits L)) < uint n"
      "queue_head (saturating_sub_word (unix_now env) DEMAND_STALE_AFTER_SECS) L = Some h'" "h' \<noteq> h"
    | (granted) tok L1 where "a = Acquired tok" "int (length (permits L)) < uint n"
      "queue_head (saturating_sub_word (unix_now env) DEMAND_STALE_AFTER_SECS) L = Some h"
      "tok = (case staged of Some t \<Rightarrow> t | None \<Rightarrow> new_uuid env)"
      "insert_permit h lane st (i64_try_from_u64 (unix_now env)) gen pid tok L = Inr L1"
      "L' = put_demand_state h Granted (i64_try_from_u64 (unix_now env)) (\<lambda>_. True) L1"
  using assms by (auto simp: grant_tx_def Let_def try_tx_Commit split: if_splits option.splits)

text \<open>How an acquisition can commit.\<close>

lemma held_tx_Commit:
  "held_tx h lane st staged r L = Commit a L' \<Longrightarrow>
     L' = L \<and> (a = AlreadyHeld \<or> a = Acquired (p_attempt_token r) \<and> staged = Some (p_attempt_token r))"
  by (auto simp: held_tx_def try_tx_Commit split: if_splits option.splits)

lemma acquire_attempt_with_token_cases:
  assumes "acquire_attempt_with_token env h lane st gen pid staged L = (r, L')"
  obtains (same) "L' = L"
    | (committed) dm L1 n a where "generation L = gen" "map_of (permits L) h = None"
      "max_jobs L = Some n" "r = Inr a"
      "ensure_demand_tx h lane [] (unix_now env) (unix_now env) Eligible L = Inr (dm, L1)"
      "d_state dm \<noteq> Terminal" "d_state dm \<noteq> Cancelled"
      "grant_tx env h lane st gen pid staged n
         (revive_demand h (d_state dm) (unix_now env) L1) = Commit a L'"
proof -
  from run_tx_state [OF assms [unfolded acquire_attempt_with_token_def]]
  show thesis
  proof
    assume "L' = L"
    then show thesis by (rule same)
  next
    assume "\<exists>a. (let now = unix_now env in
      if generation L \<noteq> gen then Rollback AcquireAttemptOutcome.StaleGeneration
      else case map_of (permits L) h of
        Some r \<Rightarrow> held_tx h lane st staged r L
      | None \<Rightarrow>
          (case max_jobs L of
             None \<Rightarrow> Rollback NotConfigured
           | Some n \<Rightarrow>
               try_tx (ensure_demand_tx h lane [] now now Eligible L) (\<lambda>(dm, L1).
                 if d_state dm = Terminal \<or> d_state dm = Cancelled then Rollback Closed
                 else grant_tx env h lane st gen pid staged n
                        (revive_demand h (d_state dm) now L1)))) = Commit a L' \<and> r = Inr a"
    then show thesis
      using same committed held_tx_Commit
      by (fastforce simp: Let_def try_tx_Commit split: if_splits option.splits prod.splits)
  qed
qed

lemma wf_acquire_attempt_with_token:
  assumes "ledger_wf L" "new_uuid env \<noteq> []" "staged \<noteq> Some []"
  shows "ledger_wf (snd (acquire_attempt_with_token env h lane st gen pid staged L))"
proof -
  obtain r L' where res: "acquire_attempt_with_token env h lane st gen pid staged L = (r, L')"
    by (cases "acquire_attempt_with_token env h lane st gen pid staged L")
  from res have "ledger_wf L'"
  proof (cases rule: acquire_attempt_with_token_cases)
    case same
    then show ?thesis using assms(1) by simp
  next
    case (committed dm L1 n a)
    have wf: "ledger_wf (revive_demand h (d_state dm) (unix_now env) L1)"
      using committed(5) assms(1) by (simp add: wf_ensure_demand_tx wf_revive_demand)
    have abs: "map_of (permits (revive_demand h (d_state dm) (unix_now env) L1)) h = None"
      using committed(2,5) by (simp add: ensure_demand_tx_sel(1))
    show ?thesis
      using committed(8)
    proof (cases rule: grant_tx_CommitE)
      case (granted tok L2)
      have "tok \<noteq> []" using granted(4) assms(2,3) by (cases staged) auto
      then show ?thesis using wf_insert_permit [OF granted(5) wf abs] granted(6)
        by (simp add: wf_put_demand_state)
    qed (use wf in auto)
  qed
  then show ?thesis by (simp add: res)
qed

lemma wf_acquire_attempt:
  "ledger_wf L \<Longrightarrow> new_uuid env \<noteq> [] \<Longrightarrow> ledger_wf (snd (acquire_attempt env h lane st gen pid L))"
  by (simp add: acquire_attempt_def wf_acquire_attempt_with_token)

lemma wf_acquire_scaleset_attempt_with_token:
  "ledger_wf L \<Longrightarrow> new_uuid env \<noteq> [] \<Longrightarrow>
   ledger_wf (snd (acquire_scaleset_attempt_with_token env h st gen pid tok L))"
  by (simp add: acquire_scaleset_attempt_with_token_def wf_acquire_attempt_with_token)

lemma adopt_row_sel [simp]:
  "p_attempt_token (adopt_row st now gen pid tok r) = tok"
  "p_lane (adopt_row st now gen pid tok r) = p_lane r"
  "p_state (adopt_row st now gen pid tok r) = PermitState_as_str st"
  by (simp_all add: adopt_row_def)

lemma rotate_row_sel [simp]:
  "p_attempt_token (rotate_row st now gen pid target claim pp pt r) = target"
  "p_lane (rotate_row st now gen pid target claim pp pt r) = p_lane r"
  "p_state (rotate_row st now gen pid target claim pp pt r) = PermitState_as_str st"
  by (simp_all add: rotate_row_def)

lemma adopt_for_redelivery_CommitE:
  assumes "adopt_for_redelivery env h lane st gen pid alive L = (r, L')"
  obtains (same) "L' = L"
    | (adopted) row where "generation L = gen" "r = Inr (Adopted (new_uuid env))"
      "map_of (permits L) h = Some row" "p_lane row = PermitLane_as_str lane"
      "\<not> token_taken h (new_uuid env) L"
      "grant_demand_tx h lane (unix_now env) (i64_try_from_u64 (unix_now env))
         (L\<lparr>permits := tbl_update h (\<lambda>_. True)
              (adopt_row st (i64_try_from_u64 (unix_now env)) gen pid (new_uuid env)) (permits L)\<rparr>)
       = Inr L'"
  using run_tx_state [OF assms [unfolded adopt_for_redelivery_def]]
  by (auto simp: Let_def try_tx_Commit split: if_splits option.splits)

lemma wf_adopt_for_redelivery:
  assumes "ledger_wf L" "new_uuid env \<noteq> []"
  shows "ledger_wf (snd (adopt_for_redelivery env h lane st gen pid alive L))"
proof -
  obtain r L' where res: "adopt_for_redelivery env h lane st gen pid alive L = (r, L')"
    by (cases "adopt_for_redelivery env h lane st gen pid alive L")
  from res have "ledger_wf L'"
  proof (cases rule: adopt_for_redelivery_CommitE)
    case (adopted row)
    have "ledger_wf (L\<lparr>permits := tbl_update h (\<lambda>_. True)
        (adopt_row st (i64_try_from_u64 (unix_now env)) gen pid (new_uuid env)) (permits L)\<rparr>)"
      using assms adopted(5) by (intro wf_permits_retoken) (auto simp: permit_ok_def)
    then show ?thesis using wf_grant_demand_tx [OF adopted(6)] by simp
  qed (use assms in simp)
  then show ?thesis by (simp add: res)
qed

lemma rotation_replay_Commit: "rotation_replay gen pp pt claim r L = Commit a L' \<Longrightarrow> L' = L"
  by (auto simp: rotation_replay_def split: if_splits)

abbreviation rotate_cond :: "u32 \<Rightarrow> PermitRow \<Rightarrow> PermitRow \<Rightarrow> bool" where
  "rotate_cond pp row \<equiv> \<lambda>r. p_lane r = PermitLane_as_str ScaleSet
     \<and> p_attempt_token r = p_attempt_token row \<and> p_pid r = Some (uint pp)"

lemma rotate_cas_tx_CommitD:
  assumes "rotate_cas_tx env h st gen pp pt target claim row L = Commit a L'"
  shows "a = Rotated" "p_pid row = Some (uint pp)" "p_attempt_token row \<noteq> []"
    "case pt of Some t \<Rightarrow> t = p_attempt_token row | None \<Rightarrow> migrated_token h (p_attempt_token row) L"
    "\<not> token_taken h target L" "tbl_matches h (rotate_cond pp row) (permits L) = 1"
    "grant_demand_tx h ScaleSet (u64_max0 (i64_try_from_u64 (unix_now env)))
       (i64_try_from_u64 (unix_now env))
       (L\<lparr>permits := tbl_update h (rotate_cond pp row) (rotate_row st
            (i64_try_from_u64 (unix_now env)) gen (process_id env) target claim pp pt) (permits L)\<rparr>)
     = Inr L'"
proof -
  have "p_pid row = Some (uint pp)" if "Option.bind (p_pid row) u32_try_from_i64 = Some pp"
    using that by (auto simp: bind_eq_Some_conv int_conv)
  then show "p_pid row = Some (uint pp)"
    using assms by (simp add: rotate_cas_tx_def split: if_splits)
qed (use assms in \<open>simp_all add: rotate_cas_tx_def Let_def try_tx_Commit split: if_splits\<close>)

lemma run_rotation_replay: "run_tx (rotation_replay gen pp pt claim r L) L = (a, L') \<Longrightarrow> L' = L"
  by (auto dest: run_tx_state rotation_replay_Commit)

lemma run_rotate_cas_tx:
  assumes "run_tx (rotate_cas_tx env h st gen pp pt target claim row L) L = (r, L')"
  shows "L' = L \<or> (r = Inr Rotated \<and> rotate_cas_tx env h st gen pp pt target claim row L = Commit Rotated L')"
  using run_tx_state [OF assms] rotate_cas_tx_CommitD(1) by blast

lemma rotate_scaleset_CommitE:
  assumes "rotate_scaleset_attempt_for_recovery env h st gen pp pt target claim L = (r, L')"
  obtains (same) "L' = L"
    | (rotated) row where "generation L = gen" "r = Inr Rotated" "target \<noteq> []" "claim \<noteq> []"
      "map_of (permits L) h = Some row" "p_lane row = PermitLane_as_str ScaleSet"
      "p_attempt_token row \<noteq> target" "recovery_claims L = Some (claim, uint (process_id env))"
      "rotate_cas_tx env h st gen pp pt target claim row L = Commit Rotated L'"
proof -
  have "L' = L \<or> (\<exists>row. generation L = gen \<and> r = Inr Rotated \<and> target \<noteq> [] \<and> claim \<noteq> []
      \<and> map_of (permits L) h = Some row \<and> p_lane row = PermitLane_as_str ScaleSet
      \<and> p_attempt_token row \<noteq> target \<and> recovery_claims L = Some (claim, uint (process_id env))
      \<and> rotate_cas_tx env h st gen pp pt target claim row L = Commit Rotated L')"
    using assms unfolding rotate_scaleset_attempt_for_recovery_def
    by (auto dest!: run_rotation_replay run_rotate_cas_tx split: if_splits option.splits)
  then show thesis using same rotated by blast
qed

lemma wf_rotate_scaleset:
  assumes "ledger_wf L"
  shows "ledger_wf (snd (rotate_scaleset_attempt_for_recovery env h st gen pp pt target claim L))"
proof -
  obtain r L' where res: "rotate_scaleset_attempt_for_recovery env h st gen pp pt target claim L = (r, L')"
    by (cases "rotate_scaleset_attempt_for_recovery env h st gen pp pt target claim L")
  from res have "ledger_wf L'"
  proof (cases rule: rotate_scaleset_CommitE)
    case (rotated row)
    note cas = rotate_cas_tx_CommitD [OF rotated(9)]
    have "ledger_wf (L\<lparr>permits := tbl_update h (rotate_cond pp row) (rotate_row st
        (i64_try_from_u64 (unix_now env)) gen (process_id env) target claim pp pt) (permits L)\<rparr>)"
      using assms cas(5) rotated(3) by (intro wf_permits_retoken) (auto simp: permit_ok_def)
    then show ?thesis using wf_grant_demand_tx [OF cas(7)] by simp
  qed (use assms in simp)
  then show ?thesis by (simp add: res)
qed

lemma wf_transition_for_attempt:
  "ledger_wf L \<Longrightarrow> ledger_wf (snd (transition_for_attempt env h st gen tok L))"
  unfolding transition_for_attempt_def
  by (rule wf_run_tx)
    (auto simp: try_tx_Commit permit_ok_def split: if_splits intro!: wf_permits_update)

lemma cleanup_absent_tx_CommitE:
  assumes "cleanup_absent_tx env h lane tok L = Commit a L'"
  obtains (closed) dm cr where "a = ClosedAbsent" "read_demand L h = Inr (Some dm)"
      "d_lane dm = lane" "d_state dm = Terminal \<or> d_state dm = Cancelled"
      "L' = L \<or> (L' = L\<lparr>cleanup_releases := cr\<rparr> \<and> lane = Native \<and> d_state dm = Cancelled)"
      "lane = Native \<Longrightarrow> d_state dm = Cancelled \<Longrightarrow> (h, tok) \<in> set (cleanup_releases L')"
    | (opened) dm L1 where "a = DemandClosed"
      "ensure_demand_tx h lane [] (unix_now env) (unix_now env) Terminal L = Inr (dm, L1)"
      "L' = put_demand_state h Terminal (i64_try_from_u64 (unix_now env)) (\<lambda>_. True) L1"
      "map_of (permit_demands L) h \<noteq> None \<Longrightarrow> d_state dm \<notin> {Terminal, Cancelled}"
proof (cases "read_demand L h")
  case (Inl e)
  then show thesis using assms by (simp add: cleanup_absent_tx_def Let_def)
next
  case (Inr ex)
  show thesis
  proof (cases ex)
    case None
    then have "map_of (permit_demands L) h = None" using Inr by (simp add: read_demand_None)
    then show thesis using assms Inr opened None
      by (auto simp: cleanup_absent_tx_def Let_def try_tx_Commit)
  next
    case (Some dm)
    have en: "ensure_demand_tx h lane [] (unix_now env) (unix_now env) Terminal L = Inr (dm, L)"
      if "d_lane dm = lane"
      using that Inr Some by (simp add: ensure_demand_tx_def check_demand_lane_def)
    show thesis
    proof (cases "d_state dm = Terminal \<or> d_state dm = Cancelled")
      case True
      then show thesis using assms Inr Some
        by (auto simp: cleanup_absent_tx_def Let_def try_tx_Commit split: if_splits intro: closed)
    next
      case False
      then show thesis using assms Inr Some en
        by (intro opened [of dm L]) (auto simp: cleanup_absent_tx_def Let_def try_tx_Commit)
    qed
  qed
qed

lemma wf_claim_recorded_terminal_cleanup:
  assumes "ledger_wf L"
  shows "ledger_wf (snd (claim_recorded_terminal_cleanup env h lane tok L))"
proof -
  have "ledger_wf L'" if "cleanup_present_tx env h lane tok r L = Commit a L'" for r a L'
    using that assms unfolding cleanup_present_tx_def
    by (auto simp: try_tx_Commit permit_ok_def split: if_splits intro!: wf_permits_update)
  moreover have "ledger_wf L'" if "cleanup_absent_tx env h lane tok L = Commit a L'" for a L'
    using that
  proof (cases rule: cleanup_absent_tx_CommitE)
    case (closed dm cr)
    then show ?thesis using assms by (auto intro: wf_intros)
  next
    case (opened dm L1)
    then show ?thesis using assms wf_ensure_demand_tx wf_put_demand_state by blast
  qed
  ultimately show ?thesis
    using assms unfolding claim_recorded_terminal_cleanup_def
    by (auto split: option.splits intro!: wf_run_tx)
qed

lemma wf_release_with_demand_state:
  "ledger_wf L \<Longrightarrow> ledger_wf (snd (release_with_demand_state env h next tok L))"
  unfolding release_with_demand_state_def
  by (rule wf_run_tx)
    (auto simp: Let_def split: if_splits DemandState.splits intro: wf_intros)

lemma release_scaleset_disj:
  assumes "release_scaleset_staged_owned env h tok next L = (r, L')"
  shows "L' = L \<and> r \<noteq> Inr Released \<or>
    r = Inr Released \<and> tok \<noteq> [] \<and> next \<in> {Eligible, Cancelled, Terminal}
    \<and> (\<exists>row dm. map_of (permits L) h = Some row \<and> p_attempt_token row = tok
        \<and> p_lane row = PermitLane_as_str ScaleSet
        \<and> read_demand L h = Inr (Some dm) \<and> d_lane dm = ScaleSet
        \<and> (next = Eligible \<longrightarrow> d_state dm \<in> {Eligible, Granted}))
    \<and> L' = put_demand_state h next (i64_try_from_u64 (unix_now env)) (\<lambda>_. True)
            (delete_permit h tok L)"
proof (cases "read_demand L h")
  case (Inl e)
  then show ?thesis
    using assms unfolding release_scaleset_staged_owned_def Let_def
    by (auto split: if_split_asm option.split_asm)
next
  case (Inr ex)
  then show ?thesis
    using assms unfolding release_scaleset_staged_owned_def Let_def
    by (cases ex) (auto simp: check_demand_lane_def split: if_split_asm option.split_asm)
qed

lemma release_scaleset_cases:
  assumes "release_scaleset_staged_owned env h tok next L = (r, L')"
  obtains (same) "L' = L" "r \<noteq> Inr Released"
    | (released) row dm where "r = Inr Released" "map_of (permits L) h = Some row"
      "p_attempt_token row = tok" "tok \<noteq> []" "read_demand L h = Inr (Some dm)"
      "next \<in> {Eligible, Cancelled, Terminal}"
      "next = Eligible \<Longrightarrow> d_state dm \<in> {Eligible, Granted}"
      "L' = put_demand_state h next (i64_try_from_u64 (unix_now env)) (\<lambda>_. True)
              (delete_permit h tok L)"
      "p_lane row = PermitLane_as_str ScaleSet" "d_lane dm = ScaleSet"
  using release_scaleset_disj [OF assms] by blast

lemma wf_release_scaleset_staged_owned:
  assumes "ledger_wf L"
  shows "ledger_wf (snd (release_scaleset_staged_owned env h tok next L))"
proof (cases "release_scaleset_staged_owned env h tok next L")
  case (Pair r L')
  then have "ledger_wf L'"
    by (cases rule: release_scaleset_cases) (simp_all add: assms wf_intros)
  then show ?thesis by (simp add: Pair)
qed

lemma wf_release_native:
  assumes "ledger_wf L"
  shows "ledger_wf (snd (release_native_owned_with_terminal_demand env h tok next L))"
proof -
  have "ledger_wf L'" if "native_absent_tx h tok next L = Commit a L'" for a L'
    using that assms unfolding native_absent_tx_def
    by (auto simp: try_tx_Commit Let_def split: option.splits intro: wf_intros)
  then show ?thesis
    using assms unfolding release_native_owned_with_terminal_demand_def
    by (auto simp: Let_def try_tx_Commit split: if_splits option.splits prod.splits
        simp: wf_intros dest!: wf_ensure_demand_tx intro!: wf_run_tx)
qed

lemma wf_retain_uncertain_for_attempt:
  "ledger_wf L \<Longrightarrow> ledger_wf (snd (retain_uncertain_for_attempt env h gen tok L))"
  unfolding retain_uncertain_for_attempt_def
  by (rule wf_run_tx)
    (auto simp: try_tx_Commit Let_def permit_ok_def split: if_splits
      intro!: wf_put_demand_state wf_permits_update)

lemma wf_retain_recorded_failure:
  "ledger_wf L \<Longrightarrow> ledger_wf (snd (retain_recorded_failure_uncertain_owned env h gen tok L))"
  unfolding retain_recorded_failure_uncertain_owned_def
  by (rule wf_run_tx)
    (auto simp: try_tx_Commit Let_def permit_ok_def split: if_splits
      intro!: wf_put_demand_state wf_permits_update)

lemma wf_retain_uncertain_after_cleanup_owned:
  assumes "ledger_wf L"
  shows "ledger_wf (snd (retain_uncertain_after_cleanup_owned env h tok L))"
proof -
  have "ledger_wf (L\<lparr>permits := tbl_update h c (\<lambda>r. r\<lparr>p_state := PermitState_as_str st,
      p_updated_unix := now, p_generation := g, p_pid := pid\<rparr>) (permits L)\<rparr>)" for c st now g pid
    using assms by (intro wf_permits_update) (auto simp: permit_ok_def)
  then show ?thesis
    using assms unfolding retain_uncertain_after_cleanup_owned_def
    by (auto simp: try_tx_Commit Let_def split: if_splits option.splits prod.splits
        simp: wf_intros dest!: wf_ensure_demand_tx intro!: wf_run_tx)
qed

section \<open>Reconciliation as a sequence of steps\<close>

text \<open>What one iteration of a reconciliation loop can do to the ledger: confirm the demand of a
  recorded permit, or mark an unobserved permit uncertain and confirm its demand.\<close>

inductive recon_step :: "int \<Rightarrow> PermitLedger \<Rightarrow> PermitLedger \<Rightarrow> bool" for now where
  confirm: "map_of (permits M) h = Some r \<Longrightarrow> p_lane r = PermitLane_as_str lane
    \<Longrightarrow> grant_demand_tx h lane (u64_max0 now) now M = Inr M' \<Longrightarrow> recon_step now M M'"
| mark: "tbl_matches h not_cleaning (permits M) \<noteq> 0
    \<Longrightarrow> grant_demand_tx h lane (u64_max0 now) now (mark_uncertain h now M) = Inr M'
    \<Longrightarrow> recon_step now M M'"

lemma reconcile_alive_steps:
  "reconcile_alive now xs (ob, cf, L) = Inr (ob', cf', L') \<Longrightarrow> (recon_step now)\<^sup>*\<^sup>* L L'"
proof (induction xs arbitrary: ob cf L)
  case Nil
  then show ?case by simp
next
  case (Cons x xs)
  obtain h lane tok where x: "x = (h, lane, tok)" by (cases x)
  obtain r L1 where "map_of (permits L) h = Some r" "p_lane r = PermitLane_as_str lane"
      "grant_demand_tx h lane (u64_max0 now) now L = Inr L1"
      "reconcile_alive now xs (h # ob, cf @ [h], L1) = Inr (ob', cf', L')"
    using Cons.prems by (auto simp: x try_sum_Inr split: if_splits option.splits)
  then show ?case
    using Cons.IH by (meson converse_rtranclp_into_rtranclp recon_step.confirm)
qed

lemma reconcile_rotations_steps:
  "reconcile_rotations now xs (ob, cf, L) = Inr (ob', cf', L') \<Longrightarrow> (recon_step now)\<^sup>*\<^sup>* L L'"
proof (induction xs arbitrary: ob cf L)
  case Nil
  then show ?case by simp
next
  case (Cons x xs)
  obtain h lane pt tok where x: "x = (h, lane, pt, tok)" by (cases x)
  obtain r L1 where "map_of (permits L) h = Some r" "p_lane r = PermitLane_as_str ScaleSet"
      "grant_demand_tx h ScaleSet (u64_max0 now) now L = Inr L1"
      "reconcile_rotations now xs (h # ob, cf @ [h], L1) = Inr (ob', cf', L')"
    using Cons.prems by (auto simp: x try_sum_Inr split: if_splits option.splits)
  then show ?case
    using Cons.IH by (meson converse_rtranclp_into_rtranclp recon_step.confirm)
qed

lemma reconcile_releases_same:
  "reconcile_releases xs (ob, cf, L) = Inr (ob', cf', L') \<Longrightarrow> L' = L"
proof (induction xs arbitrary: ob cf)
  case Nil
  then show ?case by simp
next
  case (Cons x xs)
  then show ?case by (cases x) (auto split: if_splits option.splits)
qed

lemma reconcile_acquisitions_same:
  "reconcile_acquisitions xs (ob, cf, L) = Inr (ob', cf', L') \<Longrightarrow> L' = L"
proof (induction xs arbitrary: ob cf)
  case Nil
  then show ?case by simp
next
  case (Cons x xs)
  then show ?case by (cases x) (auto split: if_splits option.splits)
qed

lemma reconcile_unobserved_steps:
  "reconcile_unobserved now ob xs mk L = Inr (mk', L') \<Longrightarrow> (recon_step now)\<^sup>*\<^sup>* L L'"
proof (induction xs arbitrary: mk L)
  case Nil
  then show ?case by simp
next
  case (Cons x xs)
  obtain h raw where x: "x = (h, raw)" by (cases x)
  consider "reconcile_unobserved now ob xs mk L = Inr (mk', L')"
    | lane L1 where "tbl_matches h not_cleaning (permits L) \<noteq> 0"
      "grant_demand_tx h lane (u64_max0 now) now (mark_uncertain h now L) = Inr L1"
      "reconcile_unobserved now ob xs (mk @ [h]) L1 = Inr (mk', L')"
    using Cons.prems by (auto simp: x try_sum_Inr split: if_splits option.splits)
  then show ?case
  proof cases
    case 1
    then show ?thesis by (rule Cons.IH)
  next
    case 2
    then show ?thesis
      using Cons.IH by (meson converse_rtranclp_into_rtranclp recon_step.mark)
  qed
qed

text \<open>A reconciliation either changes nothing, or is a sequence of such steps followed by the
  update of the reconciled generation.\<close>

lemma reconcile_cases:
  assumes "reconcile_attempts_with_staged_acquisitions env al ro re ac L = (res, L')"
  obtains (failed) e where "res = Inl e" "L' = L"
    | (finished) s1 s2 s3 ob cf L4 mk L5 where
      "reconcile_alive (as_i64 (unix_now env)) al ([], [], L) = Inr s1"
      "reconcile_rotations (as_i64 (unix_now env)) ro s1 = Inr s2"
      "reconcile_releases re s2 = Inr s3"
      "reconcile_acquisitions ac s3 = Inr (ob, cf, L4)"
      "reconcile_unobserved (as_i64 (unix_now env)) ob
         (map (\<lambda>(h, r). (h, p_lane r)) (permits L4)) [] L4 = Inr (mk, L5)"
      "res = Inr \<lparr>marked_uncertain = sort mk, confirmed = sort cf\<rparr>"
      "L' = L5\<lparr>meta_reconciled_generation := meta_generation L5\<rparr>"
proof -
  define body where "body = (let now = as_i64 (unix_now env) in
      try_tx (reconcile_alive now al ([], [], L)) (\<lambda>s1.
      try_tx (reconcile_rotations now ro s1) (\<lambda>s2.
      try_tx (reconcile_releases re s2) (\<lambda>s3.
      try_tx (reconcile_acquisitions ac s3) (\<lambda>(observed, conf, L4).
      try_tx (reconcile_unobserved now observed (map (\<lambda>(h, r). (h, p_lane r)) (permits L4)) [] L4)
        (\<lambda>(marked, L5).
          Commit \<lparr>marked_uncertain = sort marked, confirmed = sort conf\<rparr>
            (L5\<lparr>meta_reconciled_generation := meta_generation L5\<rparr>)))))))"
  have res: "run_tx body L = (res, L')"
    using assms by (simp add: reconcile_attempts_with_staged_acquisitions_def body_def)
  have norb: "body \<noteq> Rollback a" for a
    unfolding body_def Let_def
    by (cases "reconcile_alive (as_i64 (unix_now env)) al ([], [], L)") (auto simp: try_tx_Rollback)
  show thesis
  proof (cases body)
    case (Commit a M)
    then show thesis
      using res unfolding body_def Let_def
      by (auto simp: try_tx_Commit intro!: finished)
  next
    case (Rollback a)
    then show thesis using norb by blast
  next
    case (Abort e)
    then show thesis using res failed by auto
  qed
qed

lemma reconcile_steps:
  assumes "reconcile_attempts_with_staged_acquisitions env al ro re ac L = (res, L')"
  shows "L' = L \<or> (\<exists>L5. (recon_step (as_i64 (unix_now env)))\<^sup>*\<^sup>* L L5
    \<and> L' = L5\<lparr>meta_reconciled_generation := meta_generation L5\<rparr>)"
  using assms
proof (cases rule: reconcile_cases)
  case (finished s1 s2 s3 ob cf L4 mk L5)
  obtain o1 c1 L1 where s1: "s1 = (o1, c1, L1)" by (cases s1)
  obtain o2 c2 L2 where s2: "s2 = (o2, c2, L2)" by (cases s2)
  obtain o3 c3 L3 where s3: "s3 = (o3, c3, L3)" by (cases s3)
  have "(recon_step (as_i64 (unix_now env)))\<^sup>*\<^sup>* L L1"
    using finished(1) s1 by (simp add: reconcile_alive_steps)
  moreover have "(recon_step (as_i64 (unix_now env)))\<^sup>*\<^sup>* L1 L2"
    using finished(2) s1 s2 by (simp add: reconcile_rotations_steps)
  moreover have "L3 = L2" "L4 = L3"
    using finished(3,4) s2 s3 reconcile_releases_same reconcile_acquisitions_same by auto
  moreover have "(recon_step (as_i64 (unix_now env)))\<^sup>*\<^sup>* L4 L5"
    using finished(5) by (rule reconcile_unobserved_steps)
  ultimately have "(recon_step (as_i64 (unix_now env)))\<^sup>*\<^sup>* L L5"
    by (meson rtranclp_trans)
  then show ?thesis using finished(7) by blast
qed simp

text \<open>An invariant of the steps is an invariant of reconciliation.\<close>

lemma reconcile_keeps:
  assumes "P L" and "\<And>M M'. P M \<Longrightarrow> recon_step (as_i64 (unix_now env)) M M' \<Longrightarrow> P M'"
    and "\<And>M. P M \<Longrightarrow> P (M\<lparr>meta_reconciled_generation := meta_generation M\<rparr>)"
  shows "P (snd (reconcile_attempts_with_staged_acquisitions env al ro re ac L))"
proof -
  obtain res L' where r: "reconcile_attempts_with_staged_acquisitions env al ro re ac L = (res, L')"
    by (cases "reconcile_attempts_with_staged_acquisitions env al ro re ac L")
  have *: "P M" if "(recon_step (as_i64 (unix_now env)))\<^sup>*\<^sup>* L M" for M
    using that by (induction rule: rtranclp_induct) (use assms in auto)
  show ?thesis using reconcile_steps [OF r] * assms(1,3) by (auto simp: r)
qed

lemma mark_uncertain_sel [simp]:
  "permit_demands (mark_uncertain h now L) = permit_demands L"
  "meta_max_jobs (mark_uncertain h now L) = meta_max_jobs L"
  "meta_generation (mark_uncertain h now L) = meta_generation L"
  "meta_reconciled_generation (mark_uncertain h now L) = meta_reconciled_generation L"
  "recovery_claims (mark_uncertain h now L) = recovery_claims L"
  "cleanup_releases (mark_uncertain h now L) = cleanup_releases L"
  "token_migrations (mark_uncertain h now L) = token_migrations L"
  by (simp_all add: mark_uncertain_def)

lemma wf_mark_uncertain [wf_intros]: "ledger_wf L \<Longrightarrow> ledger_wf (mark_uncertain h now L)"
  unfolding mark_uncertain_def by (rule wf_permits_update) (auto simp: permit_ok_def)

lemma wf_recon_step: "recon_step now M M' \<Longrightarrow> ledger_wf M \<Longrightarrow> ledger_wf M'"
  by (induction rule: recon_step.induct) (auto intro: wf_grant_demand_tx wf_intros)

lemma wf_reconcile:
  "ledger_wf L \<Longrightarrow> ledger_wf (snd (reconcile_attempts_with_staged_acquisitions env al ro re ac L))"
  by (rule reconcile_keeps) (auto intro: wf_recon_step wf_intros)

end
