(* ===== verification/Ledger_Coherence.thy ===== *)
theory Ledger_Coherence
  imports Ledger_Invariants
begin

text \<open>
  Permits and demands stay in step: every operation of the ledger keeps \<open>coherent\<close>.  In a
  coherent ledger a permit's demand exists, has the permit's lane and is granted or terminal, and
  a granted demand has a permit.
\<close>

section \<open>Every operation keeps the tables coherent\<close>

lemma demand_in_simps [simp]:
  "demand_in S (d\<lparr>q_state := DemandState_as_str st, q_updated_unix := n\<rparr>) \<longleftrightarrow> st \<in> S"
  "demand_in S (d\<lparr>q_updated_unix := n\<rparr>) \<longleftrightarrow> demand_in S d"
  "demand_in S (new_demand_row lane sc fs up st sq) \<longleftrightarrow> st \<in> S"
  by (auto simp: demand_in_def)

lemma coherent_run_tx:
  "coherent L \<Longrightarrow> (\<And>a L'. t = Commit a L' \<Longrightarrow> coherent L') \<Longrightarrow> coherent (snd (run_tx t L))"
  by (rule run_tx_keeps)

lemma coherent_other_fields [simp]:
  "coherent (L\<lparr>recovery_claims := c\<rparr>) = coherent L"
  "coherent (L\<lparr>meta_max_jobs := m\<rparr>) = coherent L"
  "coherent (L\<lparr>meta_generation := g\<rparr>) = coherent L"
  "coherent (L\<lparr>meta_reconciled_generation := g\<rparr>) = coherent L"
  "coherent (L\<lparr>cleanup_releases := cr\<rparr>) = coherent L"
  "coherent (delete_cleanup_release h tok L) = coherent L"
  by (simp_all add: coherent_def coherent_at_def)

lemma coherentD: "coherent L \<Longrightarrow> coherent_rows (map_of (permits L) h) (map_of (permit_demands L) h)"
  by (simp add: coherent_def coherent_at_def)

lemma coherentI:
  assumes "coherent L" "same_but h L L'"
    and "coherent_rows (map_of (permits L') h) (map_of (permit_demands L') h)"
  shows "coherent L'"
  using coherent_same_but [OF assms(1,2)] assms(3) by (simp add: coherent_at_def)

text \<open>A statement that keeps the state class of every demand, and the lane of every permit.\<close>

lemma coherent_permits_update:
  assumes "coherent L" "\<And>r. p_lane (f r) = p_lane r"
  shows "coherent (L\<lparr>permits := tbl_update h c f (permits L)\<rparr>)"
proof (rule coherentI [OF assms(1)])
  show "same_but h L (L\<lparr>permits := tbl_update h c f (permits L)\<rparr>)" by (simp add: same_but_def)
  show "coherent_rows (map_of (permits (L\<lparr>permits := tbl_update h c f (permits L)\<rparr>)) h)
      (map_of (permit_demands (L\<lparr>permits := tbl_update h c f (permits L)\<rparr>)) h)"
    using coherentD [OF assms(1), of h] assms(2)
    by (cases "map_of (permits L) h"; cases "map_of (permit_demands L) h") auto
qed

lemma coherent_touch_demand:
  assumes "coherent L" shows "coherent (touch_demand h now L)"
proof (rule coherentI [OF assms])
  show "same_but h L (touch_demand h now L)" by (simp add: same_but_def)
  show "coherent_rows (map_of (permits (touch_demand h now L)) h)
      (map_of (permit_demands (touch_demand h now L)) h)"
    using coherentD [OF assms, of h]
    by (cases "map_of (permits L) h"; cases "map_of (permit_demands L) h") auto
qed

lemma coherent_put_demand_state:
  assumes "coherent L" and "map_of (permits L) h \<noteq> None \<Longrightarrow> st \<in> {Granted, Terminal}"
    and "map_of (permits L) h = None \<Longrightarrow> st \<noteq> Granted"
  shows "coherent (put_demand_state h st now c L)"
proof (rule coherentI [OF assms(1)])
  show "same_but h L (put_demand_state h st now c L)" by (simp add: same_but_def)
  show "coherent_rows (map_of (permits (put_demand_state h st now c L)) h)
      (map_of (permit_demands (put_demand_state h st now c L)) h)"
    using coherentD [OF assms(1), of h] assms(2,3)
    by (cases "map_of (permits L) h"; cases "map_of (permit_demands L) h") auto
qed

lemma coherent_ensure_demand_tx:
  assumes "ensure_demand_tx h lane sc fs up st L = Inr (dm, L')" "coherent L"
    and "map_of (permits L) h = None \<Longrightarrow> st \<noteq> Granted"
  shows "coherent L'"
  using assms(1)
proof (cases rule: ensure_demand_txE)
  case (new sq)
  have none: "map_of (permits L) h = None"
    using coherentD [OF assms(2), of h] new(1) by (cases "map_of (permits L) h") auto
  show ?thesis
  proof (rule coherentI [OF assms(2)])
    show "same_but h L L'" using new(5) by (simp add: same_but_def split: option.splits)
    show "coherent_rows (map_of (permits L') h) (map_of (permit_demands L') h)"
      using new none assms(3) by simp
  qed
qed (use assms in simp)

text \<open>In a coherent ledger the demand of a permit is never missing and never eligible, so
  granting it again is the identity.\<close>

lemma grant_demand_tx_held:
  assumes "grant_demand_tx h lane now now_i64 L = Inr L'" "coherent L" "map_of (permits L) h \<noteq> None"
  shows "L' = L"
proof -
  obtain dm L1 where en: "ensure_demand_tx h lane [] now now Granted L = Inr (dm, L1)"
    and L': "L' = (if d_state dm = Eligible
      then put_demand_state h Granted now_i64 (\<lambda>_. True) L1 else L1)"
    using assms(1) by (rule grant_demand_txE)
  obtain d where d: "map_of (permit_demands L) h = Some d" "demand_in {Granted, Terminal} d"
    using coherentD [OF assms(2), of h] assms(3) by (cases "map_of (permit_demands L) h") auto
  from en show ?thesis
    by (cases rule: ensure_demand_txE) (use L' d in \<open>auto simp: demand_in_def\<close>)
qed

lemma tbl_matches_present: "tbl_matches k p t \<noteq> 0 \<Longrightarrow> map_of t k \<noteq> None"
  by (auto simp: tbl_matches_def filter_empty_conv map_of_eq_None_iff intro: rev_image_eqI)

lemma coherent_mark_uncertain: "coherent L \<Longrightarrow> coherent (mark_uncertain h now L)"
  unfolding mark_uncertain_def by (rule coherent_permits_update) auto

lemma map_of_mark_uncertain_None [simp]:
  "map_of (permits (mark_uncertain h now L)) h' = None \<longleftrightarrow> map_of (permits L) h' = None"
  by (simp add: mark_uncertain_def)

lemma recon_step_coherent:
  assumes "recon_step now M M'" "coherent M"
  shows "M' = M \<or> (\<exists>h. M' = mark_uncertain h now M)"
  using assms
proof (induction rule: recon_step.induct)
  case (confirm M h r lane M')
  then show ?case using grant_demand_tx_held by auto
next
  case (mark h M lane M')
  then have "map_of (permits (mark_uncertain h now M)) h \<noteq> None"
    using tbl_matches_present by auto
  then show ?case
    using mark grant_demand_tx_held coherent_mark_uncertain by blast
qed

lemma coherent_recon_step: "recon_step now M M' \<Longrightarrow> coherent M \<Longrightarrow> coherent M'"
  using recon_step_coherent coherent_mark_uncertain by blast

lemma coherent_reconcile:
  "coherent L \<Longrightarrow> coherent (snd (reconcile_attempts_with_staged_acquisitions env al ro re ac L))"
  by (rule reconcile_keeps) (auto intro: coherent_recon_step)

lemma coherent_claim_scaleset_recovery:
  "coherent L \<Longrightarrow> coherent (snd (claim_scaleset_recovery env alive L))"
  unfolding claim_scaleset_recovery_def
  by (rule coherent_run_tx) (auto split: option.splits if_splits)

lemma coherent_claim_release: "coherent L \<Longrightarrow> coherent (snd (claim_release c L))"
  unfolding claim_release_def by (rule coherent_run_tx) (auto split: if_splits)

lemma coherent_configuration:
  "coherent L \<Longrightarrow> coherent (snd (set_max_jobs n L))"
  "coherent L \<Longrightarrow> coherent (snd (set_max_jobs_if_unset n L))"
  "coherent L \<Longrightarrow> coherent (snd (begin_epoch L))"
  by (simp_all add: set_max_jobs_def set_max_jobs_if_unset_def begin_epoch_def Let_def)

text \<open>How an observation can commit.\<close>

lemma observe_demand_cases:
  assumes "observe_demand h lane sc fs ob L = (r, L')"
  obtains (failed) e where "r = Inl e" "L' = L"
    | (observed) dm L1 dm' where
      "ensure_demand_tx h lane sc fs ob (if map_of (permits L) h \<noteq> None then Granted else Eligible) L
         = Inr (dm, L1)"
      "L' = (if d_state dm = Waiting
             then put_demand_state h Eligible (i64_try_from_u64 ob) (\<lambda>_. True) L1
             else if d_state dm \<in> {Eligible, Granted} then touch_demand h (i64_try_from_u64 ob) L1
             else L1)"
      "read_demand L' h = Inr (Some dm')" "r = Inr dm'"
proof -
  have "(\<exists>e. r = Inl e \<and> L' = L) \<or> (\<exists>dm L1 dm'.
      ensure_demand_tx h lane sc fs ob (if map_of (permits L) h \<noteq> None then Granted else Eligible) L
         = Inr (dm, L1) \<and> L' = (if d_state dm = Waiting
             then put_demand_state h Eligible (i64_try_from_u64 ob) (\<lambda>_. True) L1
             else if d_state dm \<in> {Eligible, Granted} then touch_demand h (i64_try_from_u64 ob) L1
             else L1) \<and> read_demand L' h = Inr (Some dm') \<and> r = Inr dm')"
    (is "_ \<or> ?committed")
  proof (cases "ensure_demand_tx h lane sc fs ob
      (if map_of (permits L) h \<noteq> None then Granted else Eligible) L")
    case (Inl e)
    then show ?thesis using assms by (auto simp: observe_demand_def Let_def split: if_splits)
  next
    case (Inr p)
    obtain dm L1 where p: "p = (dm, L1)" by (cases p)
    define L2 where "L2 = (if d_state dm = Waiting
       then put_demand_state h Eligible (i64_try_from_u64 ob) (\<lambda>_. True) L1
       else if d_state dm \<in> {Eligible, Granted} then touch_demand h (i64_try_from_u64 ob) L1 else L1)"
    show ?thesis
      using assms Inr unfolding observe_demand_def Let_def
      by (cases "read_demand L2 h") (auto simp: p L2_def [symmetric] split: if_split_asm option.split_asm)
  qed
  then show thesis using failed observed by blast
qed

lemma coherent_observe_demand:
  assumes "coherent L" shows "coherent (snd (observe_demand h lane sc fs ob L))"
proof (cases "observe_demand h lane sc fs ob L")
  case (Pair r L')
  then have "coherent L'"
  proof (cases rule: observe_demand_cases)
    case (observed dm L1 dm')
    have L1: "coherent L1" using coherent_ensure_demand_tx [OF observed(1) assms] by simp
    have no: "map_of (permits L1) h = None" if w: "d_state dm = Waiting"
    proof -
      obtain d where "map_of (permit_demands L1) h = Some d" "q_state d = DemandState_as_str Waiting"
        using ensure_demand_tx_row [OF observed(1)] w by metis
      then show ?thesis
        using coherentD [OF L1, of h] by (cases "map_of (permits L1) h") auto
    qed
    show ?thesis
      using observed(2) L1 no
      by (auto intro: coherent_put_demand_state coherent_touch_demand split: if_splits)
  qed (use assms in simp)
  then show ?thesis by (simp add: Pair)
qed

lemma coherent_put_eligible_class:
  assumes "coherent L" "st \<in> {Waiting, Cancelled}" "\<And>d. c d \<Longrightarrow> demand_in {Eligible, Waiting} d"
  shows "coherent (put_demand_state h st now c L)"
proof (rule coherentI [OF assms(1)])
  show "same_but h L (put_demand_state h st now c L)" by (simp add: same_but_def)
  show "coherent_rows (map_of (permits (put_demand_state h st now c L)) h)
      (map_of (permit_demands (put_demand_state h st now c L)) h)"
    using coherentD [OF assms(1), of h] assms(2,3)
    by (cases "map_of (permits L) h"; cases "map_of (permit_demands L) h")
      (fastforce simp: demand_in_def)+
qed

lemma coherent_park_demand: "coherent L \<Longrightarrow> coherent (snd (park_demand env h L))"
  unfolding park_demand_def
  by (auto simp: Let_def demand_in_def intro!: coherent_put_eligible_class)

lemma coherent_cancel_demand: "coherent L \<Longrightarrow> coherent (snd (cancel_demand env h L))"
  unfolding cancel_demand_def
  by (auto simp: Let_def demand_in_def intro!: coherent_put_eligible_class)

lemma map_of_revive_demand [simp]:
  "map_of (permit_demands (revive_demand h st now L)) h' =
     (if h' = h then map_option (\<lambda>d. d\<lparr>q_state :=
          (if st \<in> {Granted, Waiting} then DemandState_as_str Eligible else q_state d),
          q_updated_unix := i64_try_from_u64 now\<rparr>) (map_of (permit_demands L) h)
      else map_of (permit_demands L) h')"
  by (cases "map_of (permit_demands L) h") (auto simp: revive_demand_def)

lemma coherent_revive_demand:
  "coherent L \<Longrightarrow> map_of (permits L) h = None \<Longrightarrow> coherent (revive_demand h st now L)"
  by (auto simp: revive_demand_def intro: coherent_put_demand_state coherent_touch_demand)

text \<open>The grant inserts the permit and grants the demand together.\<close>

lemma insert_permit_sel:
  assumes "insert_permit h lane st now gen pid tok L = Inr L'"
  shows "permit_demands L' = permit_demands L" "meta_max_jobs L' = meta_max_jobs L"
    "meta_generation L' = meta_generation L" "length (permits L') = Suc (length (permits L))"
    "map_of (permits L) h = None \<Longrightarrow>
      \<exists>r. map_of (permits L') h = Some r \<and> p_lane r = PermitLane_as_str lane
        \<and> p_attempt_token r = tok \<and> p_state r = PermitState_as_str st"
    "h' \<noteq> h \<Longrightarrow> map_of (permits L') h' = map_of (permits L) h'"
  using assms by (auto simp: insert_permit_def split: if_splits option.splits)

lemma coherent_grant:
  assumes "coherent L" "insert_permit h lane st now gen pid tok L = Inr L1"
    and "map_of (permits L) h = None"
    and "map_of (permit_demands L) h = Some d" "q_lane d = PermitLane_as_str lane"
  shows "coherent (put_demand_state h Granted now' (\<lambda>_. True) L1)"
proof (rule coherentI [OF assms(1)])
  note sel = insert_permit_sel [OF assms(2)]
  show "same_but h L (put_demand_state h Granted now' (\<lambda>_. True) L1)"
    using sel by (simp add: same_but_def)
  show "coherent_rows (map_of (permits (put_demand_state h Granted now' (\<lambda>_. True) L1)) h)
      (map_of (permit_demands (put_demand_state h Granted now' (\<lambda>_. True) L1)) h)"
    using sel(1) sel(5) [OF assms(3)] assms(4,5) by auto
qed

lemma coherent_acquire_attempt_with_token:
  assumes "coherent L"
  shows "coherent (snd (acquire_attempt_with_token env h lane st gen pid staged L))"
proof (cases "acquire_attempt_with_token env h lane st gen pid staged L")
  case (Pair r L')
  then have "coherent L'"
  proof (cases rule: acquire_attempt_with_token_cases)
    case (committed dm L1 n a)
    let ?M = "revive_demand h (d_state dm) (unix_now env) L1"
    have p1: "map_of (permits L1) h = None"
      using committed(2,5) by (simp add: ensure_demand_tx_sel(1))
    have L1: "coherent L1" using coherent_ensure_demand_tx [OF committed(5) assms] by simp
    then have M: "coherent ?M" using p1 by (rule coherent_revive_demand)
    obtain d where "map_of (permit_demands L1) h = Some d" "q_lane d = PermitLane_as_str lane"
      using committed(5) by (rule ensure_demand_tx_row)
    then obtain d' where d': "map_of (permit_demands ?M) h = Some d'" "q_lane d' = PermitLane_as_str lane"
      by simp
    from committed(8) show ?thesis
      by (cases rule: grant_tx_CommitE) (use M p1 d' in \<open>auto intro!: coherent_grant\<close>)
  qed (use assms in simp)
  then show ?thesis by (simp add: Pair)
qed

lemma coherent_adopt_for_redelivery:
  assumes "coherent L"
  shows "coherent (snd (adopt_for_redelivery env h lane st gen pid alive L))"
proof (cases "adopt_for_redelivery env h lane st gen pid alive L")
  case (Pair r L')
  then have "coherent L'"
  proof (cases rule: adopt_for_redelivery_CommitE)
    case (adopted row)
    let ?M = "L\<lparr>permits := tbl_update h (\<lambda>_. True)
      (adopt_row st (i64_try_from_u64 (unix_now env)) gen pid (new_uuid env)) (permits L)\<rparr>"
    have "coherent ?M" using assms by (rule coherent_permits_update) simp
    then show ?thesis using grant_demand_tx_held [OF adopted(6)] adopted(3) by simp
  qed (use assms in simp)
  then show ?thesis by (simp add: Pair)
qed

lemma coherent_rotate_scaleset:
  assumes "coherent L"
  shows "coherent (snd (rotate_scaleset_attempt_for_recovery env h st gen pp pt target claim L))"
proof (cases "rotate_scaleset_attempt_for_recovery env h st gen pp pt target claim L")
  case (Pair r L')
  then have "coherent L'"
  proof (cases rule: rotate_scaleset_CommitE)
    case (rotated row)
    let ?M = "L\<lparr>permits := tbl_update h (rotate_cond pp row) (rotate_row st
      (i64_try_from_u64 (unix_now env)) gen (process_id env) target claim pp pt) (permits L)\<rparr>"
    have "coherent ?M" using assms by (rule coherent_permits_update) simp
    then show ?thesis
      using grant_demand_tx_held [OF rotate_cas_tx_CommitD(7) [OF rotated(9)]] rotated(5) by simp
  qed (use assms in simp)
  then show ?thesis by (simp add: Pair)
qed

lemma coherent_transition_for_attempt:
  "coherent L \<Longrightarrow> coherent (snd (transition_for_attempt env h st gen tok L))"
  unfolding transition_for_attempt_def
  by (rule coherent_run_tx) (auto simp: try_tx_Commit split: if_splits intro!: coherent_permits_update)

lemma coherent_claim_recorded_terminal_cleanup:
  assumes "coherent L"
  shows "coherent (snd (claim_recorded_terminal_cleanup env h lane tok L))"
proof -
  have "coherent L'" if "cleanup_present_tx env h lane tok r L = Commit a L'" for r a L'
    using that assms unfolding cleanup_present_tx_def
    by (auto simp: try_tx_Commit split: if_splits intro!: coherent_permits_update)
  moreover have "coherent L'"
    if "cleanup_absent_tx env h lane tok L = Commit a L'" "map_of (permits L) h = None" for a L'
    using that(1)
  proof (cases rule: cleanup_absent_tx_CommitE)
    case (closed dm cr)
    then show ?thesis using assms by auto
  next
    case (opened dm L1)
    have "coherent L1" using coherent_ensure_demand_tx [OF opened(2) assms] by simp
    then show ?thesis
      using opened(3) ensure_demand_tx_sel(1) [OF opened(2)] that(2)
      by (auto intro: coherent_put_demand_state)
  qed
  ultimately show ?thesis
    using assms unfolding claim_recorded_terminal_cleanup_def
    by (auto split: option.splits intro!: coherent_run_tx)
qed

text \<open>Deleting the permit together with a demand update that no granted row escapes.\<close>

lemma map_of_delete_permit:
  assumes "distinct (map fst (permits L))"
  shows "map_of (permits (delete_permit h tok L)) h =
    (case map_of (permits L) h of
       Some r \<Rightarrow> if p_attempt_token r = tok then None else Some r | None \<Rightarrow> None)"
  using assms by (simp add: delete_permit_def map_of_tbl_delete split: option.splits)

lemma map_of_delete_permit_other [simp]:
  "h' \<noteq> h \<Longrightarrow> map_of (permits (delete_permit h tok L)) h' = map_of (permits L) h'"
  by (simp add: delete_permit_def)

lemma coherent_release:
  assumes "coherent L" "ledger_wf L" "map_of (permits L) h = Some row" "p_attempt_token row = tok"
    and "st \<noteq> Granted" "\<And>d. demand_in {Granted} d \<Longrightarrow> c d"
  shows "coherent (put_demand_state h st now c (delete_permit h tok L))"
proof (rule coherentI [OF assms(1)])
  show "same_but h L (put_demand_state h st now c (delete_permit h tok L))"
    by (simp add: same_but_def)
  have "map_of (permits (delete_permit h tok L)) h = None"
    using assms(2-4) by (simp add: map_of_delete_permit ledger_wf_distinct)
  then show "coherent_rows (map_of (permits (put_demand_state h st now c (delete_permit h tok L))) h)
      (map_of (permit_demands (put_demand_state h st now c (delete_permit h tok L))) h)"
    using coherentD [OF assms(1), of h] assms(3,5,6) by (cases "map_of (permit_demands L) h") auto
qed

lemma delete_permit_unmatched:
  "tbl_matches h (\<lambda>r. p_attempt_token r = tok) (permits L) = 0 \<Longrightarrow> delete_permit h tok L = L"
  by (simp add: tbl_matches_def delete_permit_def tbl_delete_def filter_empty_conv filter_id_conv
      case_prod_unfold)

lemma release_with_demand_state_cases:
  assumes "release_with_demand_state env h next tok L = (r, L')" "ledger_wf L"
  obtains (absent) "r = Inr False" "L' = L"
      "\<And>row. map_of (permits L) h = Some row \<Longrightarrow> p_attempt_token row \<noteq> tok"
    | (released) row where "r = Inr True" "map_of (permits L) h = Some row" "p_attempt_token row = tok"
      "L' = (let now = i64_try_from_u64 (unix_now env); L1 = delete_permit h tok L in
         case next of
           Terminal \<Rightarrow> put_demand_state h next now (\<lambda>_. True) L1
         | Cancelled \<Rightarrow> put_demand_state h next now (\<lambda>_. True) L1
         | Eligible \<Rightarrow> put_demand_state h Eligible now (demand_in {Eligible, Granted}) L1
         | Granted \<Rightarrow> L1 | Waiting \<Rightarrow> L1)"
proof (cases "tbl_matches h (\<lambda>r. p_attempt_token r = tok) (permits L) = 0")
  case True
  have "p_attempt_token row \<noteq> tok" if "map_of (permits L) h = Some row" for row
    using True that assms(2) by (auto simp: tbl_matches_map_of ledger_wf_distinct)
  then show thesis
    using True assms(1) delete_permit_unmatched [OF True]
    by (intro absent) (auto simp: release_with_demand_state_def Let_def)
next
  case False
  then obtain row where "map_of (permits L) h = Some row" "p_attempt_token row = tok"
    using assms(2) by (auto simp: tbl_matches_map_of ledger_wf_distinct split: option.splits if_splits)
  then show thesis
    using False assms(1) by (intro released) (auto simp: release_with_demand_state_def Let_def)
qed

lemma coherent_release_with_demand_state:
  assumes "coherent L" "ledger_wf L" "next \<in> {Terminal, Cancelled, Eligible}"
  shows "coherent (snd (release_with_demand_state env h next tok L))"
proof (cases "release_with_demand_state env h next tok L")
  case (Pair r L')
  then have "coherent L'"
    using assms(2)
  proof (cases rule: release_with_demand_state_cases)
    case (released row)
    then show ?thesis using assms
      by (auto simp: Let_def demand_in_def intro!: coherent_release)
  qed (use assms in simp)
  then show ?thesis by (simp add: Pair)
qed

lemma coherent_release_scaleset_staged_owned:
  assumes "coherent L" "ledger_wf L"
  shows "coherent (snd (release_scaleset_staged_owned env h tok next L))"
proof (cases "release_scaleset_staged_owned env h tok next L")
  case (Pair r L')
  then have "coherent L'"
    by (cases rule: release_scaleset_cases) (use assms in \<open>auto intro!: coherent_release\<close>)
  then show ?thesis by (simp add: Pair)
qed

lemma release_native_disj:
  assumes "release_native_owned_with_terminal_demand env h tok next L = (r, L')"
  shows "(\<exists>e. r = Inl e) \<and> L' = L
    \<or> (r = Inr AlreadyAbsent \<or> r = Inr OwnedReleaseOutcome.StaleAttempt)
      \<and> L' = delete_cleanup_release h tok L
      \<and> (\<forall>row. map_of (permits L) h = Some row \<longrightarrow> p_attempt_token row \<noteq> tok)
    \<or> (\<exists>row dm L1. r = Inr Released \<and> map_of (permits L) h = Some row \<and> p_attempt_token row = tok
        \<and> p_lane row = PermitLane_as_str Native
        \<and> ensure_demand_tx h Native [] (unix_now env) (unix_now env) next L = Inr (dm, L1)
        \<and> L' = delete_cleanup_release h tok
            (put_demand_state h next (i64_try_from_u64 (unix_now env)) (\<lambda>_. True)
              (delete_permit h tok L1)))"
proof (cases "map_of (permits L) h")
  case None
  then show ?thesis
    using assms unfolding release_native_owned_with_terminal_demand_def native_absent_tx_def Let_def
    by (cases "read_demand L h")
      (auto simp: check_demand_lane_def split: option.split_asm if_split_asm)
next
  case (Some row)
  then show ?thesis
    using assms unfolding release_native_owned_with_terminal_demand_def Let_def
    by (cases "ensure_demand_tx h Native [] (unix_now env) (unix_now env) next L")
      (auto split: if_split_asm prod.split_asm)
qed

lemma release_native_cases:
  assumes "release_native_owned_with_terminal_demand env h tok next L = (r, L')"
  obtains (failed) e where "r = Inl e" "L' = L"
    | (unowned) "r = Inr AlreadyAbsent \<or> r = Inr OwnedReleaseOutcome.StaleAttempt"
      "L' = delete_cleanup_release h tok L"
      "\<And>row. map_of (permits L) h = Some row \<Longrightarrow> p_attempt_token row \<noteq> tok"
    | (released) row dm L1 where "r = Inr Released" "map_of (permits L) h = Some row"
      "p_attempt_token row = tok" "p_lane row = PermitLane_as_str Native"
      "ensure_demand_tx h Native [] (unix_now env) (unix_now env) next L = Inr (dm, L1)"
      "L' = delete_cleanup_release h tok
         (put_demand_state h next (i64_try_from_u64 (unix_now env)) (\<lambda>_. True)
           (delete_permit h tok L1))"
  using release_native_disj [OF assms] by blast

lemma coherent_release_native:
  assumes "coherent L" "ledger_wf L" "next \<noteq> Granted"
  shows "coherent (snd (release_native_owned_with_terminal_demand env h tok next L))"
proof (cases "release_native_owned_with_terminal_demand env h tok next L")
  case (Pair r L')
  then have "coherent L'"
  proof (cases rule: release_native_cases)
    case (released row dm L1)
    have "coherent L1" using coherent_ensure_demand_tx [OF released(5) assms(1)] released(2) by simp
    moreover have "ledger_wf L1" using wf_ensure_demand_tx [OF released(5) assms(2)] .
    moreover have "map_of (permits L1) h = Some row"
      using ensure_demand_tx_sel(1) [OF released(5)] released(2) by simp
    ultimately show ?thesis using released(3,6) assms(3) by (simp add: coherent_release)
  qed (use assms in simp_all)
  then show ?thesis by (simp add: Pair)
qed

lemma read_owned_attempt_state_Inr:
  "read_owned_attempt_state L h tok = Inr s \<longleftrightarrow>
     (\<exists>r. map_of (permits L) h = Some r \<and> p_attempt_token r = tok \<and> s = p_state r)"
  by (auto simp: read_owned_attempt_state_def split: option.splits if_splits)

lemma coherent_retain_terminal:
  assumes "coherent L" "map_of (permits L) h \<noteq> None" "\<And>r. p_lane (f r) = p_lane r"
  shows "coherent (put_demand_state h Terminal now c' (L\<lparr>permits := tbl_update h c f (permits L)\<rparr>))"
  using assms by (intro coherent_put_demand_state coherent_permits_update) auto

lemma coherent_retain_uncertain_for_attempt:
  "coherent L \<Longrightarrow> coherent (snd (retain_uncertain_for_attempt env h gen tok L))"
  unfolding retain_uncertain_for_attempt_def
  by (rule coherent_run_tx)
    (auto simp: try_tx_Commit Let_def read_owned_attempt_state_Inr split: if_splits
      intro!: coherent_retain_terminal)

lemma coherent_retain_recorded_failure:
  "coherent L \<Longrightarrow> coherent (snd (retain_recorded_failure_uncertain_owned env h gen tok L))"
  unfolding retain_recorded_failure_uncertain_owned_def
  by (rule coherent_run_tx)
    (auto simp: try_tx_Commit Let_def read_owned_attempt_state_Inr split: if_splits
      intro!: coherent_retain_terminal)

lemma retain_after_cleanup_disj:
  assumes "retain_uncertain_after_cleanup_owned env h tok L = (r, L')"
  shows "(\<exists>e. r = Inl e) \<and> L' = L \<or>
    (\<exists>row dm L1. r = Inr () \<and> map_of (permits L) h = Some row \<and> p_attempt_token row = tok
      \<and> p_lane row = PermitLane_as_str Native \<and> tok \<noteq> []
      \<and> ensure_demand_tx h Native [] (unix_now env) (unix_now env) Granted
          (L\<lparr>permits := tbl_update h (\<lambda>r. p_attempt_token r = tok)
             (\<lambda>r. r\<lparr>p_state := PermitState_as_str Uncertain,
                    p_updated_unix := i64_try_from_u64 (unix_now env),
                    p_generation := meta_generation L,
                    p_pid := Some (uint (process_id env))\<rparr>) (permits L)\<rparr>) = Inr (dm, L1)
      \<and> L' = put_demand_state h Terminal (i64_try_from_u64 (unix_now env))
               (\<lambda>d. q_state d \<noteq> DemandState_as_str Cancelled) L1)"
proof (cases "ensure_demand_tx h Native [] (unix_now env) (unix_now env) Granted
    (L\<lparr>permits := tbl_update h (\<lambda>r. p_attempt_token r = tok)
       (\<lambda>r. r\<lparr>p_state := PermitState_as_str Uncertain,
              p_updated_unix := i64_try_from_u64 (unix_now env),
              p_generation := meta_generation L,
              p_pid := Some (uint (process_id env))\<rparr>) (permits L)\<rparr>)")
  case (Inl e)
  then show ?thesis
    using assms unfolding retain_uncertain_after_cleanup_owned_def Let_def
    by (auto split: if_split_asm option.split_asm)
next
  case (Inr p)
  then show ?thesis
    using assms unfolding retain_uncertain_after_cleanup_owned_def Let_def
    by (cases p) (auto split: if_split_asm option.split_asm)
qed

lemma coherent_retain_uncertain_after_cleanup_owned:
  assumes "coherent L"
  shows "coherent (snd (retain_uncertain_after_cleanup_owned env h tok L))"
proof (cases "retain_uncertain_after_cleanup_owned env h tok L")
  case (Pair r L')
  from retain_after_cleanup_disj [OF Pair] have "coherent L'"
  proof (elim disjE exE conjE)
    fix row dm L1
    let ?M = "L\<lparr>permits := tbl_update h (\<lambda>r. p_attempt_token r = tok)
       (\<lambda>r. r\<lparr>p_state := PermitState_as_str Uncertain,
              p_updated_unix := i64_try_from_u64 (unix_now env),
              p_generation := meta_generation L,
              p_pid := Some (uint (process_id env))\<rparr>) (permits L)\<rparr>"
    assume row: "map_of (permits L) h = Some row"
      and en: "ensure_demand_tx h Native [] (unix_now env) (unix_now env) Granted ?M = Inr (dm, L1)"
      and L': "L' = put_demand_state h Terminal (i64_try_from_u64 (unix_now env))
                      (\<lambda>d. q_state d \<noteq> DemandState_as_str Cancelled) L1"
    have "coherent ?M" using assms by (rule coherent_permits_update) simp
    then have "coherent L1" using coherent_ensure_demand_tx [OF en] row by simp
    then show "coherent L'"
      unfolding L' using row ensure_demand_tx_sel(1) [OF en] by (intro coherent_put_demand_state) auto
  qed (use assms in simp)
  then show ?thesis by (simp add: Pair)
qed

end
