(* ===== verification/Ledger_Calls.thy ===== *)
theory Ledger_Calls
  imports Ledger_Coherence
begin

text \<open>
  The ledger as the processes of a host use it.  Every mutating method of \<open>PermitLedger\<close> is one
  constructor of \<open>LedgerCall\<close>; since each runs in one immediate transaction, an execution of any
  number of processes is a sequence of calls, each with the surroundings (\<open>Env\<close>) of the process
  that issued it.
\<close>

section \<open>Calls\<close>

datatype LedgerCall =
    Claim_Recovery "u32 \<Rightarrow> bool"
  | Release_Recovery ScaleSetRecoveryClaim
  | Set_Max_Jobs u32
  | Set_Max_Jobs_If_Unset u32
  | Begin_Epoch
  | Observe_Demand string PermitLane string u64 u64
  | Park_Demand string
  | Cancel_Demand string
  | Acquire string PermitLane PermitState u64 "u32 option"
  | Acquire_ScaleSet string PermitState u64 "u32 option" string
  | Adopt string PermitLane PermitState u64 u32 "u32 \<Rightarrow> bool"
  | Rotate string PermitState u64 u32 "string option" string string
  | Transition string PermitState u64 string
  | Claim_Cleanup string PermitLane string
  | Release_Terminal string string
  | Release_Eligible string string
  | Release_Cancelled string string
  | Release_ScaleSet_Staged string string DemandState
  | Release_Native_Terminal string string
  | Release_Native_Cancelled string string
  | Retain_Uncertain string u64 string
  | Retain_After_Cleanup string string
  | Retain_Recorded_Failure string u64 string
  | Reconcile "(string \<times> PermitLane \<times> string) list"
      "(string \<times> PermitLane \<times> string option \<times> string) list"
      "(string \<times> PermitLane \<times> string \<times> DemandState) list"
      "(string \<times> PermitLane \<times> string) list"

primrec apply_call :: "Env \<Rightarrow> LedgerCall \<Rightarrow> PermitLedger \<Rightarrow> PermitLedger" where
  "apply_call env (Claim_Recovery alive) L = snd (claim_scaleset_recovery env alive L)"
| "apply_call env (Release_Recovery c) L = snd (claim_release c L)"
| "apply_call env (Set_Max_Jobs n) L = snd (set_max_jobs n L)"
| "apply_call env (Set_Max_Jobs_If_Unset n) L = snd (set_max_jobs_if_unset n L)"
| "apply_call env Begin_Epoch L = snd (begin_epoch L)"
| "apply_call env (Observe_Demand h lane sc fs ob) L = snd (observe_demand h lane sc fs ob L)"
| "apply_call env (Park_Demand h) L = snd (park_demand env h L)"
| "apply_call env (Cancel_Demand h) L = snd (cancel_demand env h L)"
| "apply_call env (Acquire h lane st gen pid) L = snd (acquire_attempt env h lane st gen pid L)"
| "apply_call env (Acquire_ScaleSet h st gen pid tok) L =
     snd (acquire_scaleset_attempt_with_token env h st gen pid tok L)"
| "apply_call env (Adopt h lane st gen pid alive) L =
     snd (adopt_for_redelivery env h lane st gen pid alive L)"
| "apply_call env (Rotate h st gen pp pt target claim) L =
     snd (rotate_scaleset_attempt_for_recovery env h st gen pp pt target claim L)"
| "apply_call env (Transition h st gen tok) L = snd (transition_owned env h st gen tok L)"
| "apply_call env (Claim_Cleanup h lane tok) L =
     snd (claim_recorded_terminal_cleanup env h lane tok L)"
| "apply_call env (Release_Terminal h tok) L = snd (release_owned env h tok L)"
| "apply_call env (Release_Eligible h tok) L = snd (release_to_eligible_owned env h tok L)"
| "apply_call env (Release_Cancelled h tok) L = snd (release_cancelled_owned env h tok L)"
| "apply_call env (Release_ScaleSet_Staged h tok nxt) L =
     snd (release_scaleset_staged_owned env h tok nxt L)"
| "apply_call env (Release_Native_Terminal h tok) L =
     snd (release_native_terminal_owned env h tok L)"
| "apply_call env (Release_Native_Cancelled h tok) L =
     snd (release_native_cancelled_owned env h tok L)"
| "apply_call env (Retain_Uncertain h gen tok) L = snd (retain_uncertain_owned env h gen tok L)"
| "apply_call env (Retain_After_Cleanup h tok) L =
     snd (retain_uncertain_after_cleanup_owned env h tok L)"
| "apply_call env (Retain_Recorded_Failure h gen tok) L =
     snd (retain_recorded_failure_uncertain_owned env h gen tok L)"
| "apply_call env (Reconcile al ro re ac) L =
     snd (reconcile_attempts_with_staged_acquisitions env al ro re ac L)"

primrec run_calls :: "(Env \<times> LedgerCall) list \<Rightarrow> PermitLedger \<Rightarrow> PermitLedger" where
  "run_calls [] L = L"
| "run_calls (c # cs) L = run_calls cs (apply_call (fst c) (snd c) L)"

text \<open>The ledger \<open>open\<close> creates on an empty disk.\<close>

definition empty_ledger :: PermitLedger where
  "empty_ledger = \<lparr>meta_max_jobs = None, meta_generation = 0, meta_reconciled_generation = -1,
     permits = [], permit_demands = [], token_migrations = [], recovery_claims = None,
     cleanup_releases = []\<rparr>"

text \<open>What the calls rely on of \<open>Uuid::new_v4().to_string()\<close>: it is not empty.\<close>

definition uuids_ok :: "(Env \<times> LedgerCall) list \<Rightarrow> bool" where
  "uuids_ok cs \<longleftrightarrow> (\<forall>(env, c) \<in> set cs. new_uuid env \<noteq> [])"

lemma uuids_ok_simps [simp]:
  "uuids_ok []" "uuids_ok (c # cs) \<longleftrightarrow> new_uuid (fst c) \<noteq> [] \<and> uuids_ok cs"
  by (auto simp: uuids_ok_def)

text \<open>An invariant of the calls is an invariant of every execution.\<close>

lemma run_calls_keeps:
  assumes "P L" "uuids_ok cs"
    and "\<And>env c M. (env, c) \<in> set cs \<Longrightarrow> new_uuid env \<noteq> [] \<Longrightarrow> P M \<Longrightarrow> P (apply_call env c M)"
  shows "P (run_calls cs L)"
  using assms
proof (induction cs arbitrary: L)
  case Nil
  then show ?case by simp
next
  case (Cons c cs)
  have "P (apply_call (fst c) (snd c) L)" using Cons.prems by (cases c) auto
  then show ?case using Cons.prems by (auto intro!: Cons.IH)
qed

section \<open>Well-formedness and coherence of every execution\<close>

lemma wf_apply_call:
  assumes "ledger_wf L" "new_uuid env \<noteq> []" shows "ledger_wf (apply_call env c L)"
  using assms
  by (cases c)
    (simp_all add: wf_claim_scaleset_recovery wf_claim_release wf_set_max_jobs
      wf_set_max_jobs_if_unset wf_begin_epoch wf_observe_demand wf_park_demand wf_cancel_demand
      wf_acquire_attempt wf_acquire_scaleset_attempt_with_token wf_adopt_for_redelivery
      wf_rotate_scaleset transition_owned_def wf_transition_for_attempt
      wf_claim_recorded_terminal_cleanup release_owned_def release_to_eligible_owned_def
      release_cancelled_owned_def wf_release_with_demand_state wf_release_scaleset_staged_owned
      release_native_terminal_owned_def release_native_cancelled_owned_def wf_release_native
      retain_uncertain_owned_def wf_retain_uncertain_for_attempt
      wf_retain_uncertain_after_cleanup_owned wf_retain_recorded_failure wf_reconcile)

lemma coherent_acquire_scaleset:
  "coherent L \<Longrightarrow> coherent (snd (acquire_scaleset_attempt_with_token env h st gen pid tok L))"
  by (simp add: acquire_scaleset_attempt_with_token_def coherent_acquire_attempt_with_token)

lemma coherent_apply_call:
  assumes "ledger_wf L" "coherent L" shows "coherent (apply_call env c L)"
  using assms
  by (cases c)
    (simp_all add: coherent_claim_scaleset_recovery coherent_claim_release coherent_configuration
      coherent_observe_demand coherent_park_demand coherent_cancel_demand acquire_attempt_def
      coherent_acquire_attempt_with_token coherent_acquire_scaleset coherent_adopt_for_redelivery
      coherent_rotate_scaleset transition_owned_def coherent_transition_for_attempt
      coherent_claim_recorded_terminal_cleanup release_owned_def release_to_eligible_owned_def
      release_cancelled_owned_def coherent_release_with_demand_state
      coherent_release_scaleset_staged_owned release_native_terminal_owned_def
      release_native_cancelled_owned_def coherent_release_native retain_uncertain_owned_def
      coherent_retain_uncertain_for_attempt coherent_retain_uncertain_after_cleanup_owned
      coherent_retain_recorded_failure coherent_reconcile)

lemma empty_ledger_ok: "ledger_wf empty_ledger" "coherent empty_ledger"
  by (simp_all add: empty_ledger_def ledger_wf_def coherent_def coherent_at_def)

lemma run_calls_ok:
  assumes "uuids_ok cs" "ledger_wf L" "coherent L"
  shows "ledger_wf (run_calls cs L) \<and> coherent (run_calls cs L)"
  by (rule run_calls_keeps [where P = "\<lambda>M. ledger_wf M \<and> coherent M"])
    (use assms wf_apply_call coherent_apply_call in auto)

end
