(* ===== verification/Ledger_Registry.thy ===== *)
theory Ledger_Registry
  imports Ledger_Calls
begin

text \<open>
  The contract of the ledger as a registry of owners, and the refinement.

  Abstractly the ledger is a map from holders to owner tokens with a limit.  A step may grant a
  free holder a new token when fewer than \<open>limit\<close> holders own one, release one holder, exchange
  one holder's token for a token nobody else owns, or leave the map alone.  The locale
  \<open>permit_registry\<close> proves the counting facts from such a simulation; its interpretation shows that
  every call of the ledger is such a step.
\<close>

section \<open>The specification\<close>

type_synonym registry = "string \<Rightarrow> string option"

inductive registry_step :: "nat \<Rightarrow> registry \<Rightarrow> registry \<Rightarrow> bool" for limit where
  keep: "registry_step limit m m"
| grant: "m h = None \<Longrightarrow> card (dom m) < limit \<Longrightarrow> t \<notin> ran m \<Longrightarrow> registry_step limit m (m(h \<mapsto> t))"
| release: "m h = Some t \<Longrightarrow> registry_step limit m (m(h := None))"
| retoken: "m h = Some t \<Longrightarrow> t' \<notin> ran (m(h := None)) \<Longrightarrow> registry_step limit m (m(h \<mapsto> t'))"

definition owned_once :: "registry \<Rightarrow> bool" where
  "owned_once m \<longleftrightarrow> (\<forall>h h' t. m h = Some t \<longrightarrow> m h' = Some t \<longrightarrow> h = h')"

lemma owned_once_step:
  assumes "registry_step n m m'" "owned_once m" shows "owned_once m'"
  using assms
proof (induction rule: registry_step.induct)
  case (grant m h t)
  then show ?case by (auto simp: owned_once_def ran_def)
next
  case (release m h t)
  then show ?case by (auto simp: owned_once_def split: if_splits)
next
  case (retoken m h t t')
  then show ?case unfolding owned_once_def ran_def by (auto split: if_splits)
qed simp

lemma card_step:
  assumes "registry_step n m m'" "finite (dom m)"
  shows "finite (dom m') \<and> card (dom m') \<le> max (card (dom m)) n"
  using assms
proof (cases rule: registry_step.cases)
  case (grant h t)
  then have "dom m' = insert h (dom m)" by auto
  then show ?thesis using assms(2) grant by (auto simp: card_insert_if)
next
  case (release h t)
  then have "dom m' = dom m - {h}" by auto
  then show ?thesis using assms(2) by (auto intro: card_Diff1_le le_trans)
next
  case (retoken h t t')
  then have "dom m' = dom m" by auto
  then show ?thesis using assms(2) by simp
qed simp

locale permit_registry =
  fixes owners_of :: "'s \<Rightarrow> registry" and limit_of :: "'s \<Rightarrow> nat"
    and step :: "'s \<Rightarrow> 's \<Rightarrow> bool" and inv :: "'s \<Rightarrow> bool"
  assumes inv_step: "inv s \<Longrightarrow> step s s' \<Longrightarrow> inv s'"
    and finite_owners: "inv s \<Longrightarrow> finite (dom (owners_of s))"
    and owned_once_inv: "inv s \<Longrightarrow> owned_once (owners_of s)"
    and simulation: "inv s \<Longrightarrow> step s s' \<Longrightarrow> registry_step (limit_of s) (owners_of s) (owners_of s')"
begin

lemma inv_steps: "step\<^sup>*\<^sup>* s s' \<Longrightarrow> inv s \<Longrightarrow> inv s'"
  by (induction rule: rtranclp_induct) (auto intro: inv_step)

lemma occupancy_step:
  "inv s \<Longrightarrow> step s s' \<Longrightarrow> card (dom (owners_of s')) \<le> max (card (dom (owners_of s))) (limit_of s)"
  using card_step [OF simulation] finite_owners by blast

text \<open>With limits that never exceed \<open>n\<close>, the number of owners never exceeds \<open>n\<close>.\<close>

lemma occupancy_bound:
  assumes "(\<lambda>a b. step a b \<and> limit_of a \<le> n)\<^sup>*\<^sup>* s s'" "inv s" "card (dom (owners_of s)) \<le> n"
  shows "inv s' \<and> card (dom (owners_of s')) \<le> n"
  using assms
proof (induction rule: rtranclp_induct)
  case base
  then show ?case by simp
next
  case (step a b)
  then have a: "inv a" "card (dom (owners_of a)) \<le> n" by auto
  have "card (dom (owners_of b)) \<le> max (card (dom (owners_of a))) (limit_of a)"
    using a(1) step.hyps(2) by (auto intro: occupancy_step)
  moreover have "inv b" using a(1) step.hyps(2) by (auto intro: inv_step)
  ultimately show ?case using a(2) step.hyps(2) by auto
qed

end

section \<open>The ledger's owners\<close>

definition owners :: "PermitLedger \<Rightarrow> registry" where
  "owners L h = map_option p_attempt_token (map_of (permits L) h)"

definition limit :: "PermitLedger \<Rightarrow> nat" where
  "limit L = (case max_jobs L of Some n \<Rightarrow> unat n | None \<Rightarrow> 0)"

lemma dom_owners: "dom (owners L) = fst ` set (permits L)"
proof -
  have "dom (owners L) = dom (map_of (permits L))" by (auto simp: owners_def dom_def)
  then show ?thesis by (simp add: dom_map_of_conv_image_fst)
qed

lemma card_dom_owners: "ledger_wf L \<Longrightarrow> card (dom (owners L)) = length (permits L)"
  using distinct_card [of "map fst (permits L)"] by (simp add: dom_owners ledger_wf_distinct)

lemma owners_permits_cong: "permits L' = permits L \<Longrightarrow> owners L' = owners L"
  by (rule ext) (simp add: owners_def)

lemma owners_sel [simp]:
  "owners (put_demand_state h st now c L) = owners L"
  "owners (touch_demand h now L) = owners L"
  "owners (revive_demand h st' now' L) = owners L"
  "owners (delete_cleanup_release h tok L) = owners L"
  "owners (L\<lparr>recovery_claims := rc\<rparr>) = owners L"
  "owners (L\<lparr>meta_max_jobs := mj\<rparr>) = owners L"
  "owners (L\<lparr>meta_generation := g\<rparr>) = owners L"
  "owners (L\<lparr>meta_reconciled_generation := rg\<rparr>) = owners L"
  "owners (L\<lparr>cleanup_releases := cr\<rparr>) = owners L"
  "owners (L\<lparr>permit_demands := ds\<rparr>) = owners L"
  unfolding owners_def [abs_def] by simp_all

lemma owners_update_same:
  assumes "\<And>r. p_attempt_token (f r) = p_attempt_token r"
  shows "owners (L\<lparr>permits := tbl_update h c f (permits L)\<rparr>) = owners L"
  by (rule ext) (auto simp: owners_def assms option.map_comp comp_def intro!: option.map_cong)

lemma owners_mark_uncertain [simp]: "owners (mark_uncertain h now L) = owners L"
  unfolding mark_uncertain_def by (rule owners_update_same) simp

lemma owners_retoken:
  assumes "map_of (permits L) h = Some r" "c r" "\<And>r. p_attempt_token (f r) = t"
  shows "owners (L\<lparr>permits := tbl_update h c f (permits L)\<rparr>) = (owners L)(h \<mapsto> t)"
  by (rule ext) (auto simp: owners_def assms)

lemma owners_delete_permit:
  assumes "ledger_wf L"
  shows "owners (delete_permit h tok L) =
    (if owners L h = Some tok then (owners L)(h := None) else owners L)"
  by (rule ext)
    (auto simp: owners_def map_of_delete_permit ledger_wf_distinct assms split: option.splits)

lemma owned_once_owners:
  assumes "ledger_wf L" shows "owned_once (owners L)"
proof -
  have inj: "inj_on (\<lambda>x. p_attempt_token (snd x)) (set (permits L))"
    using assms by (simp add: ledger_wf_def distinct_map)
  show ?thesis
    unfolding owned_once_def
  proof (intro allI impI)
    fix h h' t assume "owners L h = Some t" "owners L h' = Some t"
    then obtain r r' where "(h, r) \<in> set (permits L)" "(h', r') \<in> set (permits L)"
      "p_attempt_token r = t" "p_attempt_token r' = t"
      by (auto simp: owners_def dest!: map_of_in_set)
    then show "h = h'" using inj_onD [OF inj, of "(h, r)" "(h', r')"] by simp
  qed
qed

lemma token_taken_ran:
  assumes "\<not> token_taken h t L" shows "t \<notin> ran ((owners L)(h := None))"
proof
  assume "t \<in> ran ((owners L)(h := None))"
  then obtain h' where "h' \<noteq> h" "owners L h' = Some t" by (auto simp: ran_def split: if_splits)
  then obtain r where "(h', r) \<in> set (permits L)" "p_attempt_token r = t"
    by (auto simp: owners_def dest!: map_of_in_set)
  then show False using assms \<open>h' \<noteq> h\<close> by (auto simp: token_taken_def)
qed

section \<open>Every call is a step of the registry\<close>

abbreviation lstep :: "PermitLedger \<Rightarrow> PermitLedger \<Rightarrow> bool" where
  "lstep L L' \<equiv> registry_step (limit L) (owners L) (owners L')"

lemma lstep_same: "owners L' = owners L \<Longrightarrow> lstep L L'"
  using registry_step.keep [of "limit L" "owners L"] by simp

lemma lstep_release:
  assumes "ledger_wf L" "map_of (permits L) h = Some row" "p_attempt_token row = tok"
    and "owners L' = owners (delete_permit h tok L)"
  shows "lstep L L'"
proof -
  have "owners L h = Some tok" using assms(2,3) by (simp add: owners_def)
  then have "owners L' = (owners L)(h := None)"
    using assms(1,4) by (simp add: owners_delete_permit)
  then show ?thesis using registry_step.release [of "owners L" h tok "limit L"] \<open>owners L h = Some tok\<close>
    by simp
qed

lemma lstep_retoken:
  assumes "map_of (permits L) h = Some row" "\<not> token_taken h t L"
    and "owners L' = (owners L)(h \<mapsto> t)"
  shows "lstep L L'"
  using registry_step.retoken [of "owners L" h "p_attempt_token row" t "limit L"]
    token_taken_ran [OF assms(2)] assms(1,3) by (simp add: owners_def)

lemma owners_insert_permit:
  assumes "insert_permit h lane st now gen pid tok L = Inr L'" "map_of (permits L) h = None"
  shows "owners L' = (owners L)(h \<mapsto> tok)"
  using insert_permit_sel(5) [OF assms] insert_permit_sel(6) [OF assms(1)]
  by (auto simp: owners_def fun_eq_iff)

lemma owners_grant_demand_tx: "grant_demand_tx h lane now n L = Inr L' \<Longrightarrow> owners L' = owners L"
  using grant_demand_tx_sel(1) by (rule owners_permits_cong)

lemma owners_ensure_demand_tx:
  "ensure_demand_tx h lane sc fs up st L = Inr (dm, L') \<Longrightarrow> owners L' = owners L"
  using ensure_demand_tx_sel(1) by (rule owners_permits_cong)

lemma lstep_acquire_attempt_with_token:
  assumes "ledger_wf L"
  shows "lstep L (snd (acquire_attempt_with_token env h lane st gen pid staged L))"
proof (cases "acquire_attempt_with_token env h lane st gen pid staged L")
  case (Pair r L')
  then have "lstep L L'"
  proof (cases rule: acquire_attempt_with_token_cases)
    case (committed dm L1 n a)
    let ?M = "revive_demand h (d_state dm) (unix_now env) L1"
    have p: "permits ?M = permits L" using ensure_demand_tx_sel(1) [OF committed(5)] by simp
    then have o: "owners ?M = owners L" by (rule owners_permits_cong)
    from committed(8) show ?thesis
    proof (cases rule: grant_tx_CommitE)
      case (granted tok L2)
      have ins: "owners L' = (owners L)(h \<mapsto> tok)"
        using owners_insert_permit [OF granted(5)] granted(6) committed(2) p o by simp
      have "\<not> token_taken h tok ?M"
        using granted(5) by (auto simp: insert_permit_def split: if_splits)
      then have "tok \<notin> ran ((owners L)(h := None))" using token_taken_ran [of h tok ?M] o by simp
      moreover have h: "owners L h = None" using committed(2) by (simp add: owners_def)
      moreover have "card (dom (owners L)) < limit L"
      proof -
        have "length (permits L) < unat n"
          unfolding unat_eq_nat_uint zless_nat_eq_int_zless using granted(2) p by simp
        then show ?thesis using committed(3) card_dom_owners [OF assms] by (simp add: limit_def)
      qed
      ultimately show ?thesis
        using registry_step.grant [of "owners L" h "limit L" tok] ins fun_upd_idem [where f = "owners L", OF h] by simp
    qed (use o in \<open>simp_all add: registry_step.keep\<close>)
  qed (simp add: registry_step.keep)
  then show ?thesis by (simp add: Pair)
qed

lemma lstep_adopt_for_redelivery: "lstep L (snd (adopt_for_redelivery env h lane st gen pid alive L))"
proof (cases "adopt_for_redelivery env h lane st gen pid alive L")
  case (Pair r L')
  then have "lstep L L'"
  proof (cases rule: adopt_for_redelivery_CommitE)
    case (adopted row)
    have "owners L' = (owners L)(h \<mapsto> new_uuid env)"
      using owners_grant_demand_tx [OF adopted(6)] adopted(3) by (simp add: owners_retoken)
    then show ?thesis using adopted(3,5) by (rule lstep_retoken [rotated 2])
  qed (simp add: registry_step.keep)
  then show ?thesis by (simp add: Pair)
qed

lemma lstep_rotate_scaleset:
  assumes "ledger_wf L"
  shows "lstep L (snd (rotate_scaleset_attempt_for_recovery env h st gen pp pt target claim L))"
proof (cases "rotate_scaleset_attempt_for_recovery env h st gen pp pt target claim L")
  case (Pair r L')
  then have "lstep L L'"
  proof (cases rule: rotate_scaleset_CommitE)
    case (rotated row)
    note cas = rotate_cas_tx_CommitD [OF rotated(9)]
    have "owners L' = (owners L)(h \<mapsto> target)"
      using owners_grant_demand_tx [OF cas(7)] rotated(5,6) cas(2) by (simp add: owners_retoken)
    then show ?thesis using rotated(5) cas(5) by (rule lstep_retoken [rotated 2])
  qed (simp add: registry_step.keep)
  then show ?thesis by (simp add: Pair)
qed

lemma owners_run_tx:
  "(\<And>a L'. t = Commit a L' \<Longrightarrow> owners L' = owners L) \<Longrightarrow> owners (snd (run_tx t L)) = owners L"
  by (rule run_tx_keeps [where P = "\<lambda>M. owners M = owners L"]) simp_all

lemma owners_claim_scaleset_recovery: "owners (snd (claim_scaleset_recovery env alive L)) = owners L"
  unfolding claim_scaleset_recovery_def
  by (rule owners_run_tx) (auto split: option.splits if_splits)

lemma owners_claim_release: "owners (snd (claim_release c L)) = owners L"
  unfolding claim_release_def by (rule owners_run_tx) (auto split: if_splits)

lemma owners_configuration:
  "owners (snd (set_max_jobs n L)) = owners L"
  "owners (snd (set_max_jobs_if_unset n L)) = owners L"
  "owners (snd (begin_epoch L)) = owners L"
  by (simp_all add: set_max_jobs_def set_max_jobs_if_unset_def begin_epoch_def Let_def)

lemma owners_observe_demand: "owners (snd (observe_demand h lane sc fs ob L)) = owners L"
proof (cases "observe_demand h lane sc fs ob L")
  case (Pair r L')
  then have "owners L' = owners L"
    by (cases rule: observe_demand_cases) (auto dest: owners_ensure_demand_tx)
  then show ?thesis by (simp add: Pair)
qed

lemma owners_park_demand: "owners (snd (park_demand env h L)) = owners L"
  by (simp add: park_demand_def Let_def)

lemma owners_cancel_demand: "owners (snd (cancel_demand env h L)) = owners L"
  by (simp add: cancel_demand_def Let_def)

lemma owners_transition_for_attempt: "owners (snd (transition_for_attempt env h st gen tok L)) = owners L"
  unfolding transition_for_attempt_def
  by (rule owners_run_tx) (auto simp: try_tx_Commit owners_update_same split: if_splits)

lemma owners_claim_recorded_terminal_cleanup:
  "owners (snd (claim_recorded_terminal_cleanup env h lane tok L)) = owners L"
proof -
  have "owners L' = owners L" if "cleanup_present_tx env h lane tok r L = Commit a L'" for r a L'
    using that unfolding cleanup_present_tx_def
    by (auto simp: try_tx_Commit owners_update_same split: if_splits)
  moreover have "owners L' = owners L" if "cleanup_absent_tx env h lane tok L = Commit a L'" for a L'
    using that by (cases rule: cleanup_absent_tx_CommitE) (auto dest: owners_ensure_demand_tx)
  ultimately show ?thesis
    unfolding claim_recorded_terminal_cleanup_def
    by (auto split: option.splits intro!: owners_run_tx)
qed

lemma owners_retain_uncertain_for_attempt:
  "owners (snd (retain_uncertain_for_attempt env h gen tok L)) = owners L"
  unfolding retain_uncertain_for_attempt_def
  by (rule owners_run_tx) (auto simp: try_tx_Commit Let_def owners_update_same split: if_splits)

lemma owners_retain_recorded_failure:
  "owners (snd (retain_recorded_failure_uncertain_owned env h gen tok L)) = owners L"
  unfolding retain_recorded_failure_uncertain_owned_def
  by (rule owners_run_tx) (auto simp: try_tx_Commit Let_def owners_update_same split: if_splits)

lemma owners_retain_uncertain_after_cleanup_owned:
  "owners (snd (retain_uncertain_after_cleanup_owned env h tok L)) = owners L"
proof (cases "retain_uncertain_after_cleanup_owned env h tok L")
  case (Pair r L')
  have "owners L' = owners L"
    using retain_after_cleanup_disj [OF Pair]
    by (auto dest!: owners_ensure_demand_tx simp: owners_update_same)
  then show ?thesis by (simp add: Pair)
qed

lemma owners_recon_step: "recon_step now M M' \<Longrightarrow> owners M' = owners M"
  by (induction rule: recon_step.induct) (auto dest: owners_grant_demand_tx)

lemma owners_reconcile:
  "owners (snd (reconcile_attempts_with_staged_acquisitions env al ro re ac L)) = owners L"
  by (rule reconcile_keeps [where P = "\<lambda>M. owners M = owners L"]) (auto dest: owners_recon_step)

lemma lstep_release_with_demand_state:
  assumes "ledger_wf L" shows "lstep L (snd (release_with_demand_state env h nxt tok L))"
proof (cases "release_with_demand_state env h nxt tok L")
  case (Pair r L')
  then have "lstep L L'"
    using assms
  proof (cases rule: release_with_demand_state_cases)
    case (released row)
    then have "owners L' = owners (delete_permit h tok L)" by (cases nxt) (simp_all add: Let_def)
    then show ?thesis using assms released(2,3) by (intro lstep_release)
  qed (simp add: registry_step.keep)
  then show ?thesis by (simp add: Pair)
qed

lemma lstep_release_scaleset_staged_owned:
  assumes "ledger_wf L" shows "lstep L (snd (release_scaleset_staged_owned env h tok nxt L))"
proof (cases "release_scaleset_staged_owned env h tok nxt L")
  case (Pair r L')
  then have "lstep L L'"
  proof (cases rule: release_scaleset_cases)
    case (released row dm)
    then show ?thesis using assms by (intro lstep_release [of L h row tok]) simp_all
  qed (simp add: registry_step.keep)
  then show ?thesis by (simp add: Pair)
qed

lemma lstep_release_native:
  assumes "ledger_wf L"
  shows "lstep L (snd (release_native_owned_with_terminal_demand env h tok nxt L))"
proof (cases "release_native_owned_with_terminal_demand env h tok nxt L")
  case (Pair r L')
  then have "lstep L L'"
  proof (cases rule: release_native_cases)
    case (released row dm L1)
    have p: "permits (delete_permit h tok L1) = permits (delete_permit h tok L)"
      using ensure_demand_tx_sel(1) [OF released(5)] by (simp add: delete_permit_def)
    then have "owners L' = owners (delete_permit h tok L)"
      using released(6) owners_permits_cong [OF p] by simp
    then show ?thesis using assms released(2,3) by (intro lstep_release)
  qed (simp_all add: registry_step.keep)
  then show ?thesis by (simp add: Pair)
qed

lemmas owners_calls = owners_claim_scaleset_recovery owners_claim_release owners_configuration
  owners_observe_demand owners_park_demand owners_cancel_demand owners_transition_for_attempt
  owners_claim_recorded_terminal_cleanup owners_retain_uncertain_for_attempt
  owners_retain_recorded_failure owners_retain_uncertain_after_cleanup_owned owners_reconcile

lemmas owned_call_defs = acquire_attempt_def acquire_scaleset_attempt_with_token_def
  transition_owned_def release_owned_def release_to_eligible_owned_def release_cancelled_owned_def
  release_native_terminal_owned_def release_native_cancelled_owned_def retain_uncertain_owned_def

lemma lstep_apply_call:
  assumes "ledger_wf L" shows "lstep L (apply_call env c L)"
  using assms
  by (cases c)
    (simp_all add: owners_calls owned_call_defs registry_step.keep lstep_acquire_attempt_with_token
      lstep_adopt_for_redelivery lstep_rotate_scaleset lstep_release_with_demand_state
      lstep_release_scaleset_staged_owned lstep_release_native)

text \<open>One call of some process.\<close>

definition call_step :: "PermitLedger \<Rightarrow> PermitLedger \<Rightarrow> bool" where
  "call_step L L' \<longleftrightarrow> (\<exists>env c. new_uuid env \<noteq> [] \<and> L' = apply_call env c L)"

interpretation lreg: permit_registry owners limit call_step ledger_wf
proof
  show "ledger_wf L' " if "ledger_wf L" "call_step L L'" for L L'
    using that wf_apply_call by (auto simp: call_step_def)
  show "finite (dom (owners L))" for L by (simp add: dom_owners)
  show "owned_once (owners L)" if "ledger_wf L" for L using that by (rule owned_once_owners)
  show "registry_step (limit L) (owners L) (owners L')" if "ledger_wf L" "call_step L L'" for L L'
    using that lstep_apply_call by (auto simp: call_step_def)
qed

end
