(* ===== verification/Ledger_Demands.thy ===== *)
theory Ledger_Demands
  imports Ledger_Registry
begin

text \<open>
  What the operations leave alone: which calls can change the configuration row, and how the row
  of a demand can change over its lifetime.
\<close>

section \<open>The configuration row\<close>

definition metas :: "PermitLedger \<Rightarrow> int option \<times> int \<times> int \<times> (string \<times> int) option" where
  "metas L = (meta_max_jobs L, meta_generation L, meta_reconciled_generation L, recovery_claims L)"

lemma metas_sel [simp]:
  "metas (put_demand_state h st now c L) = metas L"
  "metas (touch_demand h now L) = metas L"
  "metas (revive_demand h st' now' L) = metas L"
  "metas (delete_permit h tok L) = metas L"
  "metas (delete_cleanup_release h tok L) = metas L"
  "metas (mark_uncertain h now L) = metas L"
  "metas (L\<lparr>permits := ps\<rparr>) = metas L"
  "metas (L\<lparr>cleanup_releases := cr\<rparr>) = metas L"
  by (simp_all add: metas_def)

lemma metas_ensure_demand_tx:
  "ensure_demand_tx h lane sc fs up st L = Inr (dm, L') \<Longrightarrow> metas L' = metas L"
  by (simp add: metas_def ensure_demand_tx_sel)

lemma metas_grant_demand_tx: "grant_demand_tx h lane now n L = Inr L' \<Longrightarrow> metas L' = metas L"
  by (simp add: metas_def grant_demand_tx_sel)

lemma metas_insert_permit: "insert_permit h lane st now gen pid tok L = Inr L' \<Longrightarrow> metas L' = metas L"
  by (auto simp: insert_permit_def split: if_splits)

lemma metas_run_tx:
  "(\<And>a L'. t = Commit a L' \<Longrightarrow> metas L' = metas L) \<Longrightarrow> metas (snd (run_tx t L)) = metas L"
  by (rule run_tx_keeps [where P = "\<lambda>M. metas M = metas L"]) simp_all

lemma metas_observe_demand: "metas (snd (observe_demand h lane sc fs ob L)) = metas L"
proof (cases "observe_demand h lane sc fs ob L")
  case (Pair r L')
  then have "metas L' = metas L"
    by (cases rule: observe_demand_cases) (auto dest: metas_ensure_demand_tx)
  then show ?thesis by (simp add: Pair)
qed

lemma metas_acquire_attempt_with_token:
  "metas (snd (acquire_attempt_with_token env h lane st gen pid staged L)) = metas L"
proof (cases "acquire_attempt_with_token env h lane st gen pid staged L")
  case (Pair r L')
  then have "metas L' = metas L"
  proof (cases rule: acquire_attempt_with_token_cases)
    case (committed dm L1 n a)
    then have "metas L1 = metas L" by (auto dest: metas_ensure_demand_tx)
    with committed(8) show ?thesis
      by (cases rule: grant_tx_CommitE) (auto dest!: metas_insert_permit)
  qed simp
  then show ?thesis by (simp add: Pair)
qed

lemma metas_adopt_for_redelivery: "metas (snd (adopt_for_redelivery env h lane st gen pid alive L)) = metas L"
proof (cases "adopt_for_redelivery env h lane st gen pid alive L")
  case (Pair r L')
  then have "metas L' = metas L"
    by (cases rule: adopt_for_redelivery_CommitE) (auto dest!: metas_grant_demand_tx)
  then show ?thesis by (simp add: Pair)
qed

lemma metas_rotate_scaleset:
  "metas (snd (rotate_scaleset_attempt_for_recovery env h st gen pp pt target claim L)) = metas L"
proof (cases "rotate_scaleset_attempt_for_recovery env h st gen pp pt target claim L")
  case (Pair r L')
  then have "metas L' = metas L"
    by (cases rule: rotate_scaleset_CommitE)
      (auto dest!: rotate_cas_tx_CommitD(7) metas_grant_demand_tx)
  then show ?thesis by (simp add: Pair)
qed

lemma meta_claims [simp]:
  "meta_max_jobs (snd (claim_scaleset_recovery env alive L)) = meta_max_jobs L"
  "meta_generation (snd (claim_scaleset_recovery env alive L)) = meta_generation L"
  "meta_reconciled_generation (snd (claim_scaleset_recovery env alive L)) = meta_reconciled_generation L"
  "meta_max_jobs (snd (claim_release c L)) = meta_max_jobs L"
  "meta_generation (snd (claim_release c L)) = meta_generation L"
  "meta_reconciled_generation (snd (claim_release c L)) = meta_reconciled_generation L"
  by (simp_all add: claim_scaleset_recovery_def claim_release_def split: option.splits)

lemma metas_transition_retain:
  "metas (snd (transition_for_attempt env h st gen tok L)) = metas L"
  "metas (snd (retain_uncertain_for_attempt env h gen tok L)) = metas L"
  "metas (snd (retain_recorded_failure_uncertain_owned env h gen tok L)) = metas L"
  unfolding transition_for_attempt_def retain_uncertain_for_attempt_def
    retain_recorded_failure_uncertain_owned_def
  by (rule metas_run_tx; auto simp: try_tx_Commit Let_def split: if_splits)+

lemma metas_retain_uncertain_after_cleanup_owned:
  "metas (snd (retain_uncertain_after_cleanup_owned env h tok L)) = metas L"
proof (cases "retain_uncertain_after_cleanup_owned env h tok L")
  case (Pair r L')
  have "metas L' = metas L"
    using retain_after_cleanup_disj [OF Pair] by (auto dest!: metas_ensure_demand_tx)
  then show ?thesis by (simp add: Pair)
qed

lemma metas_claim_recorded_terminal_cleanup:
  "metas (snd (claim_recorded_terminal_cleanup env h lane tok L)) = metas L"
proof -
  have "metas L' = metas L" if "cleanup_present_tx env h lane tok r L = Commit a L'" for r a L'
    using that unfolding cleanup_present_tx_def by (auto simp: try_tx_Commit split: if_splits)
  moreover have "metas L' = metas L" if "cleanup_absent_tx env h lane tok L = Commit a L'" for a L'
    using that by (cases rule: cleanup_absent_tx_CommitE) (auto dest: metas_ensure_demand_tx)
  ultimately show ?thesis
    unfolding claim_recorded_terminal_cleanup_def
    by (auto split: option.splits intro!: metas_run_tx)
qed

lemma metas_releases:
  "metas (snd (release_with_demand_state env h nxt tok L)) = metas L"
  "metas (snd (release_scaleset_staged_owned env h tok nxt L)) = metas L"
  "metas (snd (release_native_owned_with_terminal_demand env h tok nxt L)) = metas L"
proof -
  show "metas (snd (release_with_demand_state env h nxt tok L)) = metas L"
    unfolding release_with_demand_state_def
    by (rule metas_run_tx) (auto simp: Let_def split: if_splits DemandState.splits)
  show "metas (snd (release_scaleset_staged_owned env h tok nxt L)) = metas L"
    by (cases "release_scaleset_staged_owned env h tok nxt L")
      (auto elim!: release_scaleset_cases)
  show "metas (snd (release_native_owned_with_terminal_demand env h tok nxt L)) = metas L"
    by (cases "release_native_owned_with_terminal_demand env h tok nxt L")
      (auto elim!: release_native_cases dest: metas_ensure_demand_tx)
qed

lemma metas_recon_step: "recon_step now M M' \<Longrightarrow> metas M' = metas M"
  by (induction rule: recon_step.induct) (auto dest: metas_grant_demand_tx)

text \<open>Reconciliation changes only the reconciled generation of it.\<close>

lemma metas_reconcile:
  "metas (snd (reconcile_attempts_with_staged_acquisitions env al ro re ac L)) = metas L
   \<or> metas (snd (reconcile_attempts_with_staged_acquisitions env al ro re ac L))
     = (meta_max_jobs L, meta_generation L, meta_generation L, recovery_claims L)"
proof (cases "reconcile_attempts_with_staged_acquisitions env al ro re ac L")
  case (Pair r L')
  have *: "metas M = metas L" if "(recon_step (as_i64 (unix_now env)))\<^sup>*\<^sup>* L M" for M
    using that by (induction rule: rtranclp_induct) (auto dest: metas_recon_step)
  from reconcile_steps [OF Pair] show ?thesis
  proof (elim disjE exE conjE)
    fix L5 assume "(recon_step (as_i64 (unix_now env)))\<^sup>*\<^sup>* L L5"
      and L': "L' = L5\<lparr>meta_reconciled_generation := meta_generation L5\<rparr>"
    then have "metas L5 = metas L" by (intro *)
    then show ?thesis by (simp add: Pair L' metas_def)
  qed (simp add: Pair)
qed

lemmas metas_calls = metas_observe_demand metas_acquire_attempt_with_token
  metas_adopt_for_redelivery metas_rotate_scaleset metas_transition_retain
  metas_retain_uncertain_after_cleanup_owned metas_claim_recorded_terminal_cleanup metas_releases

fun configures :: "LedgerCall \<Rightarrow> bool" where
  "configures (Set_Max_Jobs n) = True"
| "configures (Set_Max_Jobs_If_Unset n) = True"
| "configures Begin_Epoch = True"
| "configures (Claim_Recovery alive) = True"
| "configures (Release_Recovery claim) = True"
| "configures (Reconcile al ro re ac) = True"
| "configures c = False"

lemma metas_apply_call: "\<not> configures c \<Longrightarrow> metas (apply_call env c L) = metas L"
  by (cases c)
    (simp_all add: owned_call_defs metas_calls park_demand_def cancel_demand_def Let_def)

section \<open>The lifetime of a demand\<close>

text \<open>A demand row is never deleted; its lane, scope, first observation and sequence number never
  change; and once terminal or cancelled it never leaves these two states.\<close>

definition same_ticket :: "DemandRow \<Rightarrow> DemandRow \<Rightarrow> bool" where
  "same_ticket d d' \<longleftrightarrow> q_lane d' = q_lane d \<and> q_scope d' = q_scope d
     \<and> q_first_seen_unix d' = q_first_seen_unix d \<and> q_sequence d' = q_sequence d"

definition demands_evolve :: "PermitLedger \<Rightarrow> PermitLedger \<Rightarrow> bool" where
  "demands_evolve L L' \<longleftrightarrow>
     (\<forall>h d. map_of (permit_demands L) h = Some d \<longrightarrow>
        (\<exists>d'. map_of (permit_demands L') h = Some d' \<and> same_ticket d d'
          \<and> (demand_in {Terminal, Cancelled} d \<longrightarrow> demand_in {Terminal, Cancelled} d')))"

lemma demands_evolve_refl [simp]: "demands_evolve L L"
  by (simp add: demands_evolve_def same_ticket_def)

lemma demands_evolve_same: "permit_demands L' = permit_demands L \<Longrightarrow> demands_evolve L L'"
  by (simp add: demands_evolve_def same_ticket_def)

lemma demands_evolve_trans:
  assumes "demands_evolve L L1" "demands_evolve L1 L2" shows "demands_evolve L L2"
  unfolding demands_evolve_def
proof (intro allI impI)
  fix h d assume "map_of (permit_demands L) h = Some d"
  then obtain d1 where d1: "map_of (permit_demands L1) h = Some d1" "same_ticket d d1"
    "demand_in {Terminal, Cancelled} d \<longrightarrow> demand_in {Terminal, Cancelled} d1"
    using assms(1) unfolding demands_evolve_def by blast
  then obtain d2 where "map_of (permit_demands L2) h = Some d2" "same_ticket d1 d2"
    "demand_in {Terminal, Cancelled} d1 \<longrightarrow> demand_in {Terminal, Cancelled} d2"
    using assms(2) unfolding demands_evolve_def by blast
  then show "\<exists>d'. map_of (permit_demands L2) h = Some d' \<and> same_ticket d d'
      \<and> (demand_in {Terminal, Cancelled} d \<longrightarrow> demand_in {Terminal, Cancelled} d')"
    using d1 by (auto simp: same_ticket_def)
qed

lemma evolve_put_demand_state:
  assumes "\<And>d. map_of (permit_demands L) h = Some d \<Longrightarrow> c d \<Longrightarrow> demand_in {Terminal, Cancelled} d
    \<Longrightarrow> st \<in> {Terminal, Cancelled}"
  shows "demands_evolve L (put_demand_state h st now c L)"
  using assms by (auto simp: demands_evolve_def same_ticket_def)

lemma evolve_put_closed:
  "st \<in> {Terminal, Cancelled} \<Longrightarrow> demands_evolve L (put_demand_state h st now c L)"
  by (rule evolve_put_demand_state)

lemma evolve_touch_demand: "demands_evolve L (touch_demand h now L)"
  by (auto simp: demands_evolve_def same_ticket_def)

lemma evolve_ensure_demand_tx:
  assumes "ensure_demand_tx h lane sc fs up st L = Inr (dm, L')" shows "demands_evolve L L'"
  using assms
  by (cases rule: ensure_demand_txE) (auto simp: demands_evolve_def same_ticket_def)

lemma evolve_grant_demand_tx:
  assumes "grant_demand_tx h lane now n L = Inr L'" shows "demands_evolve L L'"
proof -
  obtain dm L1 where en: "ensure_demand_tx h lane [] now now Granted L = Inr (dm, L1)"
    and L': "L' = (if d_state dm = Eligible then put_demand_state h Granted n (\<lambda>_. True) L1 else L1)"
    using assms by (rule grant_demand_txE)
  obtain d where d: "map_of (permit_demands L1) h = Some d" "q_state d = DemandState_as_str (d_state dm)"
    using en by (rule ensure_demand_tx_row)
  have "demands_evolve L1 L'"
    unfolding L' using d by (auto intro!: evolve_put_demand_state)
  then show ?thesis using demands_evolve_trans evolve_ensure_demand_tx [OF en] by blast
qed

lemma evolve_permits_update [simp]: "demands_evolve L (L\<lparr>permits := ps\<rparr>)"
  by (simp add: demands_evolve_same)

lemma evolve_observe_demand: "demands_evolve L (snd (observe_demand h lane sc fs ob L))"
proof (cases "observe_demand h lane sc fs ob L")
  case (Pair r L')
  then have "demands_evolve L L'"
  proof (cases rule: observe_demand_cases)
    case (observed dm L1 dm')
    obtain d where d: "map_of (permit_demands L1) h = Some d" "q_state d = DemandState_as_str (d_state dm)"
      using observed(1) by (rule ensure_demand_tx_row)
    have "demands_evolve L1 L'"
      unfolding observed(2) using d by (auto intro!: evolve_put_demand_state evolve_touch_demand)
    then show ?thesis using demands_evolve_trans evolve_ensure_demand_tx [OF observed(1)] by blast
  qed simp
  then show ?thesis by (simp add: Pair)
qed

lemma evolve_park_cancel:
  "demands_evolve L (snd (park_demand env h L))"
  "demands_evolve L (snd (cancel_demand env h L))"
  by (auto simp: park_demand_def cancel_demand_def Let_def demand_in_def
      intro!: evolve_put_demand_state)

lemma evolve_acquire_attempt_with_token:
  "demands_evolve L (snd (acquire_attempt_with_token env h lane st gen pid staged L))"
proof (cases "acquire_attempt_with_token env h lane st gen pid staged L")
  case (Pair r L')
  then have "demands_evolve L L'"
  proof (cases rule: acquire_attempt_with_token_cases)
    case (committed dm L1 n a)
    let ?M = "revive_demand h (d_state dm) (unix_now env) L1"
    obtain d where d: "map_of (permit_demands L1) h = Some d" "q_state d = DemandState_as_str (d_state dm)"
      using committed(5) by (rule ensure_demand_tx_row)
    have M: "demands_evolve L1 ?M"
      using d by (auto simp: revive_demand_def intro!: evolve_put_demand_state evolve_touch_demand)
    have "demands_evolve ?M L'"
      using committed(8)
    proof (cases rule: grant_tx_CommitE)
      case (granted tok L2)
      have "demands_evolve ?M L2" using insert_permit_sel(1) [OF granted(5)] by (rule demands_evolve_same)
      moreover have "demands_evolve L2 L'"
        unfolding granted(6) using d committed(6,7) insert_permit_sel(1) [OF granted(5)]
        by (intro evolve_put_demand_state) (auto simp: demand_in_def split: if_splits)
      ultimately show ?thesis by (rule demands_evolve_trans)
    qed simp_all
    then show ?thesis using demands_evolve_trans evolve_ensure_demand_tx [OF committed(5)] M by blast
  qed simp
  then show ?thesis by (simp add: Pair)
qed

lemma evolve_adopt_for_redelivery:
  "demands_evolve L (snd (adopt_for_redelivery env h lane st gen pid alive L))"
proof (cases "adopt_for_redelivery env h lane st gen pid alive L")
  case (Pair r L')
  then have "demands_evolve L L'"
    by (cases rule: adopt_for_redelivery_CommitE)
      (auto dest!: evolve_grant_demand_tx intro: demands_evolve_trans [OF evolve_permits_update])
  then show ?thesis by (simp add: Pair)
qed

lemma evolve_rotate_scaleset:
  "demands_evolve L (snd (rotate_scaleset_attempt_for_recovery env h st gen pp pt target claim L))"
proof (cases "rotate_scaleset_attempt_for_recovery env h st gen pp pt target claim L")
  case (Pair r L')
  then have "demands_evolve L L'"
    by (cases rule: rotate_scaleset_CommitE)
      (auto dest!: rotate_cas_tx_CommitD(7) evolve_grant_demand_tx
        intro: demands_evolve_trans [OF evolve_permits_update])
  then show ?thesis by (simp add: Pair)
qed

lemma evolve_run_tx:
  "(\<And>a L'. t = Commit a L' \<Longrightarrow> demands_evolve L L') \<Longrightarrow> demands_evolve L (snd (run_tx t L))"
  by (rule run_tx_keeps [where P = "demands_evolve L"]) simp_all

lemma evolve_other_fields [simp]:
  "demands_evolve L (L\<lparr>recovery_claims := rc\<rparr>)"
  "demands_evolve L (L\<lparr>meta_max_jobs := mj\<rparr>)"
  "demands_evolve L (L\<lparr>meta_generation := g\<rparr>)"
  "demands_evolve L (L\<lparr>meta_reconciled_generation := rg\<rparr>)"
  "demands_evolve L (L\<lparr>cleanup_releases := cr\<rparr>)"
  "demands_evolve L (delete_cleanup_release h tok L)"
  "demands_evolve L (delete_permit h tok L)"
  "demands_evolve L (mark_uncertain h now L)"
  by (simp_all add: demands_evolve_same)

lemma evolve_claims:
  "demands_evolve L (snd (claim_scaleset_recovery env alive L))"
  "demands_evolve L (snd (claim_release c L))"
  unfolding claim_scaleset_recovery_def claim_release_def
  by (rule evolve_run_tx; auto split: option.splits if_splits)+

lemma evolve_configuration:
  "demands_evolve L (snd (set_max_jobs n L))"
  "demands_evolve L (snd (set_max_jobs_if_unset n L))"
  "demands_evolve L (snd (begin_epoch L))"
  by (simp_all add: set_max_jobs_def set_max_jobs_if_unset_def begin_epoch_def Let_def)

lemma evolve_permits_put_closed:
  "demands_evolve L (put_demand_state h Terminal now c (L\<lparr>permits := ps\<rparr>))"
  using demands_evolve_trans [OF evolve_permits_update evolve_put_closed] by simp

lemma evolve_transition_retain:
  "demands_evolve L (snd (transition_for_attempt env h st gen tok L))"
  "demands_evolve L (snd (retain_uncertain_for_attempt env h gen tok L))"
  "demands_evolve L (snd (retain_recorded_failure_uncertain_owned env h gen tok L))"
  unfolding transition_for_attempt_def retain_uncertain_for_attempt_def
    retain_recorded_failure_uncertain_owned_def
  by (rule evolve_run_tx; auto simp: try_tx_Commit Let_def evolve_permits_put_closed split: if_splits)+

lemma evolve_retain_uncertain_after_cleanup_owned:
  "demands_evolve L (snd (retain_uncertain_after_cleanup_owned env h tok L))"
proof (cases "retain_uncertain_after_cleanup_owned env h tok L")
  case (Pair r L')
  from retain_after_cleanup_disj [OF Pair] have "demands_evolve L L'"
    by (auto dest!: evolve_ensure_demand_tx
        intro: demands_evolve_trans [OF evolve_permits_update] demands_evolve_trans [OF _ evolve_put_closed])
  then show ?thesis by (simp add: Pair)
qed

lemma evolve_claim_recorded_terminal_cleanup:
  "demands_evolve L (snd (claim_recorded_terminal_cleanup env h lane tok L))"
proof -
  have "demands_evolve L L'" if "cleanup_present_tx env h lane tok r L = Commit a L'" for r a L'
    using that unfolding cleanup_present_tx_def by (auto simp: try_tx_Commit split: if_splits)
  moreover have "demands_evolve L L'" if "cleanup_absent_tx env h lane tok L = Commit a L'" for a L'
    using that
  proof (cases rule: cleanup_absent_tx_CommitE)
    case (opened dm L1)
    have "demands_evolve L1 L'" unfolding opened(3) by (rule evolve_put_closed) simp
    then show ?thesis using evolve_ensure_demand_tx [OF opened(2)] demands_evolve_trans by blast
  qed auto
  ultimately show ?thesis
    unfolding claim_recorded_terminal_cleanup_def
    by (auto split: option.splits intro!: evolve_run_tx)
qed

lemma evolve_delete_put:
  assumes "\<And>d. map_of (permit_demands L) h = Some d \<Longrightarrow> c d \<Longrightarrow> demand_in {Terminal, Cancelled} d
    \<Longrightarrow> st \<in> {Terminal, Cancelled}"
  shows "demands_evolve L (put_demand_state h st now c (delete_permit h tok L))"
  using assms by (auto simp: demands_evolve_def same_ticket_def)

lemma evolve_release_with_demand_state:
  "demands_evolve L (snd (release_with_demand_state env h nxt tok L))"
  unfolding release_with_demand_state_def
  by (rule evolve_run_tx)
    (auto simp: Let_def demand_in_def split: if_splits DemandState.splits intro!: evolve_delete_put)

lemma evolve_release_scaleset_staged_owned:
  "demands_evolve L (snd (release_scaleset_staged_owned env h tok nxt L))"
proof (cases "release_scaleset_staged_owned env h tok nxt L")
  case (Pair r L')
  then have "demands_evolve L L'"
  proof (cases rule: release_scaleset_cases)
    case (released row dm)
    then show ?thesis
      using read_demand_SomeD [OF released(5)] by (auto intro!: evolve_delete_put)
  qed simp
  then show ?thesis by (simp add: Pair)
qed

lemma evolve_release_native:
  assumes "nxt \<in> {Terminal, Cancelled}"
  shows "demands_evolve L (snd (release_native_owned_with_terminal_demand env h tok nxt L))"
proof (cases "release_native_owned_with_terminal_demand env h tok nxt L")
  case (Pair r L')
  then have "demands_evolve L L'"
  proof (cases rule: release_native_cases)
    case (released row dm L1)
    have "demands_evolve L1 L'"
      unfolding released(6) using assms
      by (intro demands_evolve_trans [OF evolve_delete_put evolve_other_fields(6)]) auto
    then show ?thesis using evolve_ensure_demand_tx [OF released(5)] demands_evolve_trans by blast
  qed simp_all
  then show ?thesis by (simp add: Pair)
qed

lemma evolve_recon_step: "recon_step now M M' \<Longrightarrow> demands_evolve M M'"
  by (induction rule: recon_step.induct)
    (auto dest!: evolve_grant_demand_tx intro: demands_evolve_trans [OF evolve_other_fields(8)])

lemma evolve_reconcile:
  "demands_evolve L (snd (reconcile_attempts_with_staged_acquisitions env al ro re ac L))"
  by (rule reconcile_keeps [where P = "demands_evolve L"])
    (auto intro: demands_evolve_trans evolve_recon_step evolve_other_fields)

lemma evolve_apply_call: "demands_evolve L (apply_call env c L)"
  by (cases c)
    (simp_all add: owned_call_defs evolve_claims evolve_configuration evolve_observe_demand
      evolve_park_cancel evolve_acquire_attempt_with_token evolve_adopt_for_redelivery
      evolve_rotate_scaleset evolve_transition_retain evolve_claim_recorded_terminal_cleanup
      evolve_release_with_demand_state evolve_release_scaleset_staged_owned evolve_release_native
      evolve_retain_uncertain_after_cleanup_owned evolve_reconcile)

lemma evolve_run_calls: "demands_evolve L (run_calls cs L)"
proof (induction cs arbitrary: L)
  case Nil
  then show ?case by simp
next
  case (Cons c cs)
  show ?case using demands_evolve_trans [OF evolve_apply_call Cons.IH] by simp
qed

end
