(* ===== verification/Ledger_Properties.thy ===== *)
theory Ledger_Properties
  imports Ledger_Demands
begin

text \<open>
  The guarantees of the permit ledger: coherence of every execution, capacity, ownership,
  admission order, generation and token fencing, and the lifetime of demands.  The interpretation
  \<open>lreg\<close> of the registry contract carries the counting arguments.
\<close>

section \<open>Who can take a permit\<close>

text \<open>The holder and token a token-bearing call names, and the holder whose row a recovery call
  may take over.\<close>

fun releases_as :: "LedgerCall \<Rightarrow> (string \<times> string) option" where
  "releases_as (Release_Terminal h tok) = Some (h, tok)"
| "releases_as (Release_Eligible h tok) = Some (h, tok)"
| "releases_as (Release_Cancelled h tok) = Some (h, tok)"
| "releases_as (Release_ScaleSet_Staged h tok nxt) = Some (h, tok)"
| "releases_as (Release_Native_Terminal h tok) = Some (h, tok)"
| "releases_as (Release_Native_Cancelled h tok) = Some (h, tok)"
| "releases_as _ = None"

fun takes_over :: "LedgerCall \<Rightarrow> string option" where
  "takes_over (Adopt h lane st gen pid alive) = Some h"
| "takes_over (Rotate h st gen pp pt target claim) = Some h"
| "takes_over _ = None"

fun acquires :: "LedgerCall \<Rightarrow> string option" where
  "acquires (Acquire h lane st gen pid) = Some h"
| "acquires (Acquire_ScaleSet h st gen pid tok) = Some h"
| "acquires _ = None"

lemma owners_release_with_demand_state:
  assumes "ledger_wf L"
  shows "owners (snd (release_with_demand_state env h nxt tok L)) =
    (if owners L h = Some tok then (owners L)(h := None) else owners L)"
proof (cases "release_with_demand_state env h nxt tok L")
  case (Pair r L')
  then show ?thesis
    using assms
  proof (cases rule: release_with_demand_state_cases)
    case absent
    then show ?thesis using Pair by (auto simp: owners_def)
  next
    case (released row)
    then have "owners L' = owners (delete_permit h tok L)" by (cases nxt) (simp_all add: Let_def)
    then show ?thesis using Pair assms by (simp add: owners_delete_permit)
  qed
qed

lemma owners_release_scaleset_staged_owned:
  assumes "ledger_wf L"
  shows "owners (snd (release_scaleset_staged_owned env h tok nxt L)) = owners L
    \<or> owners L h = Some tok
      \<and> owners (snd (release_scaleset_staged_owned env h tok nxt L)) = (owners L)(h := None)"
proof (cases "release_scaleset_staged_owned env h tok nxt L")
  case (Pair r L')
  then show ?thesis
    by (cases rule: release_scaleset_cases)
      (use Pair assms in \<open>auto simp: owners_delete_permit owners_def\<close>)
qed

lemma owners_release_native:
  assumes "ledger_wf L"
  shows "owners (snd (release_native_owned_with_terminal_demand env h tok nxt L)) = owners L
    \<or> owners L h = Some tok
      \<and> owners (snd (release_native_owned_with_terminal_demand env h tok nxt L)) = (owners L)(h := None)"
proof (cases "release_native_owned_with_terminal_demand env h tok nxt L")
  case (Pair r L')
  then show ?thesis
  proof (cases rule: release_native_cases)
    case (released row dm L1)
    have "owners L1 = owners L" using owners_ensure_demand_tx [OF released(5)] .
    moreover have "ledger_wf L1" using wf_ensure_demand_tx [OF released(5) assms] .
    moreover have "owners L h = Some tok" using released(2,3) by (simp add: owners_def)
    ultimately show ?thesis using Pair released(6) by (simp add: owners_delete_permit)
  qed (use Pair in simp_all)
qed

lemma owners_adopt_other:
  "h' \<noteq> h \<Longrightarrow> owners (snd (adopt_for_redelivery env h lane st gen pid alive L)) h' = owners L h'"
  by (cases "adopt_for_redelivery env h lane st gen pid alive L")
    (auto elim!: adopt_for_redelivery_CommitE dest!: owners_grant_demand_tx simp: owners_retoken)

lemma owners_rotate_other:
  assumes "h' \<noteq> h"
  shows "owners (snd (rotate_scaleset_attempt_for_recovery env h st gen pp pt target claim L)) h' = owners L h'"
proof (cases "rotate_scaleset_attempt_for_recovery env h st gen pp pt target claim L")
  case (Pair r L')
  then have "owners L' h' = owners L h'"
  proof (cases rule: rotate_scaleset_CommitE)
    case (rotated row)
    note cas = rotate_cas_tx_CommitD [OF rotated(9)]
    show ?thesis
      using owners_grant_demand_tx [OF cas(7)] rotated(5,6) cas(2) assms by (simp add: owners_retoken)
  qed simp
  then show ?thesis by (simp add: Pair)
qed

text \<open>An acquisition leaves every existing owner in place.\<close>

lemma owners_acquire_attempt_with_token:
  assumes "acquire_attempt_with_token env h lane st gen pid staged L = (r, L')"
  shows "owners L' = owners L \<or> owners L h = None \<and> (\<exists>tok. r = Inr (Acquired tok)
    \<and> owners L' = (owners L)(h \<mapsto> tok)
    \<and> (\<forall>d. map_of (permit_demands L) h = Some d \<longrightarrow> \<not> demand_in {Terminal, Cancelled} d))"
  using assms
proof (cases rule: acquire_attempt_with_token_cases)
  case (committed dm L1 n a)
  let ?M = "revive_demand h (d_state dm) (unix_now env) L1"
  have p: "permits ?M = permits L" using ensure_demand_tx_sel(1) [OF committed(5)] by simp
  then have o: "owners ?M = owners L" by (rule owners_permits_cong)
  have d: "\<not> demand_in {Terminal, Cancelled} d" if "map_of (permit_demands L) h = Some d" for d
    using committed(5)
    by (cases rule: ensure_demand_txE) (use committed(6,7) that in auto)
  from committed(8) show ?thesis
  proof (cases rule: grant_tx_CommitE)
    case (granted tok L2)
    have "owners L' = (owners L)(h \<mapsto> tok)"
      using owners_insert_permit [OF granted(5)] granted(6) committed(2) p o by simp
    then show ?thesis using granted(1) committed(2,4) d by (auto simp: owners_def)
  qed (use o in simp_all)
qed simp

lemma owner_lost:
  assumes "ledger_wf L" "owners L h = Some t" "owners (apply_call env c L) h \<noteq> Some t"
  shows "releases_as c = Some (h, t) \<or> takes_over c = Some h"
proof (cases c)
  case (Adopt h' lane st gen pid alive)
  then show ?thesis using assms owners_adopt_other [of h h'] by fastforce
next
  case (Rotate h' st gen pp pt target claim)
  then show ?thesis using assms owners_rotate_other [of h h'] by fastforce
next
  case (Acquire h' lane st gen pid)
  then show ?thesis
    using assms owners_acquire_attempt_with_token [of env h' lane st gen pid None L]
    by (cases "acquire_attempt env h' lane st gen pid L") (auto simp: acquire_attempt_def split: if_splits)
next
  case (Acquire_ScaleSet h' st gen pid tok)
  then show ?thesis
    using assms owners_acquire_attempt_with_token [of env h' ScaleSet st gen pid "Some tok" L]
    by (cases "acquire_scaleset_attempt_with_token env h' st gen pid tok L")
      (auto simp: acquire_scaleset_attempt_with_token_def split: if_splits)
next
  case (Release_ScaleSet_Staged h' tok nxt)
  then show ?thesis
    using assms owners_release_scaleset_staged_owned [OF assms(1), of env h' tok nxt]
    by (auto split: if_splits)
next
  case (Release_Native_Terminal h' tok)
  then show ?thesis
    using assms owners_release_native [OF assms(1), of env h' tok Terminal]
    by (auto simp: release_native_terminal_owned_def split: if_splits)
next
  case (Release_Native_Cancelled h' tok)
  then show ?thesis
    using assms owners_release_native [OF assms(1), of env h' tok Cancelled]
    by (auto simp: release_native_cancelled_owned_def split: if_splits)
qed (use assms in \<open>auto simp: owned_call_defs owners_calls owners_release_with_demand_state
      split: if_splits\<close>)

lemma owner_gained:
  assumes "ledger_wf L" "owners L h = None" "owners (apply_call env c L) h \<noteq> None"
  shows "acquires c = Some h
    \<and> (\<forall>d. map_of (permit_demands L) h = Some d \<longrightarrow> \<not> demand_in {Terminal, Cancelled} d)"
proof -
  have upd: "m' h = None" if "m' = m \<or> m h' = Some t \<and> m' = m(h' := None)" "m h = None"
    for m m' :: registry and h' t
    using that by auto
  show ?thesis
  proof (cases c)
    case (Adopt h' lane st gen pid alive)
    then show ?thesis
      using assms owners_adopt_other [of h h' env lane st gen pid alive L]
      by (cases "adopt_for_redelivery env h' lane st gen pid alive L"; cases "h' = h")
        (auto elim!: adopt_for_redelivery_CommitE simp: owners_def)
  next
    case (Rotate h' st gen pp pt target claim)
    then show ?thesis
      using assms owners_rotate_other [of h h' env st gen pp pt target claim L]
      by (cases "rotate_scaleset_attempt_for_recovery env h' st gen pp pt target claim L"; cases "h' = h")
        (auto elim!: rotate_scaleset_CommitE simp: owners_def)
  next
    case (Acquire h' lane st gen pid)
    then show ?thesis
      using assms owners_acquire_attempt_with_token [of env h' lane st gen pid None L]
      by (cases "acquire_attempt env h' lane st gen pid L") (auto simp: acquire_attempt_def split: if_splits)
  next
    case (Acquire_ScaleSet h' st gen pid tok)
    then show ?thesis
      using assms owners_acquire_attempt_with_token [of env h' ScaleSet st gen pid "Some tok" L]
      by (cases "acquire_scaleset_attempt_with_token env h' st gen pid tok L")
        (auto simp: acquire_scaleset_attempt_with_token_def split: if_splits)
  next
    case (Release_ScaleSet_Staged h' tok nxt)
    then show ?thesis
      using assms upd owners_release_scaleset_staged_owned [OF assms(1), of env h' tok nxt] by auto
  next
    case (Release_Native_Terminal h' tok)
    then show ?thesis
      using assms upd owners_release_native [OF assms(1), of env h' tok Terminal]
      by (auto simp: release_native_terminal_owned_def)
  next
    case (Release_Native_Cancelled h' tok)
    then show ?thesis
      using assms upd owners_release_native [OF assms(1), of env h' tok Cancelled]
      by (auto simp: release_native_cancelled_owned_def)
  qed (use assms in \<open>auto simp: owned_call_defs owners_calls owners_release_with_demand_state
        split: if_splits\<close>)
qed

section \<open>Properties\<close>

text \<open>C1. Coherence of every execution.  Whatever the processes of a host do with a fresh ledger, in
  any order: there is one row per holder, no owner token is empty or shared, every ticket number
  is unique, the text columns parse, a permit's demand exists in the permit's lane and is granted
  or terminal, and a granted demand has a permit.\<close>

theorem executions_coherent:
  assumes "uuids_ok cs"
  shows "ledger_wf (run_calls cs empty_ledger) \<and> coherent (run_calls cs empty_ledger)"
  using run_calls_ok assms empty_ledger_ok by blast

definition sample_env :: "string \<Rightarrow> Env" where
  "sample_env uuid = \<lparr>unix_now = 1000, process_id = 7, new_uuid = uuid\<rparr>"

definition sample_calls :: "(Env \<times> LedgerCall) list" where
  "sample_calls =
     [(sample_env ''t0'', Set_Max_Jobs 1),
      (sample_env ''t1'', Acquire ''native/1'' Native Reserved 0 (Some 7)),
      (sample_env ''t2'', Acquire ''native/2'' Native Reserved 0 (Some 7)),
      (sample_env ''t3'', Release_Terminal ''native/1'' ''t1'')]"

lemma sample_calls_ok: "uuids_ok sample_calls"
  by (simp add: sample_calls_def sample_env_def)

lemma sample_prefix_ok: "uuids_ok (take n sample_calls)"
  using sample_calls_ok by (auto simp: uuids_ok_def dest: in_set_takeD)

theorem executions_coherent_witness:
  "uuids_ok sample_calls \<and> coherent (run_calls sample_calls empty_ledger)
   \<and> length (permits (run_calls (take 3 sample_calls) empty_ledger)) = 1
   \<and> map (\<lambda>(h, d). (h, q_state d)) (permit_demands (run_calls sample_calls empty_ledger))
       = [(''native/1'', ''terminal''), (''native/2'', ''eligible'')]"
proof -
  have "length (permits (run_calls (take 3 sample_calls) empty_ledger)) = 1"
    "map (\<lambda>(h, d). (h, q_state d)) (permit_demands (run_calls sample_calls empty_ledger))
       = [(''native/1'', ''terminal''), (''native/2'', ''eligible'')]"
    by code_simp+
  then show ?thesis using executions_coherent [OF sample_calls_ok] sample_calls_ok by blast
qed

fun resizes :: "LedgerCall \<Rightarrow> bool" where
  "resizes (Set_Max_Jobs n) = True"
| "resizes _ = False"

lemma max_jobs_apply_call:
  assumes "\<not> resizes c" "max_jobs L = Some n" shows "max_jobs (apply_call env c L) = Some n"
proof -
  have cong: "max_jobs L' = max_jobs L" if "fst (metas L') = fst (metas L)" for L'
    using that by (simp add: metas_def max_jobs_def)
  have set: "meta_max_jobs L \<noteq> None" using assms(2) by (cases "meta_max_jobs L") (auto simp: max_jobs_def)
  show ?thesis
  proof (cases "configures c")
    case False
    then show ?thesis using cong [of "apply_call env c L"] metas_apply_call assms(2) by simp
  next
    case True
    then show ?thesis
    proof (cases c)
      case (Reconcile al ro re ac)
      then show ?thesis
        using cong [of "apply_call env c L"] metas_reconcile [of env al ro re ac L] assms(2)
        by (auto simp: metas_def)
    qed (use assms set in \<open>auto simp: set_max_jobs_if_unset_def begin_epoch_def Let_def max_jobs_def\<close>)
  qed
qed

text \<open>C2. Capacity.  As long as nobody resizes the ledger, no sequence of calls by any number of
  processes brings the number of permit rows above the configured \<open>N\<close>.\<close>

theorem capacity_never_exceeded:
  assumes "uuids_ok cs" "\<forall>(env, c) \<in> set cs. \<not> resizes c" "ledger_wf L"
    and "max_jobs L = Some n" "length (permits L) \<le> unat n"
  shows "max_jobs (run_calls cs L) = Some n \<and> length (permits (run_calls cs L)) \<le> unat n"
proof -
  let ?P = "\<lambda>M. ledger_wf M \<and> max_jobs M = Some n \<and> length (permits M) \<le> unat n"
  have "?P (run_calls cs L)"
  proof (rule run_calls_keeps)
    fix env c M assume c: "(env, c) \<in> set cs" "new_uuid env \<noteq> []" and M: "?P M"
    have st: "call_step M (apply_call env c M)" using c(2) by (auto simp: call_step_def)
    have wf: "ledger_wf (apply_call env c M)" using M c(2) by (simp add: wf_apply_call)
    have "length (permits (apply_call env c M)) \<le> max (length (permits M)) (limit M)"
      using lreg.occupancy_step [OF _ st] M wf by (simp add: card_dom_owners)
    then show "?P (apply_call env c M)"
      using M wf c(1) assms(2) max_jobs_apply_call [of c M n env] by (auto simp: limit_def)
  qed (use assms in auto)
  then show ?thesis by blast
qed

theorem capacity_never_exceeded_witness:
  "length (permits (run_calls (drop 1 sample_calls) (run_calls (take 1 sample_calls) empty_ledger)))
     \<le> unat (1 :: u32)"
proof -
  let ?L = "run_calls (take 1 sample_calls) empty_ledger"
  have "ledger_wf ?L" using run_calls_ok [OF sample_prefix_ok] empty_ledger_ok by blast
  moreover have "max_jobs ?L = Some 1" "permits ?L = []" by code_simp+
  moreover have "uuids_ok (drop 1 sample_calls)" "\<forall>(env, c) \<in> set (drop 1 sample_calls). \<not> resizes c"
    by (simp_all add: sample_calls_def sample_env_def)
  ultimately show ?thesis
    using capacity_never_exceeded [of "drop 1 sample_calls" ?L 1] by simp
qed

text \<open>C3. Refinement.  Every call of a well-formed ledger is one step of the abstract registry: it
  keeps the owners, grants a free holder an unused token below the limit, releases one holder, or
  exchanges one holder's token.\<close>

theorem calls_refine_registry:
  assumes "ledger_wf L"
  shows "registry_step (limit L) (owners L) (owners (apply_call env c L))"
  using assms by (rule lstep_apply_call)

theorem calls_refine_registry_witness:
  "registry_step 1 (owners (run_calls (take 1 sample_calls) empty_ledger))
     (owners (apply_call (sample_env ''t1'') (Acquire ''native/1'' Native Reserved 0 (Some 7))
       (run_calls (take 1 sample_calls) empty_ledger)))
   \<and> owners (run_calls (take 1 sample_calls) empty_ledger) ''native/1'' = None
   \<and> owners (apply_call (sample_env ''t1'') (Acquire ''native/1'' Native Reserved 0 (Some 7))
       (run_calls (take 1 sample_calls) empty_ledger)) ''native/1'' = Some ''t1''"
proof -
  let ?L = "run_calls (take 1 sample_calls) empty_ledger"
  have "ledger_wf ?L" using run_calls_ok [OF sample_prefix_ok] empty_ledger_ok by blast
  note step = calls_refine_registry [OF this, of "sample_env ''t1''"
      "Acquire ''native/1'' Native Reserved 0 (Some 7)"]
  have "limit ?L = 1" "owners ?L ''native/1'' = None"
    "owners (apply_call (sample_env ''t1'') (Acquire ''native/1'' Native Reserved 0 (Some 7)) ?L)
       ''native/1'' = Some ''t1''"
    by code_simp+
  then show ?thesis using step by simp
qed

text \<open>C6. Ownership.  A holder loses its permit, or its owner token, only by a release that carries
  exactly the current token, or by an adoption or rotation of that holder's row.\<close>

theorem permit_lost_only_to_owner_or_recovery:
  assumes "ledger_wf L" "owners L h = Some t" "owners (apply_call env c L) h \<noteq> Some t"
  shows "releases_as c = Some (h, t) \<or> takes_over c = Some h"
  using assms by (rule owner_lost)

theorem permit_lost_only_to_owner_or_recovery_witness:
  "releases_as (Release_Terminal ''native/1'' ''t1'') = Some (''native/1'', ''t1'')
   \<or> takes_over (Release_Terminal ''native/1'' ''t1'') = Some ''native/1''"
proof (rule permit_lost_only_to_owner_or_recovery)
  show "ledger_wf (run_calls (take 2 sample_calls) empty_ledger)"
    using run_calls_ok [OF sample_prefix_ok] empty_ledger_ok by blast
  show "owners (run_calls (take 2 sample_calls) empty_ledger) ''native/1'' = Some ''t1''"
    by code_simp
  show "owners (apply_call (sample_env ''t2'') (Release_Terminal ''native/1'' ''t1'')
      (run_calls (take 2 sample_calls) empty_ledger)) ''native/1'' \<noteq> Some ''t1''"
    by code_simp
qed

section \<open>Admission order\<close>

definition ticket :: "DemandRow \<Rightarrow> int \<times> int" where
  "ticket d = (q_first_seen_unix d, q_sequence d)"

text \<open>The demands that can block others at time \<open>now\<close>: eligible and refreshed within the last
  \<open>DEMAND_STALE_AFTER_SECS\<close>.\<close>

definition fresh_eligible :: "u64 \<Rightarrow> DemandRow \<Rightarrow> bool" where
  "fresh_eligible now d \<longleftrightarrow> demand_in {Eligible} d
     \<and> i64_try_from_u64 (saturating_sub_word now DEMAND_STALE_AFTER_SECS) < q_updated_unix d"

lemma sequences_differ:
  assumes "ledger_wf L" "map_of (permit_demands L) h = Some d" "map_of (permit_demands L) h' = Some d'"
    and "h \<noteq> h'"
  shows "q_sequence d \<noteq> q_sequence d'"
proof -
  have inj: "inj_on (\<lambda>x. q_sequence (snd x)) (set (permit_demands L))"
    using assms(1) by (simp add: ledger_wf_def distinct_map)
  show ?thesis
    using inj_onD [OF inj, of "(h, d)" "(h', d')"] assms(2-4) by (auto dest: map_of_in_set)
qed

lemma queue_head_SomeD:
  assumes "ledger_wf L"
    and "queue_head (saturating_sub_word now DEMAND_STALE_AFTER_SECS) L = Some h"
  shows "\<exists>d. map_of (permit_demands L) h = Some d \<and> fresh_eligible now d
    \<and> (\<forall>h' d'. h' \<noteq> h \<longrightarrow> map_of (permit_demands L) h' = Some d' \<longrightarrow> fresh_eligible now d'
         \<longrightarrow> ticket d < ticket d')"
proof -
  obtain d where d: "(h, d) \<in> set (permit_demands L)" "fresh_eligible now d"
    and le: "\<forall>(k', r') \<in> set (permit_demands L). fresh_eligible now r' \<longrightarrow> ticket d \<le> ticket r'"
    using select_first_by_Some [OF assms(2) [unfolded queue_head_def]]
    unfolding fresh_eligible_def ticket_def by blast
  have m: "map_of (permit_demands L) h = Some d"
    using d(1) assms(1) by (simp add: map_of_eq_Some_iff ledger_wf_distinct)
  have "ticket d < ticket d'"
    if "h' \<noteq> h" "map_of (permit_demands L) h' = Some d'" "fresh_eligible now d'" for h' d'
  proof -
    have "ticket d \<le> ticket d'" using le that map_of_in_set by fastforce
    moreover have "ticket d \<noteq> ticket d'"
      using sequences_differ [OF assms(1) m that(2)] that(1) by (auto simp: ticket_def)
    ultimately show ?thesis by simp
  qed
  then show ?thesis using m d(2) by blast
qed

lemma queue_head_exists:
  assumes "map_of (permit_demands L) h = Some d" "fresh_eligible now d"
  shows "queue_head (saturating_sub_word now DEMAND_STALE_AFTER_SECS) L \<noteq> None"
  using assms map_of_in_set [OF assms(1)] by (auto simp: queue_head_def fresh_eligible_def)

lemma acquire_AcquiredE:
  assumes "acquire_attempt_with_token env h lane st gen pid staged L = (Inr (Acquired tok), L')"
  obtains (replay) row dm where "generation L = gen" "map_of (permits L) h = Some row"
      "staged = Some tok" "p_attempt_token row = tok" "p_state row = PermitState_as_str st"
      "p_lane row = PermitLane_as_str lane" "read_demand L h = Inr (Some dm)" "d_lane dm = lane"
      "d_state dm = Granted" "L' = L"
    | (fresh) dm L1 n where "generation L = gen" "map_of (permits L) h = None" "max_jobs L = Some n"
      "ensure_demand_tx h lane [] (unix_now env) (unix_now env) Eligible L = Inr (dm, L1)"
      "d_state dm \<noteq> Terminal" "d_state dm \<noteq> Cancelled"
      "grant_tx env h lane st gen pid staged n
         (revive_demand h (d_state dm) (unix_now env) L1) = Commit (Acquired tok) L'"
proof (cases "map_of (permits L) h")
  case (Some row)
  have "run_tx (held_tx h lane st staged row L) L = (Inr (Acquired tok), L')"
    "generation L = gen"
    using assms Some
    by (auto simp: acquire_attempt_with_token_def Let_def split: if_splits)
  then have "staged = Some tok \<and> p_attempt_token row = tok \<and> p_state row = PermitState_as_str st
    \<and> p_lane row = PermitLane_as_str lane \<and> L' = L
    \<and> (\<exists>dm. read_demand L h = Inr (Some dm) \<and> d_lane dm = lane \<and> d_state dm = Granted)"
    unfolding held_tx_def
    by (cases "read_demand L h")
      (auto simp: check_demand_lane_def split: if_split_asm option.split_asm)
  then show thesis using replay Some \<open>generation L = gen\<close> by blast
next
  case None
  have g: "generation L = gen" "max_jobs L \<noteq> None"
    using assms None
    by (cases "max_jobs L"; auto simp: acquire_attempt_with_token_def Let_def split: if_splits)+
  then obtain n where n: "max_jobs L = Some n" by blast
  show thesis
  proof (cases "ensure_demand_tx h lane [] (unix_now env) (unix_now env) Eligible L")
    case (Inl e)
    then show thesis using assms None g n by (simp add: acquire_attempt_with_token_def Let_def)
  next
    case (Inr p)
    obtain dm L1 where p: "p = (dm, L1)" by (cases p)
    have "d_state dm \<noteq> Terminal \<and> d_state dm \<noteq> Cancelled
        \<and> run_tx (grant_tx env h lane st gen pid staged n
            (revive_demand h (d_state dm) (unix_now env) L1)) L = (Inr (Acquired tok), L')"
      using assms None g n Inr p
      by (auto simp: acquire_attempt_with_token_def Let_def split: if_splits)
    moreover have "\<forall>a. t \<noteq> Rollback a \<Longrightarrow> run_tx t M = (Inr a, M') \<Longrightarrow> t = Commit a M'"
      for t :: "(LedgerError, PermitLedger, AcquireAttemptOutcome) tx" and a M M'
      by (cases t) auto
    moreover have "\<forall>a. grant_tx env h lane st gen pid staged n
        (revive_demand h (d_state dm) (unix_now env) L1) \<noteq> Rollback a"
      by (auto simp: grant_tx_def Let_def try_tx_Rollback split: option.splits)
    ultimately show thesis using fresh g n None Inr p by blast
  qed
qed

text \<open>C7. Oldest first.  A fresh grant goes to a holder without a permit, while fewer than \<open>N\<close>
  permits exist, and the holder's ticket (first observation, sequence) precedes the ticket of every
  other demand that is eligible and was refreshed in the last five minutes.\<close>

theorem grants_oldest_first:
  assumes "ledger_wf L"
    and "acquire_attempt env h lane st gen pid L = (Inr (Acquired tok), L')"
  shows "owners L h = None \<and> owners L' = (owners L)(h \<mapsto> tok) \<and> length (permits L) < limit L
    \<and> (\<exists>d. map_of (permit_demands L') h = Some d \<and> q_state d = ''granted''
        \<and> (\<forall>h' d'. h' \<noteq> h \<longrightarrow> map_of (permit_demands L) h' = Some d'
             \<longrightarrow> fresh_eligible (unix_now env) d' \<longrightarrow> ticket d < ticket d'))"
  using assms(2) unfolding acquire_attempt_def
proof (cases rule: acquire_AcquiredE)
  case (fresh dm L1 n)
  let ?M = "revive_demand h (d_state dm) (unix_now env) L1"
  have p: "permits ?M = permits L" using ensure_demand_tx_sel(1) [OF fresh(4)] by simp
  have wf: "ledger_wf ?M" using fresh(4) assms(1) by (simp add: wf_ensure_demand_tx wf_revive_demand)
  have other: "map_of (permit_demands ?M) h' = map_of (permit_demands L) h'" if "h' \<noteq> h" for h'
    using ensure_demand_tx_other [OF fresh(4) that] that by simp
  from fresh(7) show ?thesis
  proof (cases rule: grant_tx_CommitE)
    case (granted tok' L2)
    obtain d where d: "map_of (permit_demands ?M) h = Some d"
      and first: "\<forall>h' d'. h' \<noteq> h \<longrightarrow> map_of (permit_demands ?M) h' = Some d'
        \<longrightarrow> fresh_eligible (unix_now env) d' \<longrightarrow> ticket d < ticket d'"
      using queue_head_SomeD [OF wf granted(3)] by blast
    let ?d = "d\<lparr>q_state := DemandState_as_str Granted,
      q_updated_unix := i64_try_from_u64 (unix_now env)\<rparr>"
    have "map_of (permit_demands L') h = Some ?d"
      using granted(6) insert_permit_sel(1) [OF granted(5)] d by (simp del: map_of_revive_demand)
    moreover have "ticket ?d = ticket d" "q_state ?d = ''granted''"
      by (simp_all add: ticket_def DemandState_as_str_def)
    moreover have "\<forall>h' d'. h' \<noteq> h \<longrightarrow> map_of (permit_demands L) h' = Some d'
        \<longrightarrow> fresh_eligible (unix_now env) d' \<longrightarrow> ticket d < ticket d'"
      using first other by simp
    moreover have "length (permits L) < limit L"
    proof -
      have "length (permits L) < unat n"
        unfolding unat_eq_nat_uint zless_nat_eq_int_zless using granted(2) p by simp
      then show ?thesis using fresh(3) by (simp add: limit_def)
    qed
    moreover have "owners L h = None" using fresh(2) by (simp add: owners_def)
    moreover have "owners L' = (owners L)(h \<mapsto> tok)"
    proof -
      have "owners ?M = owners L" using p by (rule owners_permits_cong)
      then show ?thesis using owners_insert_permit [OF granted(5)] granted(1,6) fresh(2) p by simp
    qed
    ultimately show ?thesis by metis
  qed simp_all
qed simp

text \<open>Two waiting holders with the same first observation: the sequence number decides.\<close>

definition sample_queue :: PermitLedger where
  "sample_queue = run_calls
     [(sample_env ''u'', Set_Max_Jobs 1),
      (sample_env ''u'', Observe_Demand ''scaleset/9'' ScaleSet ''org'' 900 990),
      (sample_env ''u'', Observe_Demand ''native/8'' Native ''repo'' 900 995)] empty_ledger"

lemma sample_queue_ok: "ledger_wf sample_queue \<and> coherent sample_queue"
  unfolding sample_queue_def
  by (rule run_calls_ok) (simp_all add: sample_env_def empty_ledger_ok)

theorem grants_oldest_first_witness:
  "owners sample_queue ''scaleset/9'' = None
   \<and> fst (acquire_attempt (sample_env ''t1'') ''scaleset/9'' ScaleSet Reserved 0 None sample_queue)
       = Inr (Acquired ''t1'')
   \<and> fst (acquire_attempt (sample_env ''t1'') ''native/8'' Native Reserved 0 None sample_queue)
       = Inr Deferred"
proof -
  have a: "fst (acquire_attempt (sample_env ''t1'') ''scaleset/9'' ScaleSet Reserved 0 None sample_queue)
       = Inr (Acquired ''t1'')"
    "fst (acquire_attempt (sample_env ''t1'') ''native/8'' Native Reserved 0 None sample_queue)
       = Inr Deferred"
    by code_simp+
  have "acquire_attempt (sample_env ''t1'') ''scaleset/9'' ScaleSet Reserved 0 None sample_queue
    = (Inr (Acquired ''t1''),
       snd (acquire_attempt (sample_env ''t1'') ''scaleset/9'' ScaleSet Reserved 0 None sample_queue))"
    using a(1) by (metis prod.collapse)
  then show ?thesis
    using grants_oldest_first [OF conjunct1 [OF sample_queue_ok]] a by blast
qed

lemma refreshed_is_fresh:
  assumes "0 < now" "uint now \<le> i64_max"
  shows "i64_try_from_u64 (saturating_sub_word now DEMAND_STALE_AFTER_SECS) < i64_try_from_u64 now"
proof -
  have "0 < uint now" using assms(1) by (simp add: word_less_def)
  moreover have "uint (saturating_sub_word now DEMAND_STALE_AFTER_SECS) = max 0 (uint now - 300)"
    by (simp add: uint_saturating_sub DEMAND_STALE_AFTER_SECS_def)
  ultimately show ?thesis using assms(2) by (auto simp: i64_try_from_u64_def)
qed

lemma queue_head_touch:
  assumes wf: "ledger_wf L" and head: "queue_head (saturating_sub_word now DEMAND_STALE_AFTER_SECS) L = Some h"
    and clock: "0 < now" "uint now \<le> i64_max"
  shows "queue_head (saturating_sub_word now DEMAND_STALE_AFTER_SECS)
    (touch_demand h (i64_try_from_u64 now) L) = Some h"
proof -
  let ?M = "touch_demand h (i64_try_from_u64 now) L"
  obtain d where d: "map_of (permit_demands L) h = Some d" "fresh_eligible now d"
    and first: "\<forall>h' d'. h' \<noteq> h \<longrightarrow> map_of (permit_demands L) h' = Some d' \<longrightarrow> fresh_eligible now d'
      \<longrightarrow> ticket d < ticket d'"
    using queue_head_SomeD [OF wf head] by blast
  let ?d = "d\<lparr>q_updated_unix := i64_try_from_u64 now\<rparr>"
  have row: "map_of (permit_demands ?M) h = Some ?d" using d(1) by simp
  have "fresh_eligible now ?d" using d(2) refreshed_is_fresh [OF clock] by (simp add: fresh_eligible_def)
  then obtain h1 where h1: "queue_head (saturating_sub_word now DEMAND_STALE_AFTER_SECS) ?M = Some h1"
    using queue_head_exists [OF row] by blast
  obtain d1 where d1: "map_of (permit_demands ?M) h1 = Some d1" "fresh_eligible now d1"
    and first1: "\<forall>h' d'. h' \<noteq> h1 \<longrightarrow> map_of (permit_demands ?M) h' = Some d' \<longrightarrow> fresh_eligible now d'
      \<longrightarrow> ticket d1 < ticket d'"
    using queue_head_SomeD [OF wf_touch_demand [OF wf] h1] by blast
  have "h1 = h"
  proof (rule ccontr)
    assume "h1 \<noteq> h"
    then have "ticket d < ticket d1" using first d1 by simp
    moreover have "ticket d1 < ticket ?d"
      using first1 \<open>h1 \<noteq> h\<close> row \<open>fresh_eligible now ?d\<close> by metis
    moreover have "ticket ?d = ticket d" by (simp add: ticket_def)
    ultimately show False by simp
  qed
  then show ?thesis using h1 by simp
qed

text \<open>The attempt of the queue head succeeds when a slot is free.\<close>

lemma head_acquires:
  assumes wf: "ledger_wf L" and co: "coherent L" and n: "max_jobs L = Some n" "length (permits L) < unat n"
    and head: "queue_head (saturating_sub_word (unix_now env) DEMAND_STALE_AFTER_SECS) L = Some h"
    and d: "map_of (permit_demands L) h = Some d" "demand_in {Eligible} d" "q_lane d = PermitLane_as_str lane"
    and clock: "0 < unix_now env" "uint (unix_now env) \<le> i64_max"
    and uuid: "\<forall>h. owners L h \<noteq> Some (new_uuid env)"
  shows "\<exists>L'. acquire_attempt env h lane st (generation L) pid L = (Inr (Acquired (new_uuid env)), L')"
proof -
  let ?M = "touch_demand h (i64_try_from_u64 (unix_now env)) L"
  have free: "map_of (permits L) h = None"
    using coherentD [OF co, of h] d by (cases "map_of (permits L) h") (auto simp: demand_in_def)
  obtain dm where dm: "read_demand L h = Inr (Some dm)" using read_demand_wf [OF wf d(1)] by blast
  then have st: "d_state dm = Eligible" "d_lane dm = lane"
    using read_demand_SomeD [OF dm] d by (auto simp: demand_in_def)
  then have en: "ensure_demand_tx h lane [] (unix_now env) (unix_now env) Eligible L = Inr (dm, L)"
    using dm by (simp add: ensure_demand_tx_def check_demand_lane_def)
  have len: "\<not> uint n \<le> int (length (permits L))"
    using n(2) unfolding unat_eq_nat_uint zless_nat_eq_int_zless by simp
  have "\<not> token_taken h (new_uuid env) ?M"
    using uuid wf by (auto simp: token_taken_def owners_def map_of_eq_Some_iff ledger_wf_distinct)
  then obtain L2 where "insert_permit h lane st (i64_try_from_u64 (unix_now env)) (generation L) pid
      (new_uuid env) ?M = Inr L2"
    by (simp add: insert_permit_def)
  then have "grant_tx env h lane st (generation L) pid None n ?M = Commit (Acquired (new_uuid env))
      (put_demand_state h Granted (i64_try_from_u64 (unix_now env)) (\<lambda>_. True) L2)"
    using queue_head_touch [OF wf head clock] len by (simp add: grant_tx_def Let_def)
  then show ?thesis
    using free n(1) en st by (simp add: acquire_attempt_def acquire_attempt_with_token_def revive_demand_def Let_def)
qed

text \<open>C8. A free slot is usable.  Whenever fewer than \<open>N\<close> permits are held and some demand is waiting
  (eligible and fresh), there is a waiting demand, at least as old, whose holder's next attempt is
  granted.  The queue cannot block itself.\<close>

theorem free_slot_is_usable:
  assumes "ledger_wf L" "coherent L" "max_jobs L = Some n" "length (permits L) < unat n"
    and "map_of (permit_demands L) h0 = Some d0" "fresh_eligible (unix_now env) d0"
    and "0 < unix_now env" "uint (unix_now env) \<le> i64_max"
    and "\<forall>h. owners L h \<noteq> Some (new_uuid env)"
  shows "\<exists>h d lane. map_of (permit_demands L) h = Some d \<and> fresh_eligible (unix_now env) d
    \<and> ticket d \<le> ticket d0 \<and> q_lane d = PermitLane_as_str lane
    \<and> (\<forall>st pid. \<exists>L'. acquire_attempt env h lane st (generation L) pid L
                      = (Inr (Acquired (new_uuid env)), L'))"
proof -
  obtain h where h: "queue_head (saturating_sub_word (unix_now env) DEMAND_STALE_AFTER_SECS) L = Some h"
    using queue_head_exists [OF assms(5,6)] by blast
  obtain d where d: "map_of (permit_demands L) h = Some d" "fresh_eligible (unix_now env) d"
    and first: "\<forall>h' d'. h' \<noteq> h \<longrightarrow> map_of (permit_demands L) h' = Some d'
      \<longrightarrow> fresh_eligible (unix_now env) d' \<longrightarrow> ticket d < ticket d'"
    using queue_head_SomeD [OF assms(1) h] by blast
  have "ticket d \<le> ticket d0"
    using first assms(5,6) d(1) by (cases "h0 = h") (auto simp: less_imp_le)
  moreover obtain lane where "q_lane d = PermitLane_as_str lane"
    using ledger_wf_demand [OF assms(1) d(1)] by (auto elim: demand_okE)
  moreover have "demand_in {Eligible} d" using d(2) by (simp add: fresh_eligible_def)
  ultimately show ?thesis
    using head_acquires [OF assms(1-4) h d(1) _ _ assms(7-9)] d by blast
qed

theorem free_slot_is_usable_witness:
  "\<exists>h d lane. map_of (permit_demands sample_queue) h = Some d \<and> fresh_eligible 1000 d
    \<and> ticket d \<le> (900, 2) \<and> q_lane d = PermitLane_as_str lane
    \<and> (\<forall>st pid. \<exists>L'. acquire_attempt (sample_env ''t1'') h lane st 0 pid sample_queue
                      = (Inr (Acquired ''t1''), L'))"
proof -
  obtain d0 where d0: "map_of (permit_demands sample_queue) ''native/8'' = Some d0"
    "fresh_eligible 1000 d0" "ticket d0 = (900, 2)"
  proof
    show "map_of (permit_demands sample_queue) ''native/8'' =
        Some (the (map_of (permit_demands sample_queue) ''native/8''))" by code_simp
    show "fresh_eligible 1000 (the (map_of (permit_demands sample_queue) ''native/8''))" by code_simp
    show "ticket (the (map_of (permit_demands sample_queue) ''native/8'')) = (900, 2)" by code_simp
  qed
  have "max_jobs sample_queue = Some 1" "permits sample_queue = []" "generation sample_queue = 0"
    by code_simp+
  then show ?thesis
    using free_slot_is_usable [of sample_queue 1 "''native/8''" d0 "sample_env ''t1''"]
      sample_queue_ok d0 by (simp add: sample_env_def owners_def i64_max_def)
qed

end
