(* ===== verification/Ledger_Fencing.thy ===== *)
theory Ledger_Fencing
  imports Ledger_Properties
begin

text \<open>
  Fencing: a caller that fences on an old generation, or carries a token that is no longer the
  owner's, changes nothing.  Generations grow with every \<open>begin_epoch\<close>; adoption and rotation
  replace the owner's token.
\<close>

section \<open>Tokens\<close>

text \<open>The holder and attempt token of the calls that act for one attempt.\<close>

fun fenced_as :: "LedgerCall \<Rightarrow> (string \<times> string) option" where
  "fenced_as (Transition h st gen tok) = Some (h, tok)"
| "fenced_as (Claim_Cleanup h lane tok) = Some (h, tok)"
| "fenced_as (Release_Terminal h tok) = Some (h, tok)"
| "fenced_as (Release_Eligible h tok) = Some (h, tok)"
| "fenced_as (Release_Cancelled h tok) = Some (h, tok)"
| "fenced_as (Release_ScaleSet_Staged h tok nxt) = Some (h, tok)"
| "fenced_as (Release_Native_Terminal h tok) = Some (h, tok)"
| "fenced_as (Release_Native_Cancelled h tok) = Some (h, tok)"
| "fenced_as (Retain_Uncertain h gen tok) = Some (h, tok)"
| "fenced_as (Retain_After_Cleanup h tok) = Some (h, tok)"
| "fenced_as (Retain_Recorded_Failure h gen tok) = Some (h, tok)"
| "fenced_as _ = None"

definition same_tables :: "PermitLedger \<Rightarrow> PermitLedger \<Rightarrow> bool" where
  "same_tables L L' \<longleftrightarrow> permits L' = permits L \<and> permit_demands L' = permit_demands L"

lemma same_tables_refl [simp]: "same_tables L L"
  by (simp add: same_tables_def)

lemma same_tables_run_tx:
  "(\<And>a L'. t = Commit a L' \<Longrightarrow> same_tables L L') \<Longrightarrow> same_tables L (snd (run_tx t L))"
  by (rule run_tx_keeps [where P = "same_tables L"]) simp_all

lemma owners_not: "owners L h \<noteq> Some tok \<Longrightarrow> map_of (permits L) h = Some r \<Longrightarrow> p_attempt_token r \<noteq> tok"
  by (auto simp: owners_def)

lemma stale_owned_state:
  assumes "owners L h \<noteq> Some tok" shows "\<exists>e. read_owned_attempt_state L h tok = Inl e"
  using assms by (auto simp: read_owned_attempt_state_def owners_def split: option.splits)

lemma stale_transition:
  assumes "owners L h \<noteq> Some tok"
  shows "same_tables L (snd (transition_for_attempt env h st gen tok L))"
    "same_tables L (snd (retain_uncertain_for_attempt env h gen tok L))"
    "same_tables L (snd (retain_recorded_failure_uncertain_owned env h gen tok L))"
  using stale_owned_state [OF assms]
  by (auto simp: transition_for_attempt_def retain_uncertain_for_attempt_def
      retain_recorded_failure_uncertain_owned_def)

lemma stale_release:
  assumes "owners L h \<noteq> Some tok" "ledger_wf L"
  shows "same_tables L (snd (release_with_demand_state env h nxt tok L))"
proof (cases "release_with_demand_state env h nxt tok L")
  case (Pair r L')
  then show ?thesis
    using assms(2)
    by (cases rule: release_with_demand_state_cases) (use Pair assms(1) in \<open>auto simp: owners_def\<close>)
qed

lemma stale_release_scaleset:
  assumes "owners L h \<noteq> Some tok"
  shows "same_tables L (snd (release_scaleset_staged_owned env h tok nxt L))"
proof (cases "release_scaleset_staged_owned env h tok nxt L")
  case (Pair r L')
  then show ?thesis
    by (cases rule: release_scaleset_cases) (use Pair assms in \<open>auto simp: owners_def\<close>)
qed

lemma stale_release_native:
  assumes "owners L h \<noteq> Some tok"
  shows "same_tables L (snd (release_native_owned_with_terminal_demand env h tok nxt L))"
proof (cases "release_native_owned_with_terminal_demand env h tok nxt L")
  case (Pair r L')
  then show ?thesis
    by (cases rule: release_native_cases) (use Pair assms in \<open>auto simp: owners_def same_tables_def\<close>)
qed

lemma stale_retain_after_cleanup:
  assumes "owners L h \<noteq> Some tok"
  shows "same_tables L (snd (retain_uncertain_after_cleanup_owned env h tok L))"
proof (cases "retain_uncertain_after_cleanup_owned env h tok L")
  case (Pair r L')
  then show ?thesis
    using retain_after_cleanup_disj [OF Pair] assms by (auto simp: owners_def)
qed

lemma stale_claim_cleanup:
  assumes "owners L h = Some t" "t \<noteq> tok"
  shows "same_tables L (snd (claim_recorded_terminal_cleanup env h lane tok L))"
proof -
  obtain r where r: "map_of (permits L) h = Some r" "p_attempt_token r \<noteq> tok"
    using assms by (auto simp: owners_def)
  have "same_tables L L'" if "cleanup_present_tx env h lane tok r L = Commit a L'" for a L'
    using that r(2) unfolding cleanup_present_tx_def by (auto simp: try_tx_Commit split: if_splits)
  then show ?thesis
    using r(1) by (auto simp: claim_recorded_terminal_cleanup_def intro!: same_tables_run_tx)
qed

lemma stale_call:
  assumes "ledger_wf L" "fenced_as c = Some (h, tok)" "owners L h \<noteq> Some tok"
    and "owners L h \<noteq> None \<or> (\<forall>lane. c \<noteq> Claim_Cleanup h lane tok)"
  shows "same_tables L (apply_call env c L)"
proof (cases c)
  case (Claim_Cleanup h' lane tok')
  then obtain t where "owners L h = Some t" "t \<noteq> tok" using assms by auto
  then show ?thesis using Claim_Cleanup assms(2) stale_claim_cleanup by simp
qed (use assms in \<open>auto simp: owned_call_defs stale_transition stale_release stale_release_scaleset
      stale_release_native stale_retain_after_cleanup\<close>)

text \<open>C15. Token fencing.  A transition, cleanup claim, release or retain call whose token is not the
  owner's current token changes neither the permits nor the demands.  (A cleanup claim for a
  holder without a permit is the one call that acts without an owner: it closes the demand.)\<close>

theorem stale_token_changes_nothing:
  assumes "ledger_wf L" "fenced_as c = Some (h, tok)" "owners L h \<noteq> Some tok"
    and "owners L h \<noteq> None \<or> (\<forall>lane. c \<noteq> Claim_Cleanup h lane tok)"
  shows "permits (apply_call env c L) = permits L
    \<and> permit_demands (apply_call env c L) = permit_demands L"
  using stale_call [OF assms] by (simp add: same_tables_def)

definition sample_held :: PermitLedger where
  "sample_held = run_calls (take 2 sample_calls) empty_ledger"

lemma sample_held_ok: "ledger_wf sample_held \<and> coherent sample_held"
  unfolding sample_held_def using run_calls_ok [OF sample_prefix_ok] empty_ledger_ok by blast

lemma sample_held_owner: "owners sample_held ''native/1'' = Some ''t1''"
  by code_simp

theorem stale_token_changes_nothing_witness:
  "permits (apply_call (sample_env ''x'') (Release_Native_Terminal ''native/1'' ''old'') sample_held)
     = permits sample_held
   \<and> permit_demands (apply_call (sample_env ''x'') (Release_Native_Terminal ''native/1'' ''old'') sample_held)
     = permit_demands sample_held"
  using stale_token_changes_nothing [of sample_held "Release_Native_Terminal ''native/1'' ''old''"
      "''native/1''" "''old''"] sample_held_ok sample_held_owner by simp

section \<open>Adoption and rotation\<close>

text \<open>When an adoption succeeds: the row's recorded process is dead, or it is this process and the
  attempt was retained as uncertain with a terminal demand.\<close>

definition adoptable :: "PermitLane \<Rightarrow> u32 \<Rightarrow> (u32 \<Rightarrow> bool) \<Rightarrow> PermitRow \<Rightarrow> DemandRow option \<Rightarrow> bool" where
  "adoptable lane pid alive row d \<longleftrightarrow>
     (\<exists>row_pid. p_pid row = Some (uint row_pid)
        \<and> (\<not> alive row_pid \<or> lane = Native \<and> row_pid = pid \<and> p_state row = ''uncertain''
             \<and> map_option q_state d = Some ''terminal''))"

lemma adopt_Adopted:
  assumes "adopt_for_redelivery env h lane st gen pid alive L = (Inr (Adopted tok), L')"
  shows "tok = new_uuid env \<and> generation L = gen \<and> owners L' = (owners L)(h \<mapsto> tok)
    \<and> length (permits L') = length (permits L)
    \<and> (\<exists>row. map_of (permits L) h = Some row \<and> p_lane row = PermitLane_as_str lane
        \<and> adoptable lane pid alive row (map_of (permit_demands L) h))"
proof (cases "map_of (permits L) h")
  case None
  then show ?thesis using assms by (simp add: adopt_for_redelivery_def split: if_splits)
next
  case (Some row)
  show ?thesis
  proof (cases "Option.bind (p_pid row) u32_try_from_i64")
    case None
    then show ?thesis using assms Some by (simp add: adopt_for_redelivery_def split: if_splits)
  next
    case pid: (Some row_pid)
    let ?M = "L\<lparr>permits := tbl_update h (\<lambda>_. True)
      (adopt_row st (i64_try_from_u64 (unix_now env)) gen pid (new_uuid env)) (permits L)\<rparr>"
    have p: "p_pid row = Some (uint row_pid)" using pid by (auto simp: bind_eq_Some_conv int_conv)
    have facts: "generation L = gen" "p_lane row = PermitLane_as_str lane"
      "\<not> (alive row_pid \<and> \<not> (lane = Native \<and> row_pid = pid \<and> p_state row = PermitState_as_str Uncertain
        \<and> map_option q_state (map_of (permit_demands L) h) = Some (DemandState_as_str Terminal)))"
      "run_tx (try_tx (grant_demand_tx h lane (unix_now env) (i64_try_from_u64 (unix_now env)) ?M)
        (Commit (Adopted (new_uuid env)))) L = (Inr (Adopted tok), L')"
      using assms Some pid by (simp_all add: adopt_for_redelivery_def Let_def split: if_split_asm)
    then have g: "grant_demand_tx h lane (unix_now env) (i64_try_from_u64 (unix_now env)) ?M = Inr L'"
      and "tok = new_uuid env"
      by (cases "grant_demand_tx h lane (unix_now env) (i64_try_from_u64 (unix_now env)) ?M"; simp)+
    moreover have "adoptable lane pid alive row (map_of (permit_demands L) h)"
      using facts(3) p unfolding adoptable_def
      by (intro exI [of _ row_pid]) (auto simp: PermitState_as_str_def DemandState_as_str_def)
    moreover have "owners L' = (owners L)(h \<mapsto> new_uuid env)" "length (permits L') = length (permits L)"
      using owners_grant_demand_tx [OF g] grant_demand_tx_sel(1) [OF g] Some by (simp_all add: owners_retoken)
    ultimately show ?thesis using facts(1,2) Some by simp
  qed
qed

text \<open>C16. Redelivery.  An adoption keeps the number of permits, takes over only the row of a dead
  process or this process's own retained attempt, in the caller's lane and generation, and from
  then on every call that still carries the previous attempt's token changes nothing.\<close>

theorem adoption_fences_previous_attempt:
  assumes "ledger_wf L" "new_uuid env \<noteq> []" "owners L h = Some t" "t \<noteq> new_uuid env"
    and "adopt_for_redelivery env h lane st gen pid alive L = (Inr (Adopted tok), L')"
    and "fenced_as c = Some (h, t)"
  shows "owners L' = (owners L)(h \<mapsto> tok) \<and> length (permits L') = length (permits L)
    \<and> (\<exists>row. map_of (permits L) h = Some row \<and> p_lane row = PermitLane_as_str lane
         \<and> adoptable lane pid alive row (map_of (permit_demands L) h))
    \<and> permits (apply_call env' c L') = permits L'
    \<and> permit_demands (apply_call env' c L') = permit_demands L'"
proof -
  note ad = adopt_Adopted [OF assms(5)]
  have wf: "ledger_wf L'" using wf_adopt_for_redelivery [OF assms(1,2), of h lane st gen pid alive] assms(5)
    by simp
  have "owners L' h = Some tok" "tok \<noteq> t" using ad assms(4) by auto
  then have "same_tables L' (apply_call env' c L')" using stale_call [OF wf assms(6)] by simp
  then show ?thesis using ad by (simp add: same_tables_def)
qed

theorem adoption_fences_previous_attempt_witness:
  "owners (snd (adopt_for_redelivery (sample_env ''t9'') ''native/1'' Native Reserved 0 9 (\<lambda>p. p = 9) sample_held))
     = (owners sample_held)(''native/1'' \<mapsto> ''t9'')
   \<and> permits (apply_call (sample_env ''x'') (Release_Terminal ''native/1'' ''t1'')
       (snd (adopt_for_redelivery (sample_env ''t9'') ''native/1'' Native Reserved 0 9 (\<lambda>p. p = 9) sample_held)))
     = permits (snd (adopt_for_redelivery (sample_env ''t9'') ''native/1'' Native Reserved 0 9 (\<lambda>p. p = 9) sample_held))"
proof -
  let ?r = "adopt_for_redelivery (sample_env ''t9'') ''native/1'' Native Reserved 0 9 (\<lambda>p. p = 9) sample_held"
  have "fst ?r = Inr (Adopted ''t9'')" by code_simp
  then have "?r = (Inr (Adopted ''t9''), snd ?r)" by (metis prod.collapse)
  then show ?thesis
    using adoption_fences_previous_attempt [of sample_held "sample_env ''t9''" "''native/1''" "''t1''"
        Native Reserved 0 9 "\<lambda>p. p = 9" "''t9''" "snd ?r" "Release_Terminal ''native/1'' ''t1''"
        "sample_env ''x''"]
      sample_held_ok sample_held_owner by (simp add: sample_env_def)
qed

section \<open>Generations\<close>

text \<open>The generation never decreases and stays an \<open>i64\<close>.\<close>

lemma generation_apply_call:
  assumes "meta_generation L \<le> i64_max"
  shows "meta_generation L \<le> meta_generation (apply_call env c L)
    \<and> meta_generation (apply_call env c L) \<le> i64_max"
proof -
  have gen: "meta_generation M = fst (snd (metas M))" for M by (simp add: metas_def)
  show ?thesis
  proof (cases "configures c")
    case False
    then show ?thesis using metas_apply_call [of c env L] assms by (simp add: gen)
  next
    case True
    then show ?thesis
    proof (cases c)
      case (Reconcile al ro re ac)
      then show ?thesis using metas_reconcile [of env al ro re ac L] assms by (auto simp: gen)
    next
      case Begin_Epoch
      then show ?thesis using assms by (simp add: begin_epoch_def Let_def i64_saturating_add1_def)
    qed (use assms in \<open>auto simp: set_max_jobs_def set_max_jobs_if_unset_def\<close>)
  qed
qed

lemma generation_run_calls:
  assumes "meta_generation L \<le> i64_max"
  shows "meta_generation L \<le> meta_generation (run_calls cs L) \<and> meta_generation (run_calls cs L) \<le> i64_max"
  using assms
proof (induction cs arbitrary: L)
  case Nil
  then show ?case by simp
next
  case (Cons c cs)
  have s: "meta_generation L \<le> meta_generation (apply_call (fst c) (snd c) L)"
    "meta_generation (apply_call (fst c) (snd c) L) \<le> i64_max"
    using generation_apply_call [OF Cons.prems] by auto
  then show ?case using Cons.IH [OF s(2)] by simp
qed

lemma generation_inj:
  assumes "0 \<le> a" "a < b" "b \<le> i64_max" shows "u64_max0 a \<noteq> u64_max0 b"
  using assms by (simp add: u64_max0_def i64_max_def word_of_int_eq_iff take_bit_eq_mod)



end
