(* ===== verification/Ledger_Recovery.thy ===== *)
theory Ledger_Recovery
  imports Ledger_Fencing
begin

text \<open>
  Epochs, reconciliation and crash recovery: what is advertised, what reconciliation does to each
  row, and that the operations a recovering process repeats are idempotent.
\<close>

section \<open>Demands\<close>

text \<open>C18. Tickets.  A demand row is never deleted; its lane, scope, first observation and sequence
  never change; and a terminal or cancelled demand stays terminal or cancelled, under every
  sequence of calls.\<close>

theorem demand_tickets_are_permanent:
  assumes "map_of (permit_demands L) h = Some d"
  shows "\<exists>d'. map_of (permit_demands (run_calls cs L)) h = Some d' \<and> same_ticket d d'
    \<and> (demand_in {Terminal, Cancelled} d \<longrightarrow> demand_in {Terminal, Cancelled} d')"
  using evolve_run_calls [of L cs] assms by (simp add: demands_evolve_def)

theorem demand_tickets_are_permanent_witness:
  "\<exists>d'. map_of (permit_demands (run_calls (drop 2 sample_calls) sample_held)) ''native/1'' = Some d'
    \<and> same_ticket (the (map_of (permit_demands sample_held) ''native/1'')) d'
    \<and> demand_in {Terminal} d'"
proof -
  let ?d = "the (map_of (permit_demands sample_held) ''native/1'')"
  have "map_of (permit_demands sample_held) ''native/1'' = Some ?d" by code_simp
  then obtain d' where d': "map_of (permit_demands (run_calls (drop 2 sample_calls) sample_held)) ''native/1'' = Some d'"
    "same_ticket ?d d'"
    using demand_tickets_are_permanent by blast
  have "demand_in {Terminal}
      (the (map_of (permit_demands (run_calls (drop 2 sample_calls) sample_held)) ''native/1''))"
    by code_simp
  then show ?thesis using d' by simp
qed

lemma closed_stays_out:
  assumes "uuids_ok cs" "ledger_wf L" "owners L h = None"
    and "map_of (permit_demands L) h = Some d" "demand_in {Terminal, Cancelled} d"
  shows "owners (run_calls cs L) h = None"
proof -
  let ?P = "\<lambda>M. ledger_wf M \<and> owners M h = None
    \<and> (\<exists>d. map_of (permit_demands M) h = Some d \<and> demand_in {Terminal, Cancelled} d)"
  have "?P (run_calls cs L)"
  proof (rule run_calls_keeps)
    fix env :: Env and c M assume c: "new_uuid env \<noteq> []" and M: "?P M"
    have "owners (apply_call env c M) h = None"
    proof (rule ccontr)
      assume "owners (apply_call env c M) h \<noteq> None"
      then show False using owner_gained [of M h env c] M by auto
    qed
    moreover have "\<exists>d. map_of (permit_demands (apply_call env c M)) h = Some d
        \<and> demand_in {Terminal, Cancelled} d"
      using evolve_apply_call [of M env c] M unfolding demands_evolve_def by blast
    ultimately show "?P (apply_call env c M)" using M c by (simp add: wf_apply_call)
  qed (use assms in auto)
  then show ?thesis by blast
qed

text \<open>C19. Finished work stays finished.  Once a holder without a permit has a terminal or cancelled
  demand, no sequence of calls gives it a permit again.\<close>

theorem closed_demand_never_regains_permit:
  assumes "uuids_ok cs" "ledger_wf L" "owners L h = None"
    and "map_of (permit_demands L) h = Some d" "demand_in {Terminal, Cancelled} d"
  shows "owners (run_calls cs L) h = None"
  using assms by (rule closed_stays_out)

theorem closed_demand_never_regains_permit_witness:
  "owners (run_calls [(sample_env ''t8'', Acquire ''native/1'' Native Reserved 0 (Some 7))]
     (run_calls sample_calls empty_ledger)) ''native/1'' = None"
proof -
  let ?L = "run_calls sample_calls empty_ledger"
  have "map_of (permit_demands ?L) ''native/1'' = Some (the (map_of (permit_demands ?L) ''native/1''))"
    "demand_in {Terminal, Cancelled} (the (map_of (permit_demands ?L) ''native/1''))"
    "owners ?L ''native/1'' = None"
    by code_simp+
  moreover have "ledger_wf ?L" using run_calls_ok [OF sample_calls_ok] empty_ledger_ok by blast
  ultimately show ?thesis
    using closed_demand_never_regains_permit
      [of "[(sample_env ''t8'', Acquire ''native/1'' Native Reserved 0 (Some 7))]" ?L]
    by (simp add: sample_env_def)
qed

section \<open>Advertised capacity\<close>

fun reconciles :: "LedgerCall \<Rightarrow> bool" where
  "reconciles (Reconcile al ro re ac) = True"
| "reconciles _ = False"

lemma unreconciled_apply_call:
  assumes "meta_reconciled_generation L < meta_generation L" "meta_generation L \<le> i64_max" "\<not> reconciles c"
  shows "meta_reconciled_generation (apply_call env c L) < meta_generation (apply_call env c L)"
proof -
  have gen: "meta_generation M = fst (snd (metas M))" "meta_reconciled_generation M = fst (snd (snd (metas M)))"
    for M by (simp_all add: metas_def)
  show ?thesis
  proof (cases "configures c")
    case False
    then show ?thesis using metas_apply_call [of c env L] assms(1) by (simp add: gen)
  next
    case True
    then show ?thesis
    proof (cases c)
      case Begin_Epoch
      then show ?thesis using assms by (simp add: begin_epoch_def Let_def i64_saturating_add1_def)
    qed (use assms in \<open>auto simp: set_max_jobs_def set_max_jobs_if_unset_def\<close>)
  qed
qed

text \<open>C20. No advertising before reconciliation.  After a daemon begins an epoch, the ledger advertises
  no free capacity until some reconciliation runs.\<close>

theorem no_advertising_before_reconcile:
  assumes "meta_reconciled_generation L \<le> meta_generation L" "meta_generation L < i64_max"
    and "\<forall>(env, c) \<in> set cs. \<not> reconciles c"
  shows "advertised_free (run_calls cs (snd (begin_epoch L))) = None"
proof -
  have *: "meta_reconciled_generation M < meta_generation M \<Longrightarrow> meta_generation M \<le> i64_max \<Longrightarrow>
      \<forall>(env, c) \<in> set cs. \<not> reconciles c \<Longrightarrow>
      meta_reconciled_generation (run_calls cs M) < meta_generation (run_calls cs M)" for M
  proof (induction cs arbitrary: M)
    case Nil
    then show ?case by simp
  next
    case (Cons c cs)
    then have "meta_reconciled_generation (apply_call (fst c) (snd c) M) < meta_generation (apply_call (fst c) (snd c) M)"
      by (intro unreconciled_apply_call) auto
    then show ?case using Cons generation_apply_call [OF Cons.prems(2)] by auto
  qed
  have "meta_reconciled_generation (snd (begin_epoch L)) < meta_generation (snd (begin_epoch L))"
    "meta_generation (snd (begin_epoch L)) \<le> i64_max"
    using assms(1,2) by (auto simp: begin_epoch_def Let_def i64_saturating_add1_def)
  then show ?thesis using * assms(3) by (fastforce simp: advertised_free_def reconciled_def)
qed

theorem no_advertising_before_reconcile_witness:
  "advertised_free (run_calls [(sample_env ''t9'', Set_Max_Jobs 4)] (snd (begin_epoch sample_held))) = None"
proof -
  have "meta_reconciled_generation sample_held = -1" "meta_generation sample_held = 0" by code_simp+
  then show ?thesis
    using no_advertising_before_reconcile [of sample_held "[(sample_env ''t9'', Set_Max_Jobs 4)]"]
    by (simp add: i64_max_def)
qed

lemma count_u32_cases:
  "unat (count_u32 n) = min n 4294967295"
proof (cases "n \<le> 4294967295")
  case True
  then show ?thesis by (simp add: count_u32_def u32_try_from_i64_def unat_of_nat)
next
  case False
  then show ?thesis by (simp add: count_u32_def u32_try_from_i64_def u32_max_def)
qed

text \<open>C21. Advertised capacity is real.  When the ledger advertises a number, this epoch is reconciled
  and the number is exactly \<open>N\<close> minus the permits held, or zero when a smaller \<open>N\<close> was configured
  later.\<close>

theorem advertised_free_is_exact:
  assumes "advertised_free L = Some k"
  shows "reconciled L \<and> unat k = limit L - length (permits L)"
proof -
  obtain n where n: "max_jobs L = Some n" "k = saturating_sub_word n (occupied L)" "reconciled L"
    using assms by (auto simp: advertised_free_def split: if_splits option.splits)
  have "unat k = unat n - unat (occupied L)"
    unfolding n(2) using unat_sub [of "occupied L" n]
    by (auto simp: saturating_sub_word_def word_le_nat_alt)
  moreover have "unat n \<le> 4294967295" using unsigned_less [of n, where ?'a = nat] by simp
  ultimately show ?thesis
    using n(1,3) by (auto simp: occupied_def count_u32_cases limit_def min_def)
qed

theorem advertised_free_is_exact_witness:
  "advertised_free (sample_held\<lparr>meta_reconciled_generation := 0\<rparr>) = Some 0
   \<and> unat (0 :: u32) = limit (sample_held\<lparr>meta_reconciled_generation := 0\<rparr>) - length (permits sample_held)"
proof -
  have a: "advertised_free (sample_held\<lparr>meta_reconciled_generation := 0\<rparr>) = Some 0" by code_simp
  then show ?thesis using advertised_free_is_exact [OF a] by simp
qed

end
