(* ===== verification/Ledger_Reconcile.thy ===== *)
theory Ledger_Reconcile
  imports Ledger_Recovery
begin

text \<open>
  What a reconciliation does to each row, and the operations a recovering process repeats:
  rotation, staged acquisition, native release and the recovery claim.
\<close>

section \<open>The observation loops\<close>

text \<open>The loops over observations record every holder they name and keep the permit table.\<close>

lemma reconcile_alive_observed:
  "reconcile_alive now xs (ob, cf, L) = Inr (ob', cf', L') \<Longrightarrow>
     set ob' = set ob \<union> fst ` set xs \<and> set cf' = set cf \<union> fst ` set xs
     \<and> permits L' = permits L \<and> metas L' = metas L
     \<and> (\<forall>(h, lane, tok) \<in> set xs. owners L h = Some tok \<and> tok \<noteq> [])"
proof (induction xs arbitrary: ob cf L)
  case Nil
  then show ?case by simp
next
  case (Cons x xs)
  obtain h lane tok where x: "x = (h, lane, tok)" by (cases x)
  obtain r L1 where r: "map_of (permits L) h = Some r" "p_attempt_token r = tok" "tok \<noteq> []"
      "grant_demand_tx h lane (u64_max0 now) now L = Inr L1"
      "reconcile_alive now xs (h # ob, cf @ [h], L1) = Inr (ob', cf', L')"
    using Cons.prems by (auto simp: x try_sum_Inr split: if_splits option.splits)
  have L1: "permits L1 = permits L" "metas L1 = metas L" "owners L1 = owners L"
    using grant_demand_tx_sel(1) metas_grant_demand_tx owners_grant_demand_tx r(4) by auto
  then show ?case using Cons.IH [OF r(5)] r(1-3) by (auto simp: x owners_def)
qed

lemma reconcile_rotations_observed:
  "reconcile_rotations now xs (ob, cf, L) = Inr (ob', cf', L') \<Longrightarrow>
     set ob' = set ob \<union> fst ` set xs \<and> permits L' = permits L \<and> metas L' = metas L"
proof (induction xs arbitrary: ob cf L)
  case Nil
  then show ?case by simp
next
  case (Cons x xs)
  obtain h lane pt tok where x: "x = (h, lane, pt, tok)" by (cases x)
  obtain L1 where r: "grant_demand_tx h ScaleSet (u64_max0 now) now L = Inr L1"
      "reconcile_rotations now xs (h # ob, cf @ [h], L1) = Inr (ob', cf', L')"
    using Cons.prems by (auto simp: x try_sum_Inr split: if_splits option.splits)
  have "permits L1 = permits L" "metas L1 = metas L"
    using grant_demand_tx_sel(1) metas_grant_demand_tx r(1) by auto
  then show ?case using Cons.IH [OF r(2)] by (auto simp: x)
qed

lemma reconcile_releases_observed:
  "reconcile_releases xs (ob, cf, L) = Inr (ob', cf', L') \<Longrightarrow> set ob' = set ob \<union> fst ` set xs"
proof (induction xs arbitrary: ob cf)
  case Nil
  then show ?case by simp
next
  case (Cons x xs)
  obtain h lane tok target where x: "x = (h, lane, tok, target)" by (cases x)
  obtain cf1 where "reconcile_releases xs (h # ob, cf1, L) = Inr (ob', cf', L')"
    using Cons.prems by (auto simp: x split: if_splits option.splits)
  then show ?case using Cons.IH by (auto simp: x)
qed

lemma reconcile_acquisitions_observed:
  "reconcile_acquisitions xs (ob, cf, L) = Inr (ob', cf', L') \<Longrightarrow> set ob' = set ob \<union> fst ` set xs"
proof (induction xs arbitrary: ob cf)
  case Nil
  then show ?case by simp
next
  case (Cons x xs)
  obtain h lane tok where x: "x = (h, lane, tok)" by (cases x)
  obtain cf1 where "reconcile_acquisitions xs (h # ob, cf1, L) = Inr (ob', cf', L')"
    using Cons.prems by (auto simp: x split: if_splits option.splits)
  then show ?case using Cons.IH by (auto simp: x)
qed

section \<open>The unobserved rows\<close>

definition uncertain_row :: "int \<Rightarrow> int \<Rightarrow> PermitRow \<Rightarrow> PermitRow" where
  "uncertain_row now gen r =
     (if not_cleaning r
      then r\<lparr>p_state := PermitState_as_str Uncertain, p_updated_unix := now, p_generation := gen\<rparr>
      else r)"

lemma map_of_mark_uncertain:
  "map_of (permits (mark_uncertain h now L)) h' =
     (if h' = h then map_option (uncertain_row now (meta_generation L))
                       (map_of (permits L) h)
      else map_of (permits L) h')"
  by (cases "map_of (permits L) h") (simp_all add: mark_uncertain_def uncertain_row_def)

lemma tbl_matches_not_cleaning:
  "distinct (map fst (permits L)) \<Longrightarrow> tbl_matches h not_cleaning (permits L) = 0 \<longleftrightarrow>
     (\<forall>r. map_of (permits L) h = Some r \<longrightarrow> \<not> not_cleaning r)"
  by (auto simp: tbl_matches_map_of split: option.splits)

definition marked_rows :: "int \<Rightarrow> string set \<Rightarrow> PermitLedger \<Rightarrow> string \<Rightarrow> PermitRow option" where
  "marked_rows now S L h =
     (if h \<in> S
      then map_option (uncertain_row now (meta_generation L))
             (map_of (permits L) h)
      else map_of (permits L) h)"

definition markable :: "string set \<Rightarrow> PermitLedger \<Rightarrow> string set" where
  "markable S L = {h \<in> S. \<exists>r. map_of (permits L) h = Some r \<and> not_cleaning r}"

lemma reconcile_unobserved_rows:
  "reconcile_unobserved now ob xs mk L = Inr (mk', L') \<Longrightarrow> distinct (map fst xs) \<Longrightarrow>
   distinct (map fst (permits L)) \<Longrightarrow>
   map_of (permits L') = marked_rows now (fst ` set xs - set ob) L
   \<and> set mk' = set mk \<union> markable (fst ` set xs - set ob) L
   \<and> meta_generation L' = meta_generation L"
proof (induction xs arbitrary: mk L)
  case Nil
  then show ?case by (auto simp: marked_rows_def markable_def)
next
  case (Cons x xs)
  obtain h raw where x: "x = (h, raw)" by (cases x)
  have nh: "h \<notin> fst ` set xs" and d: "distinct (map fst xs)" using Cons.prems(2) by (simp_all add: x)
  consider (skip) "reconcile_unobserved now ob xs mk L = Inr (mk', L')"
      "h \<in> set ob \<or> (\<forall>r. map_of (permits L) h = Some r \<longrightarrow> \<not> not_cleaning r)"
    | (mark) lane L1 where "h \<notin> set ob" "\<exists>r. map_of (permits L) h = Some r \<and> not_cleaning r"
      "grant_demand_tx h lane (u64_max0 now) now (mark_uncertain h now L) = Inr L1"
      "reconcile_unobserved now ob xs (mk @ [h]) L1 = Inr (mk', L')"
    using Cons.prems(1) tbl_matches_not_cleaning [OF Cons.prems(3), of h]
    by (auto simp: x try_sum_Inr split: if_splits option.splits)
  then show ?case
  proof cases
    case skip
    have "map_option (uncertain_row now (meta_generation L))
        (map_of (permits L) h) = map_of (permits L) h" if "h \<notin> set ob"
      using skip(2) that by (cases "map_of (permits L) h") (auto simp: uncertain_row_def)
    then show ?thesis
      using Cons.IH [OF skip(1) d Cons.prems(3)] nh skip(2)
      by (auto simp: x marked_rows_def markable_def fun_eq_iff)
  next
    case (mark lane L1)
    note sel = grant_demand_tx_sel [OF mark(3)]
    have d1: "distinct (map fst (permits L1))" using sel(1) Cons.prems(3) by (simp add: mark_uncertain_def)
    have g: "meta_generation L1 = meta_generation L" using sel(3) by simp
    show ?thesis
      using Cons.IH [OF mark(4) d d1] nh mark(1,2)
      by (auto simp: x g sel(1) map_of_mark_uncertain marked_rows_def markable_def fun_eq_iff)
  qed
qed

lemma reconcile_finished:
  assumes "ledger_wf L"
    and "reconcile_attempts_with_staged_acquisitions env al ro re ac L = (Inr rep, L')"
  shows "reconciled L' \<and> (\<forall>(h, lane, tok) \<in> set al. owners L h = Some tok)
    \<and> map_of (permits L') = marked_rows (as_i64 (unix_now env))
        (- (fst ` set al \<union> fst ` set ro \<union> fst ` set re \<union> fst ` set ac)) L
    \<and> set (marked_uncertain rep)
        = markable (- (fst ` set al \<union> fst ` set ro \<union> fst ` set re \<union> fst ` set ac)) L"
  using assms(2)
proof (cases rule: reconcile_cases)
  case (finished s1 s2 s3 ob cf L4 mk L5)
  let ?now = "as_i64 (unix_now env)"
  let ?S = "fst ` set al \<union> fst ` set ro \<union> fst ` set re \<union> fst ` set ac"
  obtain o1 c1 L1 o2 c2 L2 o3 c3 L3 where s: "s1 = (o1, c1, L1)" "s2 = (o2, c2, L2)" "s3 = (o3, c3, L3)"
    by (cases s1, cases s2, cases s3)
  note a = reconcile_alive_observed [OF finished(1) [unfolded s]]
    and r = reconcile_rotations_observed [OF finished(2) [unfolded s]]
    and e = reconcile_releases_observed [OF finished(3) [unfolded s]]
    and q = reconcile_acquisitions_observed [OF finished(4) [unfolded s]]
  have L4: "L4 = L2"
    using reconcile_releases_same [OF finished(3) [unfolded s]]
      reconcile_acquisitions_same [OF finished(4) [unfolded s]] by simp
  have p: "permits L4 = permits L" "meta_generation L4 = meta_generation L"
    using a r L4 by (simp_all add: metas_def)
  have ob: "set ob = ?S" using a r e q by auto
  have keys: "map fst (map (\<lambda>(h, r). (h, p_lane r)) (permits L4)) = map fst (permits L)"
    by (simp add: p(1) comp_def case_prod_unfold)
  have d: "distinct (map fst (map (\<lambda>(h, r). (h, p_lane r)) (permits L4)))" "distinct (map fst (permits L4))"
    using ledger_wf_distinct [OF assms(1)] by (simp_all only: keys) (simp only: p(1))
  have k: "fst ` set (map (\<lambda>(h, r). (h, p_lane r)) (permits L4)) = fst ` set (permits L)"
    using arg_cong [OF keys, of set] by (simp only: set_map)
  have rows': "map_of (permits L5) = marked_rows ?now (fst ` set (permits L) - ?S) L4
     \<and> set mk = markable (fst ` set (permits L) - ?S) L4 \<and> meta_generation L5 = meta_generation L4"
    using reconcile_unobserved_rows [OF finished(5) d(1) d(2)] unfolding k ob by simp
  have out: "map_of (permits L) h = None" if "h \<notin> fst ` set (permits L)" for h
    using that by (simp add: map_of_eq_None_iff)
  have mr: "marked_rows ?now (fst ` set (permits L) - ?S) L4 = marked_rows ?now (- ?S) L"
    using out by (auto simp: marked_rows_def p fun_eq_iff)
  have mk: "markable (fst ` set (permits L) - ?S) L4 = markable (- ?S) L"
    using out by (fastforce simp: markable_def p)
  show ?thesis
    using rows' finished(6,7) a by (auto simp: mr mk reconciled_def)
qed simp

text \<open>C22. Reconciliation is all or nothing.  It either fails and changes nothing, or it confirms that
  every reported live attempt owns its permit, marks exactly the unobserved permits outside an
  active cleanup uncertain, leaves every other permit row as it was, and reconciles the epoch.
  No permit appears, disappears or changes owner.\<close>

theorem reconciliation_outcome:
  assumes "ledger_wf L"
    and "reconcile_attempts_with_staged_acquisitions env al ro re ac L = (res, L')"
    and "observed = fst ` set al \<union> fst ` set ro \<union> fst ` set re \<union> fst ` set ac"
  shows "(\<exists>e. res = Inl e \<and> L' = L)
    \<or> (\<exists>rep. res = Inr rep \<and> reconciled L' \<and> owners L' = owners L
        \<and> (\<forall>(h, lane, tok) \<in> set al. owners L h = Some tok)
        \<and> map_of (permits L') = marked_rows (as_i64 (unix_now env)) (- observed) L
        \<and> set (marked_uncertain rep) = markable (- observed) L)"
proof (cases res)
  case (Inl e)
  from assms(2) show ?thesis by (cases rule: reconcile_cases) (auto simp: Inl)
next
  case (Inr rep)
  have "owners L' = owners L" using owners_reconcile [of env al ro re ac L] assms(2) by simp
  then show ?thesis using reconcile_finished [OF assms(1) assms(2) [unfolded Inr]] Inr assms(3) by auto
qed

theorem reconciliation_outcome_witness:
  "fst (reconcile_attempts (sample_env ''x'') [] sample_held)
     = Inr \<lparr>marked_uncertain = [''native/1''], confirmed = []\<rparr>
   \<and> map_of (permits (snd (reconcile_attempts (sample_env ''x'') [] sample_held)))
     = marked_rows (as_i64 1000) (- {}) sample_held"
proof -
  let ?r = "reconcile_attempts (sample_env ''x'') [] sample_held"
  have f: "fst ?r = Inr \<lparr>marked_uncertain = [''native/1''], confirmed = []\<rparr>" by code_simp
  have "reconcile_attempts_with_staged_acquisitions (sample_env ''x'') [] [] [] [] sample_held = (fst ?r, snd ?r)"
    by (simp add: reconcile_attempts_def reconcile_attempts_with_staged_def
        reconcile_attempts_with_staged_releases_def)
  from reconciliation_outcome [OF _ this, of "{}"] f show ?thesis
    using sample_held_ok by (auto simp: sample_env_def)
qed

section \<open>Replays\<close>

lemma i64_roundtrip:
  assumes "0 \<le> g" "g \<le> i64_max" shows "u64_try_from_i64 (i64_try_from_u64 (u64_max0 g)) = Some (u64_max0 g)"
proof -
  have "uint (u64_max0 g) = g" using assms by (simp add: u64_max0_def i64_max_def uint_word_of_int_eq take_bit_eq_mod)
  then show ?thesis using assms by (simp add: i64_try_from_u64_def u64_try_from_i64_def u64_max0_def)
qed

lemma run_rotate_cas_tx_Rotated:
  "run_tx (rotate_cas_tx env h st gen pp pt target claim r L) L = (Inr Rotated, L')
    \<Longrightarrow> rotate_cas_tx env h st gen pp pt target claim r L = Commit Rotated L'"
  by (auto simp: rotate_cas_tx_def Let_def try_tx_def split: if_splits sum.splits)

lemma rotate_scaleset_RotatedE:
  assumes "rotate_scaleset_attempt_for_recovery env h st gen pp pt target claim L = (Inr Rotated, L')"
  shows "\<exists>row. generation L = gen \<and> map_of (permits L) h = Some row
    \<and> p_lane row = PermitLane_as_str ScaleSet \<and> recovery_claims L = Some (claim, uint (process_id env))
    \<and> rotate_cas_tx env h st gen pp pt target claim row L = Commit Rotated L'"
  using assms unfolding rotate_scaleset_attempt_for_recovery_def rotation_replay_def
  by (auto dest!: run_rotate_cas_tx_Rotated split: if_splits option.splits)

text \<open>C23. Rotation is idempotent.  After a successful rotation the owning recovery process may issue
  the same call again, at any later time, as long as it still holds the claim: the answer is
  \<open>AlreadyRotated\<close> and nothing changes.\<close>

theorem rotation_retry_is_idempotent:
  assumes "0 \<le> meta_generation L" "meta_generation L \<le> i64_max"
    and "rotate_scaleset_attempt_for_recovery env h st gen pp pt target claim L = (Inr Rotated, L')"
    and "process_id env' = process_id env"
  shows "rotate_scaleset_attempt_for_recovery env' h st gen pp pt target claim L'
    = (Inr AlreadyRotated, L')"
proof -
  obtain row where rotated: "generation L = gen" "map_of (permits L) h = Some row"
      "p_lane row = PermitLane_as_str ScaleSet" "recovery_claims L = Some (claim, uint (process_id env))"
      "rotate_cas_tx env h st gen pp pt target claim row L = Commit Rotated L'"
    using rotate_scaleset_RotatedE [OF assms(3)] by metis
  note cas = rotate_cas_tx_CommitD [OF rotated(5)]
  note sel = grant_demand_tx_sel [OF cas(7)]
  let ?f = "rotate_row st (i64_try_from_u64 (unix_now env)) gen (process_id env) target claim pp pt"
  have row: "map_of (permits L') h = Some (?f row)"
    using sel(1) rotated(2,3) cas(2) by simp
  have gen: "generation L' = gen" "u64_try_from_i64 (i64_try_from_u64 gen) = Some gen"
    using sel(3) rotated(1) i64_roundtrip [OF assms(1,2)] by (auto simp: generation_def)
  have claim: "recovery_claims L' = Some (claim, uint (process_id env'))"
    using sel(5) rotated(4) assms(4) by simp
  have guard: "\<not> (target = [] \<or> claim = [] \<or> pp = 0 \<or> pt = Some [] \<or> pt = Some target)"
    using assms(3) by (auto simp: rotate_scaleset_attempt_for_recovery_def split: if_splits)
  show ?thesis
    using row gen claim guard rotated(3)
    by (simp add: rotate_scaleset_attempt_for_recovery_def rotation_replay_def rotate_row_def)
qed

definition sample_claimed :: PermitLedger where
  "sample_claimed = run_calls
     [(sample_env ''t0'', Set_Max_Jobs 2),
      (sample_env ''t1'', Acquire_ScaleSet ''set/1'' Running 0 (Some 9) ''a1''),
      (sample_env ''claim'', Claim_Recovery (\<lambda>_. False))] empty_ledger"

theorem rotation_retry_is_idempotent_witness:
  "fst (rotate_scaleset_attempt_for_recovery (sample_env ''x'') ''set/1'' Reserved 0 9 (Some ''a1'')
      ''a2'' ''claim'' sample_claimed) = Inr Rotated
   \<and> fst (rotate_scaleset_attempt_for_recovery (sample_env ''y'') ''set/1'' Reserved 0 9 (Some ''a1'')
      ''a2'' ''claim'' (snd (rotate_scaleset_attempt_for_recovery (sample_env ''x'') ''set/1'' Reserved 0 9
        (Some ''a1'') ''a2'' ''claim'' sample_claimed))) = Inr AlreadyRotated"
proof -
  let ?r = "rotate_scaleset_attempt_for_recovery (sample_env ''x'') ''set/1'' Reserved 0 9 (Some ''a1'')
      ''a2'' ''claim'' sample_claimed"
  have r: "fst ?r = Inr Rotated" "meta_generation sample_claimed = 0" by code_simp+
  then have "?r = (Inr Rotated, snd ?r)" by (metis prod.collapse)
  then show ?thesis
    using rotation_retry_is_idempotent [of sample_claimed "sample_env ''x''" "''set/1''" Reserved 0 9
        "Some ''a1''" "''a2''" "''claim''" "snd ?r" "sample_env ''y''"] r
    by (simp add: i64_max_def sample_env_def)
qed

section \<open>The recovery claim and the grant backoff\<close>

fun claim_threat :: "u32 \<Rightarrow> string \<Rightarrow> LedgerCall \<Rightarrow> bool" where
  "claim_threat pid tok (Claim_Recovery alive) = (\<not> alive pid)"
| "claim_threat pid tok (Release_Recovery c) = (rc_token c = tok \<and> rc_owner_pid c = pid)"
| "claim_threat pid tok _ = False"

lemma claim_scaleset_recovery_busy:
  assumes "recovery_claims L = Some (tok, uint pid)" "alive pid"
  shows "\<exists>e. claim_scaleset_recovery env alive L = (Inl e, L)"
  using assms by (auto simp: claim_scaleset_recovery_def int_conv)

text \<open>C24. The recovery claim is exclusive.  While a process that the others see alive holds the Scale
  Set recovery claim, no sequence of ledger calls takes it away: it leaves only through the owner's
  own release.\<close>

theorem recovery_claim_is_exclusive:
  assumes "recovery_claims L = Some (tok, uint pid)"
    and "\<forall>(env, c) \<in> set cs. \<not> claim_threat pid tok c"
  shows "recovery_claims (run_calls cs L) = Some (tok, uint pid)"
  using assms
proof (induction cs arbitrary: L)
  case (Cons ec cs)
  obtain env c where ec: "ec = (env, c)" by (cases ec)
  have "recovery_claims (apply_call env c L) = recovery_claims L"
  proof (cases c)
    case (Claim_Recovery alive)
    then have "alive pid" using Cons.prems(2) ec by auto
    from claim_scaleset_recovery_busy [where alive = alive and env = env, OF Cons.prems(1) this] Claim_Recovery
    show ?thesis by auto
  next
    case (Release_Recovery c')
    then show ?thesis using Cons.prems ec by (auto simp: claim_release_def word_uint_eq_iff)
  next
    case (Reconcile al ro re ac)
    then show ?thesis using metas_reconcile [of env al ro re ac L] by (auto simp: metas_def)
  qed (use metas_apply_call [of c env L] in \<open>auto simp: metas_def set_max_jobs_def
      set_max_jobs_if_unset_def begin_epoch_def Let_def\<close>)
  then show ?case using Cons ec by auto
qed simp

theorem recovery_claim_is_exclusive_witness:
  "recovery_claims (run_calls [(sample_env ''other'', Claim_Recovery (\<lambda>p. p = 7)),
      (sample_env ''other'', Release_Recovery \<lparr>rc_token = ''guess'', rc_owner_pid = 7\<rparr>)] sample_claimed)
     = Some (''claim'', uint (7 :: u32))"
proof -
  have "recovery_claims sample_claimed = Some (''claim'', uint (7 :: u32))" by code_simp
  then show ?thesis
    by (intro recovery_claim_is_exclusive) auto
qed

lemma deferred_wait_min: "deferred_wait attempt = min (2 ^ unat attempt) 50"
proof (cases "attempt \<le> 10")
  case True
  then show ?thesis by (simp add: deferred_wait_def DEFERRED_WAIT_MIN_def DEFERRED_WAIT_MAX_def min_absorb1)
next
  case False
  then have "10 < unat attempt" by (simp add: word_le_nat_alt)
  then have "(2::nat) ^ 10 \<le> 2 ^ unat attempt" by (intro power_increasing) auto
  then show ?thesis using False
    by (simp add: deferred_wait_def DEFERRED_WAIT_MIN_def DEFERRED_WAIT_MAX_def min_def)
qed

text \<open>The wait of a deferred acquisition.  It doubles with every deferral, never exceeds
  \<open>DEFERRED_WAIT_MAX\<close>, and the exponent's clamp at ten never shortens it: a caller that waits
  later in the sequence never waits less.\<close>

theorem deferred_wait_bounds:
  "DEFERRED_WAIT_MIN \<le> deferred_wait a \<and> deferred_wait a \<le> DEFERRED_WAIT_MAX
   \<and> deferred_wait a = min (DEFERRED_WAIT_MIN * 2 ^ unat a) DEFERRED_WAIT_MAX
   \<and> deferred_wait (min a b) \<le> deferred_wait b"
proof -
  have "(2::nat) ^ unat (min a b) \<le> 2 ^ unat b"
    by (intro power_increasing) (auto simp: min_def word_le_nat_alt)
  then have "min (2 ^ unat (min a b)) 50 \<le> min (2 ^ unat b) (50 :: nat)"
    by (rule min.mono [OF _ order_refl])
  then show ?thesis
    by (auto simp: deferred_wait_min DEFERRED_WAIT_MIN_def DEFERRED_WAIT_MAX_def)
qed

end
