(* ===== verification/Job_Model.thy ===== *)
theory Job_Model
  imports Velnor_Prelude
begin

text \<open>
  The closed vocabularies and the two state machines of \<open>velnor-model\<close>: event reasons and the job
  state table (\<open>lifecycle.rs\<close>), slot phases, the slot graph and slot kinds (\<open>phase.rs\<close>).  Every
  \<open>try_from\<close> is the search over \<open>ALL\<close> that the code makes; its error value carries only the
  constant name of the vocabulary, so it is \<open>None\<close> here.
\<close>

section \<open>Event reasons and job states\<close>

datatype EventReason =
    ReadinessReady | ReadinessDegraded | DrainStarted | DrainCompleted | SlotStateChanged
  | RegistrationMissing | RegistrationOffline | RegistrationStaleBusy
  | JobAcquired | JobWaiting | JobStarted | JobCompleted | JobCanceled | JobRejected
  | CapacityPressure | GcStarted | GcCompleted

definition EventReason_ALL :: "EventReason list" where
  "EventReason_ALL =
     [ReadinessReady, ReadinessDegraded, DrainStarted, DrainCompleted, SlotStateChanged,
      RegistrationMissing, RegistrationOffline, RegistrationStaleBusy,
      JobAcquired, JobWaiting, JobStarted, JobCompleted, JobCanceled, JobRejected,
      CapacityPressure, GcStarted, GcCompleted]"

primrec EventReason_as_str :: "EventReason \<Rightarrow> string" where
  "EventReason_as_str ReadinessReady = ''readiness.ready''"
| "EventReason_as_str ReadinessDegraded = ''readiness.degraded''"
| "EventReason_as_str DrainStarted = ''drain.started''"
| "EventReason_as_str DrainCompleted = ''drain.completed''"
| "EventReason_as_str SlotStateChanged = ''slot.state_changed''"
| "EventReason_as_str RegistrationMissing = ''registration.missing''"
| "EventReason_as_str RegistrationOffline = ''registration.offline''"
| "EventReason_as_str RegistrationStaleBusy = ''registration.stale_busy''"
| "EventReason_as_str JobAcquired = ''job.acquired''"
| "EventReason_as_str JobWaiting = ''job.waiting''"
| "EventReason_as_str JobStarted = ''job.started''"
| "EventReason_as_str JobCompleted = ''job.completed''"
| "EventReason_as_str JobCanceled = ''job.canceled''"
| "EventReason_as_str JobRejected = ''job.rejected''"
| "EventReason_as_str CapacityPressure = ''capacity.pressure''"
| "EventReason_as_str GcStarted = ''gc.started''"
| "EventReason_as_str GcCompleted = ''gc.completed''"

definition is_job_transition :: "EventReason \<Rightarrow> bool" where
  "is_job_transition r \<longleftrightarrow>
     r \<in> {JobAcquired, JobWaiting, JobStarted, JobCompleted, JobCanceled, JobRejected}"

datatype JobState = Queued | Acquired | Waiting | Started | Completed | Canceled | Rejected

fun job_target :: "EventReason \<Rightarrow> JobState option" where
  "job_target JobAcquired = Some Acquired"
| "job_target JobWaiting = Some Waiting"
| "job_target JobStarted = Some Started"
| "job_target JobCompleted = Some Completed"
| "job_target JobCanceled = Some Canceled"
| "job_target JobRejected = Some Rejected"
| "job_target _ = None"

definition EventReason_try_from :: "string \<Rightarrow> EventReason option" where
  "EventReason_try_from raw = find (\<lambda>r. EventReason_as_str r = raw) EventReason_ALL"

definition JobState_ALL :: "JobState list" where
  "JobState_ALL = [Queued, Acquired, Waiting, Started, Completed, Canceled, Rejected]"

primrec JobState_as_str :: "JobState \<Rightarrow> string" where
  "JobState_as_str Queued = ''queued''"
| "JobState_as_str Acquired = ''acquired''"
| "JobState_as_str Waiting = ''waiting''"
| "JobState_as_str Started = ''started''"
| "JobState_as_str Completed = ''completed''"
| "JobState_as_str Canceled = ''canceled''"
| "JobState_as_str Rejected = ''rejected''"

definition is_terminal :: "JobState \<Rightarrow> bool" where
  "is_terminal s \<longleftrightarrow> s \<in> {Completed, Canceled, Rejected}"

definition JobState_try_from :: "string \<Rightarrow> JobState option" where
  "JobState_try_from raw = find (\<lambda>s. JobState_as_str s = raw) JobState_ALL"

fun transition_target :: "JobState \<Rightarrow> EventReason \<Rightarrow> JobState option" where
  "transition_target Queued JobAcquired = Some Acquired"
| "transition_target Acquired JobWaiting = Some Waiting"
| "transition_target Waiting JobStarted = Some Started"
| "transition_target Started JobCompleted = Some Completed"
| "transition_target Started JobCanceled = Some Canceled"
| "transition_target Started JobRejected = Some Rejected"
| "transition_target Acquired JobCanceled = Some Canceled"
| "transition_target Acquired JobRejected = Some Rejected"
| "transition_target Waiting JobCanceled = Some Canceled"
| "transition_target Waiting JobRejected = Some Rejected"
| "transition_target _ _ = None"

section \<open>Slot phases\<close>

datatype SlotPhase =
    Configuring | Idle | Acquiring | WaitingForCapacity | Running | Finalizing | Teardown
  | Recycling | Parked | Draining | Error

definition SlotPhase_ALL :: "SlotPhase list" where
  "SlotPhase_ALL =
     [Configuring, Idle, Acquiring, WaitingForCapacity, Running, Finalizing, Teardown,
      Recycling, Parked, Draining, Error]"

primrec SlotPhase_as_str :: "SlotPhase \<Rightarrow> string" where
  "SlotPhase_as_str Configuring = ''configuring''"
| "SlotPhase_as_str Idle = ''idle''"
| "SlotPhase_as_str Acquiring = ''acquiring''"
| "SlotPhase_as_str WaitingForCapacity = ''waiting-for-capacity''"
| "SlotPhase_as_str Running = ''running''"
| "SlotPhase_as_str Finalizing = ''finalizing''"
| "SlotPhase_as_str Teardown = ''teardown''"
| "SlotPhase_as_str Recycling = ''recycling''"
| "SlotPhase_as_str Parked = ''parked''"
| "SlotPhase_as_str Draining = ''draining''"
| "SlotPhase_as_str Error = ''error''"

definition is_busy :: "SlotPhase \<Rightarrow> bool" where
  "is_busy p \<longleftrightarrow> p \<in> {Acquiring, Running, Finalizing}"

definition is_warning :: "SlotPhase \<Rightarrow> bool" where
  "is_warning p \<longleftrightarrow> p \<in> {Error, Draining}"

definition SlotPhase_try_from :: "string \<Rightarrow> SlotPhase option" where
  "SlotPhase_try_from raw = find (\<lambda>p. SlotPhase_as_str p = raw) SlotPhase_ALL"

primrec slot_transition_allowed :: "SlotPhase \<Rightarrow> SlotPhase \<Rightarrow> bool" where
  "slot_transition_allowed Configuring t = (t \<in> {Idle, Parked, Draining, Error})"
| "slot_transition_allowed Idle t = (t \<in> {Acquiring, Running, Teardown, Parked, Draining, Error})"
| "slot_transition_allowed Acquiring t =
     (t \<in> {WaitingForCapacity, Running, Teardown, Parked, Draining, Error})"
| "slot_transition_allowed WaitingForCapacity t =
     (t \<in> {Running, Teardown, Parked, Draining, Error})"
| "slot_transition_allowed Running t = (t \<in> {Finalizing, Teardown, Draining, Error})"
| "slot_transition_allowed Finalizing t = (t \<in> {Teardown, Draining, Error})"
| "slot_transition_allowed Teardown t = (t \<in> {Recycling, Parked, Draining, Error})"
| "slot_transition_allowed Recycling t = (t \<in> {Configuring, Idle, Parked, Draining, Error})"
| "slot_transition_allowed Parked t = (t \<in> {Configuring, Idle, Draining, Error})"
| "slot_transition_allowed Draining t = (t \<in> {Teardown, Error})"
| "slot_transition_allowed Error t = (t \<in> {Teardown, Draining})"

datatype SlotKind = Stable | Ephemeral

definition SlotKind_ALL :: "SlotKind list" where
  "SlotKind_ALL = [Stable, Ephemeral]"

primrec SlotKind_as_str :: "SlotKind \<Rightarrow> string" where
  "SlotKind_as_str Stable = ''stable''"
| "SlotKind_as_str Ephemeral = ''ephemeral''"

definition SlotKind_try_from :: "string \<Rightarrow> SlotKind option" where
  "SlotKind_try_from raw = find (\<lambda>k. SlotKind_as_str k = raw) SlotKind_ALL"

section \<open>Vocabularies\<close>

text \<open>What every closed vocabulary promises: \<open>ALL\<close> is complete and the spellings differ.  Parsing by
  search is then the inverse of printing.\<close>

locale vocabulary =
  fixes variants :: "'a list" and as_str :: "'a \<Rightarrow> string"
  assumes complete: "x \<in> set variants"
    and spelling_inj: "as_str x = as_str y \<Longrightarrow> x = y"
begin

lemma parse_iff: "find (\<lambda>v. as_str v = raw) variants = Some x \<longleftrightarrow> raw = as_str x"
proof
  assume "find (\<lambda>v. as_str v = raw) variants = Some x"
  then show "raw = as_str x" by (auto simp: find_Some_iff)
next
  assume raw: "raw = as_str x"
  have "find (\<lambda>v. as_str v = raw) variants \<noteq> None"
    using complete raw by (auto simp: find_None_iff)
  then obtain y where y: "find (\<lambda>v. as_str v = raw) variants = Some y" by auto
  then have "as_str y = as_str x" using raw by (auto simp: find_Some_iff)
  then show "find (\<lambda>v. as_str v = raw) variants = Some x" using y spelling_inj by blast
qed

lemma parse_None_iff: "find (\<lambda>v. as_str v = raw) variants = None \<longleftrightarrow> raw \<notin> range as_str"
  using complete by (auto simp: find_None_iff)

end

interpretation event_reason: vocabulary EventReason_ALL EventReason_as_str
proof unfold_locales
  fix x y
  show "x \<in> set EventReason_ALL" by (cases x) (simp_all add: EventReason_ALL_def)
  show "EventReason_as_str x = EventReason_as_str y \<Longrightarrow> x = y" by (cases x; cases y; simp)
qed

interpretation job_state: vocabulary JobState_ALL JobState_as_str
proof unfold_locales
  fix x y
  show "x \<in> set JobState_ALL" by (cases x) (simp_all add: JobState_ALL_def)
  show "JobState_as_str x = JobState_as_str y \<Longrightarrow> x = y" by (cases x; cases y; simp)
qed

interpretation slot_phase: vocabulary SlotPhase_ALL SlotPhase_as_str
proof unfold_locales
  fix x y
  show "x \<in> set SlotPhase_ALL" by (cases x) (simp_all add: SlotPhase_ALL_def)
  show "SlotPhase_as_str x = SlotPhase_as_str y \<Longrightarrow> x = y" by (cases x; cases y; simp)
qed

interpretation slot_kind: vocabulary SlotKind_ALL SlotKind_as_str
proof unfold_locales
  fix x y
  show "x \<in> set SlotKind_ALL" by (cases x) (simp_all add: SlotKind_ALL_def)
  show "SlotKind_as_str x = SlotKind_as_str y \<Longrightarrow> x = y" by (cases x; cases y; simp)
qed

lemma JobState_parse [simp]: "JobState_try_from (JobState_as_str s) = Some s"
  unfolding JobState_try_from_def by (simp add: job_state.parse_iff)

lemma SlotPhase_parse [simp]: "SlotPhase_try_from (SlotPhase_as_str p) = Some p"
  unfolding SlotPhase_try_from_def by (simp add: slot_phase.parse_iff)

lemma SlotKind_parse [simp]: "SlotKind_try_from (SlotKind_as_str k) = Some k"
  unfolding SlotKind_try_from_def by (simp add: slot_kind.parse_iff)

text \<open>The stored vocabularies are closed.  A text parses to a variant exactly when it is the
  canonical spelling of that variant, so every stored state reads back as written and any other
  text is refused.\<close>

theorem vocabularies_roundtrip:
  "(EventReason_try_from raw = Some r \<longleftrightarrow> raw = EventReason_as_str r)
   \<and> (JobState_try_from raw = Some s \<longleftrightarrow> raw = JobState_as_str s)
   \<and> (SlotPhase_try_from raw = Some p \<longleftrightarrow> raw = SlotPhase_as_str p)
   \<and> (SlotKind_try_from raw = Some k \<longleftrightarrow> raw = SlotKind_as_str k)"
  unfolding EventReason_try_from_def JobState_try_from_def SlotPhase_try_from_def SlotKind_try_from_def
  by (simp only: event_reason.parse_iff job_state.parse_iff slot_phase.parse_iff slot_kind.parse_iff simp_thms)

section \<open>The job state machine\<close>

fun job_walk :: "JobState \<Rightarrow> EventReason list \<Rightarrow> JobState option" where
  "job_walk s [] = Some s"
| "job_walk s (r # rs) = (case transition_target s r of None \<Rightarrow> None | Some t \<Rightarrow> job_walk t rs)"

primrec rank :: "JobState \<Rightarrow> nat" where
  "rank Queued = 0" | "rank Acquired = 1" | "rank Waiting = 2" | "rank Started = 3"
| "rank Completed = 4" | "rank Canceled = 4" | "rank Rejected = 4"

lemma transition_target_facts:
  assumes "transition_target s r = Some t"
  shows "rank s < rank t" "job_target r = Some t" "is_job_transition r" "\<not> is_terminal s"
    "r \<in> {JobCompleted, JobCanceled, JobRejected} \<longleftrightarrow> is_terminal t"
  using assms by (cases s; cases r; auto simp: is_job_transition_def is_terminal_def)+

lemma job_walk_append: "job_walk s (rs @ rs') = Option.bind (job_walk s rs) (\<lambda>t. job_walk t rs')"
  by (induction rs arbitrary: s) (auto split: option.splits)

lemma job_walk_rank: "job_walk s rs = Some t \<Longrightarrow> rank s + length rs \<le> rank t"
proof (induction rs arbitrary: s)
  case (Cons r rs)
  then show ?case using transition_target_facts(1) by (fastforce split: option.splits)
qed simp

lemma rank_le: "rank s \<le> 4"
  by (cases s) auto

lemma job_walk_completed:
  assumes "job_walk s rs = Some Completed"
  shows "(s = Completed \<and> rs = []) \<or> (s = Started \<and> rs = [JobCompleted])
    \<or> (s = Waiting \<and> rs = [JobStarted, JobCompleted])
    \<or> (s = Acquired \<and> rs = [JobWaiting, JobStarted, JobCompleted])
    \<or> (s = Queued \<and> rs = [JobAcquired, JobWaiting, JobStarted, JobCompleted])"
  using assms
proof (induction rs arbitrary: s)
  case (Cons r rs)
  then obtain t where t: "transition_target s r = Some t" "job_walk t rs = Some Completed"
    by (auto split: option.splits)
  show ?case using Cons.IH [OF t(2)] t(1) by (cases s; cases r; auto)
qed simp

lemma terminal_reachable: "\<exists>rs t. job_walk s rs = Some t \<and> is_terminal t"
  by (rule exI [of _ "case s of Queued \<Rightarrow> [JobAcquired, JobRejected]
      | Acquired \<Rightarrow> [JobRejected] | Waiting \<Rightarrow> [JobRejected] | Started \<Rightarrow> [JobRejected] | _ \<Rightarrow> []"])
    (cases s; simp add: is_terminal_def)

text \<open>The job machine.  Every walk of a queued job along the transition table has at most four
  steps, no walk leaves a terminal state, the only way to completion is acquired, waiting,
  started, completed, and every state that is not terminal still reaches one.\<close>

theorem job_machine_terminates:
  assumes "job_walk s rs = Some t"
  shows "rank s + length rs \<le> 4 \<and> (is_terminal s \<longrightarrow> rs = [] \<and> t = s)
    \<and> (s = Queued \<and> t = Completed \<longrightarrow> rs = [JobAcquired, JobWaiting, JobStarted, JobCompleted])
    \<and> (\<exists>rs' t'. job_walk t rs' = Some t' \<and> is_terminal t')"
proof -
  have "rank s + length rs \<le> 4" using job_walk_rank [OF assms] rank_le [of t] by linarith
  moreover have "rs = [] \<and> t = s" if "is_terminal s"
    using that assms transition_target_facts(4) by (cases rs) (auto split: option.splits)
  ultimately show ?thesis using job_walk_completed [of s rs] assms terminal_reachable [of t] by auto
qed

theorem job_machine_terminates_witness:
  "job_walk Queued [JobAcquired, JobWaiting, JobStarted, JobCompleted] = Some Completed
   \<and> rank Queued + length [JobAcquired, JobWaiting, JobStarted, JobCompleted] \<le> 4"
  using job_machine_terminates
    [of Queued "[JobAcquired, JobWaiting, JobStarted, JobCompleted]" Completed] by simp

section \<open>The slot graph\<close>

fun slot_path :: "SlotPhase \<Rightarrow> SlotPhase list \<Rightarrow> bool" where
  "slot_path p [] = True"
| "slot_path p (q # qs) = (slot_transition_allowed p q \<and> slot_path q qs)"

definition unclean :: "SlotPhase set" where
  "unclean = {Running, Finalizing, Draining, Error}"

lemma unclean_step:
  "p \<in> unclean \<Longrightarrow> slot_transition_allowed p q \<Longrightarrow> q \<noteq> Teardown \<Longrightarrow> q \<in> unclean"
  by (cases p) (auto simp: unclean_def)

text \<open>C25. Teardown cannot be skipped.  On every path of the slot graph that starts at active work and
  never enters teardown, the slot is never idle, configuring, acquiring, waiting, parked or
  recycling: the next job of the slot always comes after a teardown.\<close>

theorem reuse_needs_teardown:
  assumes "slot_path p qs" "p \<in> {Running, Finalizing}" "Teardown \<notin> set qs"
  shows "set qs \<inter> {Configuring, Idle, Acquiring, WaitingForCapacity, Recycling, Parked} = {}
    \<and> Running \<notin> set qs"
proof -
  have *: "set qs \<subseteq> {Finalizing, Draining, Error}" if "slot_path p qs" "p \<in> unclean" "Teardown \<notin> set qs" for p qs
    using that
  proof (induction qs arbitrary: p)
    case (Cons q qs)
    have "q \<in> {Finalizing, Draining, Error}" using Cons.prems by (cases p) (auto simp: unclean_def)
    moreover have "q \<in> unclean" using Cons.prems unclean_step [of p q] by auto
    ultimately show ?case using Cons.IH [of q] Cons.prems by auto
  qed simp
  show ?thesis using *[OF assms(1) _ assms(3)] assms(2) by (auto simp: unclean_def)
qed

theorem reuse_needs_teardown_witness:
  "slot_path Running [Finalizing, Error, Draining]
   \<and> Idle \<notin> set [Finalizing, Error, Draining]"
  using reuse_needs_teardown [of Running "[Finalizing, Error, Draining]"] by simp

end
