(* ===== verification/Rust_Text.thy ===== *)
theory Rust_Text
  imports Velnor_Prelude "HOL-Library.Sublist"
begin

text \<open>
  The text functions of the Rust standard library that the code uses.  A \<open>str\<close> is its sequence of
  UTF-8 bytes, so \<open>len\<close> is \<open>length\<close> and a comparison with an ASCII pattern is a comparison of
  bytes; the functions that look at characters decode them with \<open>next_char\<close>.
\<close>

section \<open>Bytes\<close>

definition byte_of :: "char \<Rightarrow> int" where
  "byte_of c = (of_char c :: int)"

definition is_ascii_digit :: "char \<Rightarrow> bool" where
  "is_ascii_digit c = (48 \<le> byte_of c \<and> byte_of c \<le> 57)"

definition is_ascii_upper :: "char \<Rightarrow> bool" where
  "is_ascii_upper c = (65 \<le> byte_of c \<and> byte_of c \<le> 90)"

definition is_ascii_lower :: "char \<Rightarrow> bool" where
  "is_ascii_lower c = (97 \<le> byte_of c \<and> byte_of c \<le> 122)"

definition is_ascii_alphanumeric :: "char \<Rightarrow> bool" where
  "is_ascii_alphanumeric c = (is_ascii_digit c \<or> is_ascii_upper c \<or> is_ascii_lower c)"

definition ascii_lower :: "char \<Rightarrow> char" where
  "ascii_lower c = (if is_ascii_upper c then char_of (byte_of c + 32) else c)"

definition to_ascii_lowercase :: "string \<Rightarrow> string" where
  "to_ascii_lowercase s = map ascii_lower s"

text \<open>\<open>str::contains\<close> and \<open>str::starts_with\<close> with a text pattern.\<close>

primrec contains_str :: "string \<Rightarrow> string \<Rightarrow> bool" where
  "contains_str p [] = (p = [])"
| "contains_str p (c # cs) = (prefix p (c # cs) \<or> contains_str p cs)"

lemma contains_str_sublist: "contains_str p s = sublist p s"
  by (induction s) (auto simp: sublist_Cons_right)

lemma byte_of_nat: "byte_of c = int (of_char c)"
  by (simp add: byte_of_def of_char_def horner_sum_eq_sum of_bool_def)

lemma byte_of_less [simp]: "byte_of c < 256"
  by (simp add: byte_of_nat)

lemma byte_of_nonneg [simp]: "0 \<le> byte_of c"
  by (simp add: byte_of_nat)

lemma byte_of_char_of [simp]: "0 \<le> n \<Longrightarrow> n < 256 \<Longrightarrow> byte_of (char_of n) = n"
  by (simp add: byte_of_def)

lemma ascii_lower_idem [simp]: "ascii_lower (ascii_lower c) = ascii_lower c"
  by (auto simp: ascii_lower_def is_ascii_upper_def)

lemma to_ascii_lowercase_idem [simp]:
  "to_ascii_lowercase (to_ascii_lowercase s) = to_ascii_lowercase s"
  by (simp add: to_ascii_lowercase_def)

lemma length_to_ascii_lowercase [simp]: "length (to_ascii_lowercase s) = length s"
  by (simp add: to_ascii_lowercase_def)

section \<open>Characters\<close>

text \<open>The next character of a \<open>str\<close> and the bytes after it, as \<open>Chars::next\<close> decodes it.  A \<open>str\<close> is
  valid UTF-8; bytes that encode no character read as the replacement character, one at a time.\<close>

definition cont_bits :: "string \<Rightarrow> int" where
  "cont_bits s = (case s of [] \<Rightarrow> 0 | c # _ \<Rightarrow> byte_of c mod 64)"

definition replacement :: int where
  "replacement = 65533"

definition multibyte_char :: "int \<Rightarrow> string \<Rightarrow> int \<times> string" where
  "multibyte_char x cs =
     (let v2 = x mod 32 * 64 + cont_bits cs;
          v3 = x mod 16 * 4096 + cont_bits cs * 64 + cont_bits (drop 1 cs);
          v4 = x mod 8 * 262144 + cont_bits cs * 4096 + cont_bits (drop 1 cs) * 64
                 + cont_bits (drop 2 cs)
      in if 192 \<le> x \<and> x < 224 \<and> 128 \<le> v2 then (v2, drop 1 cs)
         else if 224 \<le> x \<and> x < 240 \<and> 2048 \<le> v3 then (v3, drop 2 cs)
         else if 240 \<le> x \<and> 65536 \<le> v4 then (v4, drop 3 cs)
         else (replacement, cs))"

definition next_char :: "string \<Rightarrow> (int \<times> string) option" where
  "next_char s =
     (case s of
        [] \<Rightarrow> None
      | c # cs \<Rightarrow>
          if byte_of c < 128 then Some (byte_of c, cs) else Some (multibyte_char (byte_of c) cs))"

lemma next_char_shorter: "next_char s = Some (c, s') \<Longrightarrow> length s' < length s"
  by (auto simp: next_char_def multibyte_char_def Let_def split: list.splits if_splits)

function chars_of :: "string \<Rightarrow> int list" where
  "chars_of s = (case next_char s of None \<Rightarrow> [] | Some (c, s') \<Rightarrow> c # chars_of s')"
  by pat_completeness auto
termination by (relation "measure length") (auto dest: next_char_shorter)

declare chars_of.simps [simp del]

text \<open>\<open>char::encode_utf8\<close>.\<close>

definition utf8_encode :: "int \<Rightarrow> string" where
  "utf8_encode c =
     (if c < 128 then [char_of c]
      else if c < 2048 then [char_of (192 + c div 64), char_of (128 + c mod 64)]
      else if c < 65536 then
        [char_of (224 + c div 4096), char_of (128 + c div 64 mod 64), char_of (128 + c mod 64)]
      else
        [char_of (240 + c div 262144), char_of (128 + c div 4096 mod 64),
         char_of (128 + c div 64 mod 64), char_of (128 + c mod 64)])"

text \<open>\<open>char::from_u32\<close>: surrogates and values above \<open>10FFFF\<close> are not characters.\<close>

definition char_from_u32 :: "int \<Rightarrow> int option" where
  "char_from_u32 n = (if n < 55296 \<or> (57344 \<le> n \<and> n \<le> 1114111) then Some n else None)"

definition is_control :: "int \<Rightarrow> bool" where
  "is_control c = (c < 32 \<or> (127 \<le> c \<and> c < 160))"

definition is_whitespace :: "int \<Rightarrow> bool" where
  "is_whitespace c =
     ((9 \<le> c \<and> c \<le> 13) \<or> c = 32 \<or> c = 133 \<or> c = 160 \<or> c = 5760 \<or> (8192 \<le> c \<and> c \<le> 8202)
      \<or> c = 8232 \<or> c = 8233 \<or> c = 8239 \<or> c = 8287 \<or> c = 12288)"

function trim_start :: "string \<Rightarrow> string" where
  "trim_start s =
     (case next_char s of
        None \<Rightarrow> s
      | Some (c, s') \<Rightarrow> if is_whitespace c then trim_start s' else s)"
  by pat_completeness auto
termination by (relation "measure length") (auto dest: next_char_shorter)

declare trim_start.simps [simp del]

text \<open>\<open>str::trim().is_empty()\<close>.\<close>

definition trim_is_empty :: "string \<Rightarrow> bool" where
  "trim_is_empty s = (trim_start s = [])"

lemma length_trim_start: "length (trim_start s) \<le> length s"
proof (induction s rule: trim_start.induct)
  case (1 s)
  show ?case
  proof (cases "next_char s")
    case None
    then show ?thesis by (subst trim_start.simps) simp
  next
    case (Some p)
    then show ?thesis
      using 1 next_char_shorter [of s "fst p" "snd p"]
      by (subst trim_start.simps) (fastforce split: prod.splits)
  qed
qed

text \<open>\<open>str::trim_end\<close> and \<open>str::trim\<close>.\<close>

function trim_end :: "string \<Rightarrow> string" where
  "trim_end s =
     (case next_char s of
        None \<Rightarrow> []
      | Some (c, s') \<Rightarrow>
          let t = trim_end s'
          in if t = [] \<and> is_whitespace c then [] else take (length s - length s') s @ t)"
  by pat_completeness auto
termination by (relation "measure length") (auto dest: next_char_shorter)

declare trim_end.simps [simp del]

definition trim :: "string \<Rightarrow> string" where
  "trim s = trim_end (trim_start s)"

text \<open>The decimal text of an integer, as \<open>format!\<close> writes it.\<close>

fun decimal :: "nat \<Rightarrow> string" where
  "decimal n = (if n < 10 then [char_of (48 + n)] else decimal (n div 10) @ [char_of (48 + n mod 10)])"

declare decimal.simps [simp del]

text \<open>\<open>str::rsplit_once\<close> with a character pattern.\<close>

definition rsplit_once :: "char \<Rightarrow> string \<Rightarrow> (string \<times> string) option" where
  "rsplit_once c s =
     (let name = rev (takeWhile (\<lambda>x. x \<noteq> c) (rev s))
      in if length name = length s then None
         else Some (take (length s - length name - 1) s, name))"

lemma rsplit_once_join: "c \<notin> set b \<Longrightarrow> rsplit_once c (a @ c # b) = Some (a, b)"
proof -
  assume "c \<notin> set b"
  then have "takeWhile (\<lambda>x. x \<noteq> c) (rev b) = rev b" by (auto simp: takeWhile_eq_all_conv)
  then have "takeWhile (\<lambda>x. x \<noteq> c) (rev b @ c # rev a) = rev b" by (simp add: takeWhile_tail)
  then show ?thesis by (simp add: rsplit_once_def)
qed

section \<open>ASCII text\<close>

definition is_ascii :: "string \<Rightarrow> bool" where
  "is_ascii s = list_all (\<lambda>c. byte_of c < 128) s"

lemma next_char_ascii:
  assumes "next_char s = Some (v, rest)" "v < 128"
  shows "\<exists>c. s = c # rest \<and> byte_of c = v"
  using assms by (auto simp: next_char_def multibyte_char_def Let_def replacement_def split: list.splits if_splits)

lemma ascii_if_chars_ascii: "list_all (\<lambda>c. c < 128) (chars_of s) \<Longrightarrow> is_ascii s"
proof (induction s rule: chars_of.induct)
  case (1 s)
  show ?case
  proof (cases "next_char s")
    case None
    then show ?thesis by (auto simp: next_char_def is_ascii_def Let_def split: list.splits if_splits)
  next
    case (Some p)
    obtain v rest where p: "p = (v, rest)" by (cases p)
    then have "v < 128" "list_all (\<lambda>c. c < 128) (chars_of rest)"
      using "1.prems" Some by (simp_all add: chars_of.simps [of s])
    then show ?thesis
      using next_char_ascii [of s v rest] "1.IH" Some p by (auto simp: is_ascii_def)
  qed
qed

lemma chars_of_ascii: "is_ascii s \<Longrightarrow> chars_of s = map byte_of s"
proof (induction s)
  case Nil
  then show ?case by (subst chars_of.simps) (simp add: next_char_def)
next
  case (Cons c cs)
  then show ?case by (subst chars_of.simps) (simp add: next_char_def is_ascii_def Let_def)
qed

end
