(* ===== verification/Job_Summary.thy ===== *)
theory Job_Summary
  imports Job_Model Rust_Text
begin

text \<open>
  The sanitized job summary of \<open>velnor-model\<close> (\<open>job_summary.rs\<close>), with the repository reference
  (\<open>sanitized.rs\<close>), the execution backend (\<open>execution.rs\<close>) and the error classes
  (\<open>error_envelope.rs\<close>).  A rejected field is reported by its name and by the rule it violates;
  the sentence that renders the rule is not modelled.
\<close>

section \<open>Slugs\<close>

datatype SummaryRule =
    EmptyValue | TooLong nat | ForbiddenChar int | DeniedSubstring | UnknownVariant
  | SlashInSegment

record InvalidJobSummaryField =
  ijf_field :: string
  ijf_rule :: SummaryRule

definition rule_violation :: "string \<Rightarrow> SummaryRule \<Rightarrow> InvalidJobSummaryField" where
  "rule_violation field rule = \<lparr>ijf_field = field, ijf_rule = rule\<rparr>"

definition MAX_SLUG_LEN :: nat where
  "MAX_SLUG_LEN = 512"

definition is_slug_char :: "int \<Rightarrow> bool" where
  "is_slug_char ch =
     ((48 \<le> ch \<and> ch \<le> 57) \<or> (65 \<le> ch \<and> ch \<le> 90) \<or> (97 \<le> ch \<and> ch \<le> 122)
      \<or> ch = 46 \<or> ch = 95 \<or> ch = 45 \<or> ch = 47)"

definition DENIED_SUBSTRINGS :: "string list" where
  "DENIED_SUBSTRINGS =
     [''password'', ''passwd'', ''secret'', ''token'', ''bearer'', ''authorization'',
      ''ghp_'', ''gho_'', ''ghu_'', ''ghs_'', ''ghr_'', ''github_pat_'']"

definition denied_substring :: "string \<Rightarrow> bool" where
  "denied_substring raw =
     list_ex (\<lambda>marker. contains_str marker (to_ascii_lowercase raw)) DENIED_SUBSTRINGS"

definition Slug_validate :: "string \<Rightarrow> string \<Rightarrow> InvalidJobSummaryField + string" where
  "Slug_validate field raw =
     (if raw = [] then Inl (rule_violation field EmptyValue)
      else if MAX_SLUG_LEN < length raw then Inl (rule_violation field (TooLong (length raw)))
      else case find (\<lambda>ch. \<not> is_slug_char ch) (chars_of raw) of
          Some ch \<Rightarrow> Inl (rule_violation field (ForbiddenChar ch))
        | None \<Rightarrow>
            if denied_substring raw then Inl (rule_violation field DeniedSubstring) else Inr raw)"

text \<open>\<open>Slug::validate(..).is_ok()\<close>; the field name only labels the error.\<close>

definition slug_ok :: "string \<Rightarrow> bool" where
  "slug_ok raw = (case Slug_validate [] raw of Inl _ \<Rightarrow> False | Inr _ \<Rightarrow> True)"

section \<open>Closed vocabularies of the summary\<close>

datatype TriggerEvent =
  Push | PullRequest | WorkflowDispatch | RepositoryDispatch | Schedule | Release

primrec TriggerEvent_as_str :: "TriggerEvent \<Rightarrow> string" where
  "TriggerEvent_as_str Push = ''push''"
| "TriggerEvent_as_str PullRequest = ''pull_request''"
| "TriggerEvent_as_str WorkflowDispatch = ''workflow_dispatch''"
| "TriggerEvent_as_str RepositoryDispatch = ''repository_dispatch''"
| "TriggerEvent_as_str Schedule = ''schedule''"
| "TriggerEvent_as_str Release = ''release''"

definition TriggerEvent_try_from :: "string \<Rightarrow> InvalidJobSummaryField + TriggerEvent" where
  "TriggerEvent_try_from raw =
     (if raw = ''push'' then Inr Push
      else if raw = ''pull_request'' then Inr PullRequest
      else if raw = ''workflow_dispatch'' then Inr WorkflowDispatch
      else if raw = ''repository_dispatch'' then Inr RepositoryDispatch
      else if raw = ''schedule'' then Inr Schedule
      else if raw = ''release'' then Inr Release
      else Inl (rule_violation ''trigger_event'' UnknownVariant))"

datatype JobPhase = PQueued | PRunning | PCompleted | PCanceled | PRejected

primrec JobPhase_as_str :: "JobPhase \<Rightarrow> string" where
  "JobPhase_as_str PQueued = ''queued''"
| "JobPhase_as_str PRunning = ''running''"
| "JobPhase_as_str PCompleted = ''completed''"
| "JobPhase_as_str PCanceled = ''canceled''"
| "JobPhase_as_str PRejected = ''rejected''"

definition JobPhase_try_from :: "string \<Rightarrow> InvalidJobSummaryField + JobPhase" where
  "JobPhase_try_from raw =
     (if raw = ''queued'' then Inr PQueued
      else if raw = ''running'' then Inr PRunning
      else if raw = ''completed'' then Inr PCompleted
      else if raw = ''canceled'' then Inr PCanceled
      else if raw = ''rejected'' then Inr PRejected
      else Inl (rule_violation ''phase'' UnknownVariant))"

datatype JobConclusion =
  Success | Failure | CCancelled | Neutral | Skipped | TimedOut | StartupFailure
  | ActionRequired | Stale

primrec JobConclusion_as_str :: "JobConclusion \<Rightarrow> string" where
  "JobConclusion_as_str Success = ''success''"
| "JobConclusion_as_str Failure = ''failure''"
| "JobConclusion_as_str CCancelled = ''cancelled''"
| "JobConclusion_as_str Neutral = ''neutral''"
| "JobConclusion_as_str Skipped = ''skipped''"
| "JobConclusion_as_str TimedOut = ''timed_out''"
| "JobConclusion_as_str StartupFailure = ''startup_failure''"
| "JobConclusion_as_str ActionRequired = ''action_required''"
| "JobConclusion_as_str Stale = ''stale''"

definition JobConclusion_try_from :: "string \<Rightarrow> InvalidJobSummaryField + JobConclusion" where
  "JobConclusion_try_from raw =
     (if raw = ''success'' then Inr Success
      else if raw = ''failure'' then Inr Failure
      else if raw = ''cancelled'' then Inr CCancelled
      else if raw = ''neutral'' then Inr Neutral
      else if raw = ''skipped'' then Inr Skipped
      else if raw = ''timed_out'' then Inr TimedOut
      else if raw = ''startup_failure'' then Inr StartupFailure
      else if raw = ''action_required'' then Inr ActionRequired
      else if raw = ''stale'' then Inr Stale
      else Inl (rule_violation ''conclusion'' UnknownVariant))"

datatype InfrastructureCategory = DockerBindMount | DockerEnvironment

primrec InfrastructureCategory_as_str :: "InfrastructureCategory \<Rightarrow> string" where
  "InfrastructureCategory_as_str DockerBindMount = ''docker_bind_mount''"
| "InfrastructureCategory_as_str DockerEnvironment = ''docker_environment''"

definition InfrastructureCategory_try_from ::
    "string \<Rightarrow> InvalidJobSummaryField + InfrastructureCategory" where
  "InfrastructureCategory_try_from raw =
     (if raw = ''docker_bind_mount'' then Inr DockerBindMount
      else if raw = ''docker_environment'' then Inr DockerEnvironment
      else Inl (rule_violation ''infrastructure_category'' UnknownVariant))"

datatype ExecutionBackendKind = Docker | MicroVm

primrec ExecutionBackendKind_as_str :: "ExecutionBackendKind \<Rightarrow> string" where
  "ExecutionBackendKind_as_str Docker = ''docker''"
| "ExecutionBackendKind_as_str MicroVm = ''microvm''"

definition ExecutionBackendKind_parse_value :: "string \<Rightarrow> ExecutionBackendKind option" where
  "ExecutionBackendKind_parse_value raw =
     (if trim raw = ''docker'' then Some Docker
      else if trim raw = ''microvm'' then Some MicroVm else None)"

section \<open>The summary\<close>

type_synonym Timestamp = int

record RepositoryRef =
  repo_owner :: string
  repo_name :: string

definition full_name :: "RepositoryRef \<Rightarrow> string" where
  "full_name r = repo_owner r @ ''/'' @ repo_name r"

record NormalizedJob =
  nj_instance_slug :: string
  nj_job_uid :: string
  nj_repository :: RepositoryRef
  nj_workflow :: string
  nj_job_name :: string
  nj_run_id :: "u64 option"
  nj_attempt :: "u32 option"
  nj_head_ref :: "string option"
  nj_head_sha :: "string option"
  nj_trigger_event :: "TriggerEvent option"
  nj_queued_at :: "Timestamp option"
  nj_acquired_at :: "Timestamp option"
  nj_slot_name :: "string option"
  nj_runner_name :: "string option"
  nj_execution_backend :: "string option"
  nj_trust_scope :: "string option"
  nj_trust_class :: "string option"
  nj_resource_policy :: "string option"
  nj_phase :: JobPhase
  nj_conclusion :: "JobConclusion option"
  nj_infrastructure_category :: "InfrastructureCategory option"

record JobSummary =
  js_instance_slug :: string
  js_job_uid :: string
  js_repository :: RepositoryRef
  js_workflow :: string
  js_job_name :: string
  js_run_id :: "u64 option"
  js_attempt :: "u32 option"
  js_head_ref :: "string option"
  js_head_sha :: "string option"
  js_trigger_event :: "TriggerEvent option"
  js_queued_at :: "Timestamp option"
  js_acquired_at :: "Timestamp option"
  js_slot_name :: "string option"
  js_runner_name :: "string option"
  js_execution_backend :: "ExecutionBackendKind option"
  js_trust_scope :: "string option"
  js_trust_class :: "string option"
  js_resource_policy :: "string option"
  js_phase :: JobPhase
  js_conclusion :: "JobConclusion option"
  js_infrastructure_category :: "InfrastructureCategory option"

text \<open>\<open>Option::map(f).transpose()\<close> on a fallible function.\<close>

definition transpose_map :: "('a \<Rightarrow> 'e + 'b) \<Rightarrow> 'a option \<Rightarrow> 'e + 'b option" where
  "transpose_map f x = (case x of None \<Rightarrow> Inr None | Some a \<Rightarrow> try_sum (f a) (\<lambda>b. Inr (Some b)))"

definition optional_slug :: "string \<Rightarrow> string option \<Rightarrow> InvalidJobSummaryField + string option" where
  "optional_slug field raw = transpose_map (Slug_validate field) raw"

definition optional_execution_backend ::
    "string option \<Rightarrow> InvalidJobSummaryField + ExecutionBackendKind option" where
  "optional_execution_backend raw =
     (case raw of
        None \<Rightarrow> Inr None
      | Some value \<Rightarrow>
          (case ExecutionBackendKind_parse_value value of
             Some k \<Rightarrow> Inr (Some k)
           | None \<Rightarrow> Inl (rule_violation ''execution_backend'' UnknownVariant)))"

definition validate_segment :: "string \<Rightarrow> string \<Rightarrow> InvalidJobSummaryField + unit" where
  "validate_segment field segment =
     try_sum (Slug_validate field segment)
       (\<lambda>_. if CHR ''/'' \<in> set segment then Inl (rule_violation field SlashInSegment) else Inr ())"

definition validate_repository :: "RepositoryRef \<Rightarrow> InvalidJobSummaryField + RepositoryRef" where
  "validate_repository r =
     try_sum (validate_segment ''repository.owner'' (repo_owner r)) (\<lambda>_.
     try_sum (validate_segment ''repository.name'' (repo_name r)) (\<lambda>_. Inr r))"

definition from_normalized :: "NormalizedJob \<Rightarrow> InvalidJobSummaryField + JobSummary" where
  "from_normalized n =
     try_sum (validate_repository (nj_repository n)) (\<lambda>repository.
     try_sum (Slug_validate ''instance_slug'' (nj_instance_slug n)) (\<lambda>instance_slug.
     try_sum (Slug_validate ''job_uid'' (nj_job_uid n)) (\<lambda>job_uid.
     try_sum (Slug_validate ''workflow'' (nj_workflow n)) (\<lambda>workflow.
     try_sum (Slug_validate ''job_name'' (nj_job_name n)) (\<lambda>job_name.
     try_sum (optional_slug ''head_ref'' (nj_head_ref n)) (\<lambda>head_ref.
     try_sum (optional_slug ''head_sha'' (nj_head_sha n)) (\<lambda>head_sha.
     try_sum (optional_slug ''slot_name'' (nj_slot_name n)) (\<lambda>slot_name.
     try_sum (optional_slug ''runner_name'' (nj_runner_name n)) (\<lambda>runner_name.
     try_sum (optional_execution_backend (nj_execution_backend n)) (\<lambda>execution_backend.
     try_sum (optional_slug ''trust_scope'' (nj_trust_scope n)) (\<lambda>trust_scope.
     try_sum (optional_slug ''trust_class'' (nj_trust_class n)) (\<lambda>trust_class.
     try_sum (optional_slug ''resource_policy'' (nj_resource_policy n)) (\<lambda>resource_policy.
     Inr \<lparr>js_instance_slug = instance_slug, js_job_uid = job_uid, js_repository = repository,
          js_workflow = workflow, js_job_name = job_name, js_run_id = nj_run_id n,
          js_attempt = nj_attempt n, js_head_ref = head_ref, js_head_sha = head_sha,
          js_trigger_event = nj_trigger_event n, js_queued_at = nj_queued_at n,
          js_acquired_at = nj_acquired_at n, js_slot_name = slot_name,
          js_runner_name = runner_name, js_execution_backend = execution_backend,
          js_trust_scope = trust_scope, js_trust_class = trust_class,
          js_resource_policy = resource_policy, js_phase = nj_phase n,
          js_conclusion = nj_conclusion n,
          js_infrastructure_category = nj_infrastructure_category n\<rparr>)))))))))))))"

section \<open>Error classes\<close>

datatype ExitClass =
    ExSuccess | ExCondition | ExUsage | ExAuthorization | ExUnavailable | ExTimeout | ExConflict
  | ExTransport | ExOperation | ExInterrupted

primrec ExitClass_as_str :: "ExitClass \<Rightarrow> string" where
  "ExitClass_as_str ExSuccess = ''SUCCESS''"
| "ExitClass_as_str ExCondition = ''CONDITION''"
| "ExitClass_as_str ExUsage = ''USAGE''"
| "ExitClass_as_str ExAuthorization = ''AUTHORIZATION''"
| "ExitClass_as_str ExUnavailable = ''UNAVAILABLE''"
| "ExitClass_as_str ExTimeout = ''TIMEOUT''"
| "ExitClass_as_str ExConflict = ''CONFLICT''"
| "ExitClass_as_str ExTransport = ''TRANSPORT''"
| "ExitClass_as_str ExOperation = ''OPERATION''"
| "ExitClass_as_str ExInterrupted = ''INTERRUPTED''"

section \<open>Facts about slugs and summaries\<close>

lemma Slug_validate_Inr:
  "Slug_validate field raw = Inr s \<longleftrightarrow>
     s = raw \<and> raw \<noteq> [] \<and> length raw \<le> MAX_SLUG_LEN \<and> list_all is_slug_char (chars_of raw)
     \<and> \<not> denied_substring raw"
  by (auto simp: Slug_validate_def list_all_iff find_None_iff find_Some_iff split: option.splits)

lemma slug_ok_validate: "Slug_validate field raw = Inr s \<longleftrightarrow> slug_ok raw \<and> s = raw"
proof -
  have "slug_ok raw \<longleftrightarrow> (\<exists>s. Slug_validate [] raw = Inr s)"
    by (auto simp: slug_ok_def split: sum.splits)
  then show ?thesis by (auto simp: Slug_validate_Inr)
qed

lemma slug_ok_iff:
  "slug_ok raw \<longleftrightarrow> raw \<noteq> [] \<and> length raw \<le> 512 \<and> list_all is_slug_char (chars_of raw)
     \<and> \<not> denied_substring raw"
  using slug_ok_validate [of "[]" raw raw] by (simp add: Slug_validate_Inr MAX_SLUG_LEN_def)

lemma slug_char_ascii: "is_slug_char c \<Longrightarrow> c < 128"
  by (auto simp: is_slug_char_def)

lemma slug_ok_ascii:
  assumes "slug_ok raw" shows "is_ascii raw"
proof (rule ascii_if_chars_ascii)
  have "list_all is_slug_char (chars_of raw)" using assms by (simp add: slug_ok_iff)
  then show "list_all (\<lambda>c. c < 128) (chars_of raw)"
    by (rule list.pred_mono_strong) (rule slug_char_ascii)
qed

lemma slug_ok_chars:
  assumes "slug_ok raw" "c \<in> set raw" shows "is_slug_char (byte_of c)"
proof -
  have "list_all is_slug_char (map byte_of raw)"
    using assms(1) chars_of_ascii [OF slug_ok_ascii [OF assms(1)]] by (simp add: slug_ok_iff)
  then show ?thesis using assms(2) by (simp add: list_all_iff)
qed

lemma optional_slug_Inr:
  "optional_slug field raw = Inr s \<longleftrightarrow> s = raw \<and> (\<forall>v. raw = Some v \<longrightarrow> slug_ok v)"
  by (auto simp: optional_slug_def transpose_map_def try_sum_Inr slug_ok_validate split: option.splits)

lemma summary_vocabularies [simp]:
  "TriggerEvent_try_from (TriggerEvent_as_str t) = Inr t"
  "JobPhase_try_from (JobPhase_as_str p) = Inr p"
  "JobConclusion_try_from (JobConclusion_as_str c) = Inr c"
  "InfrastructureCategory_try_from (InfrastructureCategory_as_str i) = Inr i"
proof -
  show "TriggerEvent_try_from (TriggerEvent_as_str t) = Inr t"
    by (cases t) (simp_all add: TriggerEvent_try_from_def)
  show "JobPhase_try_from (JobPhase_as_str p) = Inr p"
    by (cases p) (simp_all add: JobPhase_try_from_def)
  show "JobConclusion_try_from (JobConclusion_as_str c) = Inr c"
    by (cases c) (simp_all add: JobConclusion_try_from_def)
  show "InfrastructureCategory_try_from (InfrastructureCategory_as_str i) = Inr i"
    by (cases i) (simp_all add: InfrastructureCategory_try_from_def)
qed

lemma ExecutionBackendKind_parse [simp]:
  "ExecutionBackendKind_parse_value (ExecutionBackendKind_as_str k) = Some k"
proof -
  have "trim ''docker'' = ''docker''" "trim ''microvm'' = ''microvm''" by code_simp+
  then show ?thesis by (cases k) (simp_all add: ExecutionBackendKind_parse_value_def)
qed

lemma validate_segment_Inr:
  "validate_segment field s = Inr u \<longleftrightarrow> slug_ok s \<and> CHR ''/'' \<notin> set s"
  by (auto simp: validate_segment_def try_sum_Inr slug_ok_validate split: if_splits)

lemma validate_repository_Inr:
  "validate_repository r = Inr r' \<longleftrightarrow>
     r' = r \<and> slug_ok (repo_owner r) \<and> CHR ''/'' \<notin> set (repo_owner r)
     \<and> slug_ok (repo_name r) \<and> CHR ''/'' \<notin> set (repo_name r)"
  by (auto simp: validate_repository_def try_sum_Inr validate_segment_Inr)

text \<open>A summary is valid when it could come out of \<open>from_normalized\<close>; \<open>renormalize\<close> gives back its
  fields as inputs.\<close>

definition summary_valid :: "JobSummary \<Rightarrow> bool" where
  "summary_valid s \<longleftrightarrow>
     validate_repository (js_repository s) = Inr (js_repository s)
     \<and> slug_ok (js_instance_slug s) \<and> slug_ok (js_job_uid s) \<and> slug_ok (js_workflow s)
     \<and> slug_ok (js_job_name s)
     \<and> (\<forall>x \<in> {js_head_ref s, js_head_sha s, js_slot_name s, js_runner_name s, js_trust_scope s,
               js_trust_class s, js_resource_policy s}. \<forall>v. x = Some v \<longrightarrow> slug_ok v)"

definition renormalize :: "JobSummary \<Rightarrow> NormalizedJob" where
  "renormalize s =
     \<lparr>nj_instance_slug = js_instance_slug s, nj_job_uid = js_job_uid s,
      nj_repository = js_repository s, nj_workflow = js_workflow s, nj_job_name = js_job_name s,
      nj_run_id = js_run_id s, nj_attempt = js_attempt s, nj_head_ref = js_head_ref s,
      nj_head_sha = js_head_sha s, nj_trigger_event = js_trigger_event s,
      nj_queued_at = js_queued_at s, nj_acquired_at = js_acquired_at s,
      nj_slot_name = js_slot_name s, nj_runner_name = js_runner_name s,
      nj_execution_backend = map_option ExecutionBackendKind_as_str (js_execution_backend s),
      nj_trust_scope = js_trust_scope s, nj_trust_class = js_trust_class s,
      nj_resource_policy = js_resource_policy s, nj_phase = js_phase s,
      nj_conclusion = js_conclusion s,
      nj_infrastructure_category = js_infrastructure_category s\<rparr>"

lemma optional_execution_backend_as_str [simp]:
  "optional_execution_backend (map_option ExecutionBackendKind_as_str k) = Inr k"
  by (cases k) (simp_all add: optional_execution_backend_def)

lemma from_normalized_valid: "from_normalized n = Inr s \<Longrightarrow> summary_valid s"
  by (auto simp: from_normalized_def try_sum_Inr slug_ok_validate optional_slug_Inr summary_valid_def
      validate_repository_Inr)

lemma try_sum_Inr_eq: "m = Inr a \<Longrightarrow> try_sum m k = k a"
  by simp

lemma from_normalized_renormalize:
  assumes "summary_valid s" shows "from_normalized (renormalize s) = Inr s"
proof -
  have slug: "Slug_validate f r = Inr r" if "slug_ok r" for f r
    using that by (simp add: slug_ok_validate)
  have opt: "optional_slug f r = Inr r" if "\<forall>v. r = Some v \<longrightarrow> slug_ok v" for f r
    using that by (simp add: optional_slug_Inr)
  show ?thesis
    using assms unfolding summary_valid_def
    by (simp add: from_normalized_def renormalize_def slug opt)
qed

end
