(* ===== verification/Event_Contract.thy ===== *)
theory Event_Contract
  imports Job_Summary
begin

text \<open>
  The contract every event satisfies before it enters the in-memory stream or the durable store
  (\<open>validate_event_contract\<close> in \<open>store/records.rs\<close>), with the detection of credential-shaped text.
  The JSON parser \<open>serde_json::from_str\<close> is a parameter.  The check of a text looks into the
  strings of the JSON value it encodes, so its recursion follows the parser; it runs on fuel, and
  the fuel is enough when the parser's strings are shorter than its input.
\<close>

section \<open>Errors\<close>

record StoreError =
  se_class :: ExitClass
  se_reason :: string

definition StoreError_new :: "ExitClass \<Rightarrow> string \<Rightarrow> StoreError" where
  "StoreError_new class reason = \<lparr>se_class = class, se_reason = reason\<rparr>"

section \<open>Escape sequences\<close>

definition hex_digit :: "char \<Rightarrow> int option" where
  "hex_digit c =
     (let b = byte_of c in
      if 48 \<le> b \<and> b \<le> 57 then Some (b - 48)
      else if 97 \<le> b \<and> b \<le> 102 then Some (b - 97 + 10)
      else if 65 \<le> b \<and> b \<le> 70 then Some (b - 65 + 10)
      else None)"

fun parse_hex_from :: "int \<Rightarrow> string \<Rightarrow> int option" where
  "parse_hex_from v [] = Some v"
| "parse_hex_from v (c # cs) =
     (case hex_digit c of
        None \<Rightarrow> None
      | Some d \<Rightarrow>
          if 2 ^ 32 \<le> v * 16 then None
          else if 2 ^ 32 \<le> v * 16 + d then None
          else parse_hex_from (v * 16 + d) cs)"

definition parse_hex :: "string \<Rightarrow> int option" where
  "parse_hex bytes = parse_hex_from 0 bytes"

text \<open>The character that the escape at the start of a text stands for, and the bytes it takes.\<close>

definition decode_digits :: "string \<Rightarrow> nat \<Rightarrow> (int \<times> nat) option" where
  "decode_digits digits consumed =
     (case parse_hex digits of
        None \<Rightarrow> None
      | Some cp \<Rightarrow> (case char_from_u32 cp of None \<Rightarrow> None | Some ch \<Rightarrow> Some (ch, consumed)))"

definition decode_fixed :: "nat \<Rightarrow> string \<Rightarrow> (int \<times> nat) option" where
  "decode_fixed digits rest =
     (if length rest < digits then None else decode_digits (take digits rest) (digits + 2))"

definition decode_braced :: "string \<Rightarrow> (int \<times> nat) option" where
  "decode_braced body =
     (let digits = takeWhile (\<lambda>c. c \<noteq> CHR ''}'') body
      in if length digits = length body then None
         else if \<not> (1 \<le> length digits \<and> length digits \<le> 6) then None
         else decode_digits digits (length digits + 4))"

definition decode_escape :: "string \<Rightarrow> (int \<times> nat) option" where
  "decode_escape s =
     (case s of
        _ # marker # rest \<Rightarrow>
          if marker = CHR 0x5C then Some (92, 2)
          else if marker = CHR ''x'' then decode_fixed 2 rest
          else if marker = CHR ''u'' then
            (case rest of
               b # body \<Rightarrow> if b = CHR ''{'' then decode_braced body else decode_fixed 4 rest
             | [] \<Rightarrow> decode_fixed 4 rest)
          else if marker = CHR ''U'' then decode_fixed 8 rest
          else None
      | _ \<Rightarrow> None)"

lemma char_from_u32_bound: "char_from_u32 cp = Some ch \<Longrightarrow> ch = cp \<and> ch \<le> 1114111"
  by (auto simp: char_from_u32_def split: if_splits)

lemma hex_digit_bound: "hex_digit c = Some d \<Longrightarrow> 0 \<le> d \<and> d \<le> 15"
  by (auto simp: hex_digit_def Let_def split: if_splits)

lemma parse_hex_from_bound:
  "parse_hex_from v s = Some n \<Longrightarrow> 0 \<le> v \<Longrightarrow> v < 16 ^ k \<Longrightarrow> n < 16 ^ (k + length s)"
proof (induction s arbitrary: v k)
  case (Cons c s)
  from Cons.prems(1) obtain d where d: "hex_digit c = Some d"
    and r: "parse_hex_from (v * 16 + d) s = Some n"
    by (auto split: option.splits if_splits)
  have "v * 16 + d < 16 ^ Suc k" using Cons.prems(3) hex_digit_bound [OF d] by simp
  then show ?case
    using Cons.IH [OF r, of "Suc k"] Cons.prems(2) hex_digit_bound [OF d] by simp
qed simp

lemma length_utf8_encode: "0 \<le> ch \<Longrightarrow> length (utf8_encode ch) \<le> 4
    \<and> (ch < 2048 \<longrightarrow> length (utf8_encode ch) \<le> 2) \<and> (ch < 128 \<longrightarrow> length (utf8_encode ch) \<le> 1)
    \<and> (ch < 65536 \<longrightarrow> length (utf8_encode ch) \<le> 3) \<and> utf8_encode ch \<noteq> []"
  by (auto simp: utf8_encode_def)

lemma parse_hex_bound: "parse_hex s = Some n \<Longrightarrow> n < 16 ^ length s"
  using parse_hex_from_bound [of 0 s n 0] by (simp add: parse_hex_def)

lemma decode_digits_shrinks:
  assumes "decode_digits digits n = Some (ch, m)" "length digits + 2 \<le> n" "digits \<noteq> []"
  shows "m = n \<and> length (utf8_encode ch) < n"
proof -
  have d: "parse_hex digits = Some ch" "m = n"
    using assms(1) char_from_u32_bound by (auto simp: decode_digits_def split: option.splits)
  have b: "ch < 16 ^ length digits" using parse_hex_bound [OF d(1)] .
  have "length (utf8_encode ch) < n"
  proof (cases "length digits = 1")
    case True
    then show ?thesis using b assms(2) by (auto simp: utf8_encode_def)
  next
    case False
    show ?thesis
    proof (cases "length digits = 2")
      case True
      then show ?thesis using b assms(2) by (auto simp: utf8_encode_def)
    next
      case False
      moreover have "length digits \<noteq> 0" using assms(3) by simp
      ultimately have "5 \<le> n" using \<open>length digits \<noteq> 1\<close> assms(2) by linarith
      then show ?thesis by (auto simp: utf8_encode_def)
    qed
  qed
  then show ?thesis using d(2) by simp
qed

lemma decode_escape_shrinks:
  assumes "decode_escape s = Some (ch, n)"
  shows "2 \<le> n" "n \<le> length s" "length (utf8_encode ch) < n"
proof -
  obtain c marker rest where s: "s = c # marker # rest"
    using assms by (auto simp: decode_escape_def split: list.splits)
  have fixed: "2 \<le> n \<and> n \<le> length s \<and> length (utf8_encode ch) < n"
    if "decode_fixed k rest = Some (ch, n)" "0 < k" for k
    using that decode_digits_shrinks [of "take k rest" "k + 2" ch n] s
    by (cases rest) (auto simp: decode_fixed_def split: if_splits)
  have braced: "2 \<le> n \<and> n \<le> length s \<and> length (utf8_encode ch) < n"
    if "decode_braced body = Some (ch, n)" "rest = CHR ''{'' # body" for body
  proof -
    let ?d = "takeWhile (\<lambda>c. c \<noteq> CHR ''}'') body"
    have "length ?d < length body"
      using that(1) length_takeWhile_le [of "\<lambda>c. c \<noteq> CHR ''}''" body]
      by (auto simp: decode_braced_def Let_def split: if_splits)
    moreover have d: "1 \<le> length ?d" "decode_digits ?d (length ?d + 4) = Some (ch, n)"
      using that(1) by (simp_all add: decode_braced_def Let_def split: if_splits)
    moreover have "?d \<noteq> []" using d(1) by (metis length_0_conv not_one_le_zero)
    ultimately show ?thesis using decode_digits_shrinks [of ?d "length ?d + 4" ch n] s that(2) by simp
  qed
  have bs: "2 \<le> n \<and> n \<le> length s \<and> length (utf8_encode ch) < n" if "marker = CHR 0x5C"
    using assms that s by (auto simp: decode_escape_def utf8_encode_def)
  have "2 \<le> n \<and> n \<le> length s \<and> length (utf8_encode ch) < n"
    using assms fixed [of 2] fixed [of 4] fixed [of 8] braced bs unfolding s decode_escape_def
    by (auto split: if_splits list.splits)
  then show "2 \<le> n" "n \<le> length s" "length (utf8_encode ch) < n" by auto
qed

function decode_escaped_text_once :: "string \<Rightarrow> string" where
  "decode_escaped_text_once [] = []"
| "decode_escaped_text_once (c # cs) =
     (case (if c = CHR 0x5C then decode_escape (c # cs) else None) of
        Some (ch, n) \<Rightarrow> utf8_encode ch @ decode_escaped_text_once (drop n (c # cs))
      | None \<Rightarrow> c # decode_escaped_text_once cs)"
  by pat_completeness auto
termination
  by (relation "measure length") (auto dest: decode_escape_shrinks(1) split: if_splits)

declare decode_escaped_text_once.simps(2) [simp del]

lemma decode_once_shrinks:
  "decode_escaped_text_once s = s \<or> length (decode_escaped_text_once s) < length s"
proof (induction s rule: decode_escaped_text_once.induct)
  case (2 c cs)
  show ?case
  proof (cases "if c = CHR 0x5C then decode_escape (c # cs) else None")
    case None
    then show ?thesis using "2.IH"(1) [OF None] by (auto simp: decode_escaped_text_once.simps(2))
  next
    case (Some p)
    obtain ch n where p: "p = (ch, n)" by (cases p)
    then have e: "decode_escape (c # cs) = Some (ch, n)" using Some by (auto split: if_splits)
    have "length (decode_escaped_text_once (drop n (c # cs))) \<le> length (drop n (c # cs))"
      using "2.IH"(2) [OF Some p [symmetric]] by (auto simp del: drop_Cons')
    then show ?thesis
      using decode_escape_shrinks [OF e] Some p
      by (auto simp: decode_escaped_text_once.simps(2) simp del: drop_Cons')
  qed
qed simp

text \<open>The loop of \<open>normalize_escaped_text\<close> ends: a pass that changes the text makes it shorter.\<close>

function normalize_escaped_text :: "string \<Rightarrow> string" where
  "normalize_escaped_text normalized =
     (let nxt = decode_escaped_text_once normalized
      in if nxt = normalized then normalized else normalize_escaped_text nxt)"
  by pat_completeness auto
termination
  by (relation "measure length") (use decode_once_shrinks in auto)

declare normalize_escaped_text.simps [simp del]

lemma normalize_fixed: "decode_escaped_text_once (normalize_escaped_text s) = normalize_escaped_text s"
  by (induction s rule: normalize_escaped_text.induct)
    (subst (1 2) normalize_escaped_text.simps, auto simp: Let_def)

lemma length_normalize: "length (normalize_escaped_text s) \<le> length s"
proof (induction s rule: normalize_escaped_text.induct)
  case (1 s)
  then show ?case
    using decode_once_shrinks [of s] by (subst normalize_escaped_text.simps) (fastforce simp: Let_def)
qed

section \<open>Credential-shaped text\<close>

definition MAX_EVENT_TEXT_BYTES :: nat where
  "MAX_EVENT_TEXT_BYTES = 512"

definition MAX_EVENT_DETAIL_BYTES :: nat where
  "MAX_EVENT_DETAIL_BYTES = 4096"

definition EVENT_SECRET_KEYS :: "string list" where
  "EVENT_SECRET_KEYS =
     [''authorization'', ''password'', ''passwd'', ''secret'', ''token'', ''apikey'', ''api_key'',
      ''access_token'', ''client_secret'', ''credential'', ''credentials'', ''cookie'',
      ''private_key'', ''session'']"

definition EVENT_SECRET_MARKERS :: "string list" where
  "EVENT_SECRET_MARKERS =
     [''bearer'', ''ghp_'', ''gho_'', ''ghu_'', ''ghs_'', ''ghr_'', ''github_pat_'', ''gh_api_'',
      ''glpat-'', ''xoxb-'', ''xoxp-'', ''npm_'', ''sk-'', ''akia'', ''asia'',
      ''begin private key'', ''begin-private-key'']"

definition REDACTION :: string where
  "REDACTION = ''***''"

definition is_redaction :: "string \<Rightarrow> bool" where
  "is_redaction text = (trim text = REDACTION)"

definition forbidden_character :: "int \<Rightarrow> bool" where
  "forbidden_character c =
     (is_control c \<or> c = 0x61C \<or> c = 0x180E \<or> (0x200B \<le> c \<and> c \<le> 0x200F)
      \<or> (0x202A \<le> c \<and> c \<le> 0x202E) \<or> (0x2060 \<le> c \<and> c \<le> 0x206F) \<or> c = 0xFEFF
      \<or> (0xFFF9 \<le> c \<and> c \<le> 0xFFFB) \<or> c = 0xE0001 \<or> (0xE0020 \<le> c \<and> c \<le> 0xE007F))"

definition event_text_has_forbidden_character :: "string \<Rightarrow> bool" where
  "event_text_has_forbidden_character val = list_ex forbidden_character (chars_of val)"

definition starts_with_byte :: "(char \<Rightarrow> bool) \<Rightarrow> string \<Rightarrow> bool" where
  "starts_with_byte p s = (case s of [] \<Rightarrow> False | c # _ \<Rightarrow> p c)"

definition is_exact_redaction :: "string \<Rightarrow> bool" where
  "is_exact_redaction val =
     (let suffix = trim_start val;
          quote = (case suffix of
                     c # _ \<Rightarrow> if c = CHR 0x22 \<or> c = CHR 0x27 then Some c else None
                   | [] \<Rightarrow> None);
          suffix = (if quote \<noteq> None then tl suffix else suffix)
      in if \<not> prefix REDACTION suffix then False
         else
           let rest = drop (length REDACTION) suffix
           in if (\<exists>q \<in> set_option quote. \<not> starts_with_byte (\<lambda>c. c = q) rest) then False
              else
                let rest = trim_start (if quote \<noteq> None then tl rest else rest)
                in rest = [] \<or> starts_with_byte (\<lambda>c. c = CHR '','' \<or> c = CHR ''}'' \<or> c = CHR '']'') rest)"

definition normalize_secret_key_separators :: "string \<Rightarrow> string" where
  "normalize_secret_key_separators val = filter (\<lambda>c. \<not> (c = CHR ''-'' \<or> c = CHR ''_'')) val"

definition secret_keys_match :: "string \<Rightarrow> string \<Rightarrow> bool" where
  "secret_keys_match actual expected =
     (map ascii_lower (filter (\<lambda>c. \<not> (c = CHR ''-'' \<or> c = CHR ''_'')) actual)
      = map ascii_lower (filter (\<lambda>c. \<not> (c = CHR ''-'' \<or> c = CHR ''_'')) expected))"

text \<open>What follows an occurrence of a key: an assignment of anything but the redaction mark.\<close>

definition assigns_secret :: "string \<Rightarrow> bool" where
  "assigns_secret rest =
     (let suffix = trim_start rest;
          suffix = (if starts_with_byte (\<lambda>c. c = CHR 0x22) suffix then trim_start (tl suffix) else suffix)
      in if starts_with_byte (\<lambda>c. c = CHR ''='' \<or> c = CHR '':'') suffix
         then \<not> is_exact_redaction (trim_start (tl suffix)) else False)"

definition name_char :: "char option \<Rightarrow> bool" where
  "name_char prev =
     (case prev of None \<Rightarrow> False
      | Some c \<Rightarrow> is_ascii_alphanumeric c \<or> c = CHR ''_'' \<or> c = CHR ''-'')"

text \<open>The search loop: each occurrence of the key from left to right, skipping past it.\<close>

function scan_secret_key :: "string \<Rightarrow> char option \<Rightarrow> string \<Rightarrow> bool" where
  "scan_secret_key key prev [] = False"
| "scan_secret_key key prev (c # cs) =
     (if key \<noteq> [] \<and> prefix key (c # cs) then
        (\<not> name_char prev \<and> assigns_secret (drop (length key) (c # cs)))
        \<or> scan_secret_key key (Some (last key)) (drop (length key) (c # cs))
      else scan_secret_key key (Some c) cs)"
  by pat_completeness auto
termination by (relation "measure (\<lambda>(key, prev, s). length s)") auto

definition secret_key_has_value :: "string \<Rightarrow> string \<Rightarrow> bool" where
  "secret_key_has_value text key =
     scan_secret_key (normalize_secret_key_separators key) None (normalize_secret_key_separators text)"

datatype Json =
    JNull | JBool bool | JNumber string | JString string | JArray "Json list"
  | JObject "(string \<times> Json) list"

definition json_value_is_exact_redaction :: "Json \<Rightarrow> bool" where
  "json_value_is_exact_redaction v = (case v of JString t \<Rightarrow> is_redaction t | _ \<Rightarrow> False)"

text \<open>The check of a JSON value, for a given check of its strings.\<close>

fun json_contains_secret :: "(string \<Rightarrow> bool) \<Rightarrow> Json \<Rightarrow> bool" where
  "json_contains_secret text_check (JObject members) =
     list_ex (\<lambda>(key, val).
        (list_ex (secret_keys_match key) EVENT_SECRET_KEYS \<and> \<not> json_value_is_exact_redaction val)
        \<or> json_contains_secret text_check val) members"
| "json_contains_secret text_check (JArray items) = list_ex (json_contains_secret text_check) items"
| "json_contains_secret text_check (JString text) = text_check text"
| "json_contains_secret text_check JNull = False"
| "json_contains_secret text_check (JBool b) = False"
| "json_contains_secret text_check (JNumber n) = False"

text \<open>The check of a text; \<open>nested\<close> is the check of the strings inside the JSON value it encodes.\<close>

definition secret_marker_step ::
    "(string \<Rightarrow> Json option) \<Rightarrow> (string \<Rightarrow> bool) \<Rightarrow> string \<Rightarrow> bool" where
  "secret_marker_step from_str nested val =
     (if MAX_EVENT_DETAIL_BYTES < length val then True
      else
        let normalized = normalize_escaped_text val
        in if event_text_has_forbidden_character normalized then True
           else
             let lowered = to_ascii_lowercase normalized
             in if list_ex (\<lambda>marker. contains_str marker lowered) EVENT_SECRET_MARKERS then True
                else if list_ex (secret_key_has_value lowered) EVENT_SECRET_KEYS then True
                else case from_str normalized of
                    None \<Rightarrow> False
                  | Some json \<Rightarrow> json_contains_secret nested json)"

primrec secret_marker_fuel :: "(string \<Rightarrow> Json option) \<Rightarrow> nat \<Rightarrow> string \<Rightarrow> bool" where
  "secret_marker_fuel from_str 0 val = True"
| "secret_marker_fuel from_str (Suc n) val =
     secret_marker_step from_str (secret_marker_fuel from_str n) val"

definition event_text_has_secret_marker :: "(string \<Rightarrow> Json option) \<Rightarrow> string \<Rightarrow> bool" where
  "event_text_has_secret_marker from_str val = secret_marker_fuel from_str (Suc (length val)) val"

section \<open>The contract\<close>

definition invalid_text :: "string \<Rightarrow> bool" where
  "invalid_text val = (trim_is_empty val \<or> MAX_EVENT_TEXT_BYTES < length val)"

definition validate_event_contract ::
    "(string \<Rightarrow> Json option) \<Rightarrow> string \<Rightarrow> string \<Rightarrow> string \<Rightarrow> string option \<Rightarrow> string option
      \<Rightarrow> StoreError + unit" where
  "validate_event_contract from_str instance_slug event_kind subject correlation_id detail =
     (let required = [(instance_slug, ''instance_slug''), (event_kind, ''event_kind''), (subject, ''subject'')];
          optional = (\<lambda>x. case x of None \<Rightarrow> [] | Some v \<Rightarrow> [v])
      in if list_ex (\<lambda>(v, _). invalid_text v) required
            \<or> list_ex invalid_text (optional correlation_id)
            \<or> list_ex (\<lambda>v. MAX_EVENT_DETAIL_BYTES < length v \<or> list_ex is_control (chars_of v)) (optional detail)
         then Inl (StoreError_new ExUsage ''store.event.invalid'')
         else if list_ex (\<lambda>(v, field). \<not> slug_ok v) required
         then Inl (StoreError_new ExUsage ''store.event.identity'')
         else if list_ex (\<lambda>v. \<not> slug_ok v) (optional correlation_id)
         then Inl (StoreError_new ExUsage ''store.event.identity'')
         else if list_ex (\<lambda>v. event_text_has_forbidden_character v \<or> event_text_has_secret_marker from_str v)
              (map fst required @ optional correlation_id @ optional detail)
         then Inl (StoreError_new ExOperation ''store.event.secret_marker'')
         else Inr ())"

section \<open>The normal form\<close>

lemma decode_once_fixed_no_escape:
  assumes "decode_escaped_text_once s = s" "s = a @ CHR 0x5C # b"
  shows "decode_escape (CHR 0x5C # b) = None"
  using assms
proof (induction s arbitrary: a rule: decode_escaped_text_once.induct)
  case (2 c cs)
  let ?e = "if c = CHR 0x5C then decode_escape (c # cs) else None"
  have none: "?e = None"
  proof (rule ccontr)
    assume "?e \<noteq> None"
    then obtain ch n where e: "?e = Some (ch, n)" by auto
    then have d: "decode_escape (c # cs) = Some (ch, n)" by (auto split: if_splits)
    have "length (decode_escaped_text_once (drop n (c # cs))) \<le> length (c # cs) - n"
      using decode_once_shrinks [of "drop n (c # cs)"] by (auto simp del: drop_Cons')
    then have "length (decode_escaped_text_once (c # cs)) < length (c # cs)"
      using decode_escape_shrinks [OF d] e
      by (simp add: decode_escaped_text_once.simps(2) del: drop_Cons')
    then show False using "2.prems"(1) by simp
  qed
  then have fixed: "decode_escaped_text_once cs = cs"
    using "2.prems"(1) by (simp add: decode_escaped_text_once.simps(2))
  show ?case
  proof (cases a)
    case Nil
    then show ?thesis using none "2.prems"(2) by simp
  next
    case (Cons x a')
    then show ?thesis using "2.IH"(1) [OF none fixed, of a'] "2.prems"(2) by simp
  qed
qed simp

text \<open>C26. Escaping does not hide a credential.  The loop that undoes escape sequences ends on every
  text, its result is not longer than the text, and no escape sequence is left in it at any
  position, however often the input was escaped.\<close>

theorem normalized_text_has_no_escape:
  "length (normalize_escaped_text s) \<le> length s
   \<and> (normalize_escaped_text s = a @ CHR 0x5C # b \<longrightarrow> decode_escape (CHR 0x5C # b) = None)"
  using length_normalize decode_once_fixed_no_escape [OF normalize_fixed] by blast

theorem normalized_text_has_no_escape_witness:
  "normalize_escaped_text (CHR 0x5C # CHR 0x5C # ''q'') = [] @ CHR 0x5C # ''q''
   \<and> decode_escape (CHR 0x5C # ''q'') = None"
proof -
  have "normalize_escaped_text (CHR 0x5C # CHR 0x5C # ''q'') = [] @ CHR 0x5C # ''q''" by code_simp
  then show ?thesis
    using normalized_text_has_no_escape [of "CHR 0x5C # CHR 0x5C # ''q''" "[]" "''q''"] by simp
qed

section \<open>The recursion through JSON\<close>

fun json_texts :: "Json \<Rightarrow> string set" where
  "json_texts (JObject members) = (\<Union>(key, val) \<in> set members. json_texts val)"
| "json_texts (JArray items) = (\<Union>v \<in> set items. json_texts v)"
| "json_texts (JString text) = {text}"
| "json_texts _ = {}"

lemma json_contains_secret_cong:
  "(\<And>t. t \<in> json_texts j \<Longrightarrow> p t = q t) \<Longrightarrow> json_contains_secret p j = json_contains_secret q j"
proof (induction j rule: json_texts.induct)
  case (1 members)
  have "json_contains_secret p val = json_contains_secret q val" if "(key, val) \<in> set members" for key val
    using "1.IH" [OF that refl] "1.prems" that by auto
  then show ?case unfolding json_contains_secret.simps by (intro list_ex_cong refl) auto
next
  case (2 items)
  have "json_contains_secret p v = json_contains_secret q v" if "v \<in> set items" for v
    using "2.IH" [OF that] "2.prems" that by auto
  then show ?case by (auto simp: list_ex_iff)
qed simp_all

definition json_shrinks :: "(string \<Rightarrow> Json option) \<Rightarrow> bool" where
  "json_shrinks from_str \<longleftrightarrow>
     (\<forall>t j s. from_str t = Some j \<longrightarrow> s \<in> json_texts j \<longrightarrow> length s < length t)"

lemma secret_marker_step_cong:
  assumes "json_shrinks from_str" "\<And>s. length s < length val \<Longrightarrow> p s = q s"
  shows "secret_marker_step from_str p val = secret_marker_step from_str q val"
proof -
  have "json_contains_secret p j = json_contains_secret q j"
    if "from_str (normalize_escaped_text val) = Some j" for j
  proof (rule json_contains_secret_cong)
    fix t assume "t \<in> json_texts j"
    then have "length t < length (normalize_escaped_text val)"
      using assms(1) that by (auto simp: json_shrinks_def)
    then show "p t = q t" using assms(2) length_normalize [of val] by (meson order_less_le_trans)
  qed
  then show ?thesis by (simp add: secret_marker_step_def Let_def split: option.splits)
qed

lemma secret_marker_fuel_enough:
  assumes "json_shrinks from_str" "length val < n" "length val < m"
  shows "secret_marker_fuel from_str n val = secret_marker_fuel from_str m val"
  using assms(2,3)
proof (induction n arbitrary: val m)
  case (Suc n)
  then obtain m' where m: "m = Suc m'" by (cases m) auto
  show ?case unfolding m secret_marker_fuel.simps
  proof (rule secret_marker_step_cong [OF assms(1)])
    fix s :: string assume "length s < length val"
    then show "secret_marker_fuel from_str n s = secret_marker_fuel from_str m' s"
      using Suc.IH [of s m'] Suc.prems m by simp
  qed
qed simp

text \<open>The secret check terminates.  For a JSON parser whose string items are shorter than the text
  they come from, the fuel never runs out: the check satisfies the recursive equation of the code,
  in which the strings of the decoded JSON value are checked by the same function.\<close>

theorem secret_check_recursion:
  assumes "json_shrinks from_str"
  shows "event_text_has_secret_marker from_str val
    = secret_marker_step from_str (event_text_has_secret_marker from_str) val"
proof -
  have "secret_marker_step from_str (secret_marker_fuel from_str (length val)) val
      = secret_marker_step from_str (event_text_has_secret_marker from_str) val"
  proof (rule secret_marker_step_cong [OF assms])
    fix s :: string assume "length s < length val"
    then show "secret_marker_fuel from_str (length val) s = event_text_has_secret_marker from_str s"
      unfolding event_text_has_secret_marker_def by (intro secret_marker_fuel_enough [OF assms]) auto
  qed
  then show ?thesis by (simp add: event_text_has_secret_marker_def)
qed

definition quoted_json :: "string \<Rightarrow> Json option" where
  "quoted_json s = (case s of
     c # rest \<Rightarrow> if c = CHR 0x22 \<and> rest \<noteq> [] \<and> last rest = CHR 0x22 then Some (JString (butlast rest)) else None
   | [] \<Rightarrow> None)"

lemma quoted_json_shrinks: "json_shrinks quoted_json"
  by (auto simp: json_shrinks_def quoted_json_def split: list.splits if_splits)

theorem secret_check_recursion_witness:
  "event_text_has_secret_marker quoted_json (CHR 0x22 # ''ok'' @ [CHR 0x22])
     = secret_marker_step quoted_json (event_text_has_secret_marker quoted_json) (CHR 0x22 # ''ok'' @ [CHR 0x22])"
  using secret_check_recursion [OF quoted_json_shrinks] by blast

section \<open>Identities\<close>

lemma decode_once_no_backslash: "CHR 0x5C \<notin> set s \<Longrightarrow> decode_escaped_text_once s = s"
  by (induction s) (auto simp: decode_escaped_text_once.simps(2))

lemma normalize_slug: "slug_ok s \<Longrightarrow> normalize_escaped_text s = s"
proof -
  assume "slug_ok s"
  then have "CHR 0x5C \<notin> set s" using slug_ok_chars [of s "CHR 0x5C"] by (auto simp: is_slug_char_def byte_of_def)
  then show ?thesis by (subst normalize_escaped_text.simps) (simp add: decode_once_no_backslash)
qed

lemma secret_marker_in_slug:
  assumes "slug_ok s" "marker \<in> set EVENT_SECRET_MARKERS" "contains_str marker (to_ascii_lowercase s)"
  shows "event_text_has_secret_marker from_str s"
  using assms normalize_slug [OF assms(1)]
  by (auto simp: event_text_has_secret_marker_def secret_marker_step_def Let_def list_ex_iff)

text \<open>C27. A valid identity can be unusable.  The slug contract accepts names such as \<open>runner-asia-1\<close> or
  \<open>task-7\<close>, yet every event that names one of them is refused, because the markers for access keys
  (\<open>asia\<close>, \<open>sk-\<close>, \<open>npm_\<close>, ...) are searched in the identity fields as well as in the details.\<close>

theorem marked_identity_rejects_every_event:
  assumes "slug_ok v" "marker \<in> set EVENT_SECRET_MARKERS" "contains_str marker (to_ascii_lowercase v)"
    and "v \<in> {instance_slug, event_kind, subject} \<union> set_option correlation_id"
  shows "\<exists>e. validate_event_contract from_str instance_slug event_kind subject correlation_id detail = Inl e"
  using secret_marker_in_slug [OF assms(1-3), of from_str] assms(4)
  by (auto simp: validate_event_contract_def Let_def split: option.splits)

theorem marked_identity_rejects_every_event_witness:
  "slug_ok ''runner-asia-1''
   \<and> (\<exists>e. validate_event_contract quoted_json ''runner-asia-1'' ''job.started'' ''job-1'' None None = Inl e)"
proof -
  have s: "slug_ok ''runner-asia-1''" by code_simp
  have c: "contains_str ''asia'' (to_ascii_lowercase ''runner-asia-1'')" by code_simp
  show ?thesis
    using s marked_identity_rejects_every_event [OF s _ c, of "''runner-asia-1''" "''job.started''" "''job-1''" None quoted_json None]
    by (auto simp: EVENT_SECRET_MARKERS_def)
qed

end
