(* ===== verification/Op_Store.thy ===== *)
theory Op_Store
  imports Event_Contract
begin

text \<open>
  The operational store of \<open>velnor-control\<close> (\<open>store/records.rs\<close>): the SQLite database with the
  schema of \<open>store/migrations.rs\<close>, the row types, the event stream, jobs, their transitions and
  storage reservations.  Tables are association lists in row-id order.  The triggers that keep the
  reservation totals and the retention counters are part of the statements that fire them.  The
  \<open>time\<close> crate, \<open>serde_json\<close>, the clock and the measured file sizes are parameters (\<open>StoreEnv\<close>);
  lock and disk failures, and a table whose row ids are exhausted, are not modelled.

  An error that comes with a refused state-machine edge is counted by the store handle, which is
  not part of the transaction: errors carry a flag, and \<open>run_store\<close> does the counting.
\<close>

section \<open>Environment and errors\<close>

record StoreEnv =
  to_rfc3339 :: "Timestamp \<Rightarrow> string option"
  parse_rfc3339 :: "string \<Rightarrow> Timestamp option"
  from_str :: "string \<Rightarrow> Json option"
  clock :: "nat \<Rightarrow> Timestamp"
  database_bytes :: "StoreError + u64 \<times> u64"
  free_bytes :: "u64 option"

definition rfc3339 :: "StoreEnv \<Rightarrow> Timestamp \<Rightarrow> string" where
  "rfc3339 env t =
     (case to_rfc3339 env t of Some s \<Rightarrow> s | None \<Rightarrow> ''1970-01-01T00:00:00Z'')"

text \<open>An \<open>rusqlite\<close> error that is neither busy nor a missing row.\<close>

definition sqlite_failed :: StoreError where
  "sqlite_failed = StoreError_new ExOperation ''store.operation.failed''"

type_synonym 'a store_result = "StoreError \<times> bool + 'a"

definition plain :: "StoreError + 'a \<Rightarrow> 'a store_result" where
  "plain m = (case m of Inl e \<Rightarrow> Inl (e, False) | Inr a \<Rightarrow> Inr a)"

definition fail :: "ExitClass \<Rightarrow> string \<Rightarrow> 'a store_result" where
  "fail class reason = Inl (StoreError_new class reason, False)"

definition refuse_edge :: "ExitClass \<Rightarrow> string \<Rightarrow> 'a store_result" where
  "refuse_edge class reason = Inl (StoreError_new class reason, True)"

section \<open>Rows\<close>

record InstanceDbRow =
  i_host :: string
  i_daemon_version :: string
  i_slots_configured :: int
  i_slots_busy :: int
  i_updated_at :: string
  i_desired_state :: string
  i_observed_state :: string
  i_resource_version :: int
  i_desired_slots :: "int option"

record SlotDbRow =
  s_host :: string
  s_slot_index :: int
  s_slot_kind :: string
  s_phase :: string
  s_job_name :: "string option"
  s_updated_at :: string
  s_generation :: int
  s_transition_sequence :: int
  s_last_transition_token :: "string option"
  s_last_correlation_id :: "string option"
  s_last_transition_detail :: "string option"

record SlotRequestDbRow =
  r_generation :: int
  r_target :: string
  r_job_name :: "string option"
  r_message :: "string option"
  r_allocated_sequence :: int
  r_allocated_token :: string
  r_allocated_correlation_id :: string
  r_allocated_detail :: string

record RegistrationDbRow =
  g_name :: string
  g_ephemeral :: int
  g_online :: int
  g_labels_json :: string
  g_registered_at :: string
  g_updated_at :: string

record JobDbRow =
  j_repository :: string
  j_workflow :: string
  j_job_name :: string
  j_run_id :: "int option"
  j_attempt :: "int option"
  j_head_ref :: "string option"
  j_head_sha :: "string option"
  j_trigger_event :: "string option"
  j_queued_at :: "string option"
  j_acquired_at :: "string option"
  j_slot_name :: "string option"
  j_runner_name :: "string option"
  j_trust_scope :: "string option"
  j_trust_class :: "string option"
  j_resource_policy :: "string option"
  j_phase :: string
  j_conclusion :: "string option"
  j_infrastructure_category :: "string option"
  j_execution_backend :: "string option"
  j_updated_at :: string

record TransitionDbRow =
  t_instance_slug :: string
  t_job_uid :: string
  t_transition_token :: string
  t_correlation_id :: string
  t_reason :: string
  t_message :: "string option"
  t_transition_time :: string

record EventDbRow =
  e_instance_slug :: string
  e_event_kind :: string
  e_subject :: string
  e_correlation_id :: "string option"
  e_occurred_at :: string
  e_detail :: "string option"
  e_transition_id :: "int option"
  e_reconciliation_id :: "int option"

record StreamDbRow =
  st_first_retained_id :: int
  st_high_water_id :: int
  st_updated_at :: string

record ReconciliationDbRow =
  c_instance_slug :: string
  c_kind :: string
  c_subject :: string
  c_status :: string
  c_started_at :: string
  c_finished_at :: "string option"
  c_detail :: "string option"

record LifecycleOperationDbRow =
  o_operation_id :: string
  o_kind :: string
  o_target :: string
  o_reason :: string
  o_desired_state :: string
  o_resource_version :: int
  o_phase :: string
  o_created_at :: string
  o_desired_slots :: "int option"
  o_expected_version :: "int option"

record ReservationDbRow =
  v_reserved_bytes :: int
  v_reserved_at :: string

text \<open>\<open>storage_reservation_state\<close> and the counters of \<open>retention_state\<close> are the last fields.\<close>

record OpDb =
  instances :: "(string, InstanceDbRow) table"
  slots :: "(string \<times> string, SlotDbRow) table"
  slot_transition_requests :: "(string \<times> string \<times> string, SlotRequestDbRow) table"
  runner_registrations :: "(string \<times> int, RegistrationDbRow) table"
  jobs :: "(string \<times> string, JobDbRow) table"
  job_transitions :: "(int, TransitionDbRow) table"
  transition_seq :: int
  events :: "(int, EventDbRow) table"
  event_seq :: int
  event_stream_state :: "(string, StreamDbRow) table"
  reconciliations :: "(int, ReconciliationDbRow) table"
  reconciliation_seq :: int
  lifecycle_operations :: "(string \<times> string, LifecycleOperationDbRow) table"
  job_storage_reservations :: "(string \<times> string, ReservationDbRow) table"
  reserved_bytes :: int
  reservation_count :: int
  job_rows :: int
  event_rows :: int
  transition_rows :: int

record Store =
  store_db :: OpDb
  illegal_transition_edges :: u64

text \<open>One transaction of a store handle.  The counter wraps, as \<open>fetch_add\<close> does.\<close>

definition run_store :: "(StoreError \<times> bool, OpDb, 'a) tx \<Rightarrow> Store \<Rightarrow> (StoreError + 'a) \<times> Store" where
  "run_store t S =
     (case t of
        Commit a db \<Rightarrow> (Inr a, S\<lparr>store_db := db\<rparr>)
      | Rollback a \<Rightarrow> (Inr a, S)
      | Abort (e, refused) \<Rightarrow>
          (Inl e, if refused then S\<lparr>illegal_transition_edges := illegal_transition_edges S + 1\<rparr> else S))"

text \<open>\<open>INSERT ... ON CONFLICT (key) DO UPDATE\<close>.\<close>

definition tbl_upsert :: "'k \<Rightarrow> 'r \<Rightarrow> ('r \<Rightarrow> 'r) \<Rightarrow> ('k, 'r) table \<Rightarrow> ('k, 'r) table" where
  "tbl_upsert k new f t =
     (if map_of t k = None then tbl_insert k new t else tbl_update k (\<lambda>_. True) f t)"

definition coalesce :: "'a option \<Rightarrow> 'a option \<Rightarrow> 'a option" where
  "coalesce x y = (if x \<noteq> None then x else y)"

section \<open>Events\<close>

record EventRow =
  ev_instance_slug :: string
  ev_event_kind :: string
  ev_subject :: string
  ev_correlation_id :: "string option"
  ev_occurred_at :: Timestamp
  ev_detail :: "string option"

record StoredEvent =
  sev_id :: u64
  sev_row :: EventRow

record EventWindow =
  ew_first_retained_id :: "u64 option"
  ew_high_water_id :: "u64 option"
  ew_events :: "StoredEvent list"

definition validate_event_row :: "StoreEnv \<Rightarrow> EventRow \<Rightarrow> StoreError + unit" where
  "validate_event_row env row =
     validate_event_contract (from_str env) (ev_instance_slug row) (ev_event_kind row)
       (ev_subject row) (ev_correlation_id row) (ev_detail row)"

definition validate_event_ancestry ::
    "OpDb \<Rightarrow> string \<Rightarrow> string \<Rightarrow> int option \<Rightarrow> int option \<Rightarrow> StoreError + unit" where
  "validate_event_ancestry db inst subject transition_id reconciliation_id =
     (if (case transition_id of
            None \<Rightarrow> False
          | Some tid \<Rightarrow> \<not> (case map_of (job_transitions db) tid of
                None \<Rightarrow> False
              | Some t \<Rightarrow> t_instance_slug t = inst \<and> t_job_uid t = subject))
      then Inl (StoreError_new ExConflict ''store.event.ancestry'')
      else if (case reconciliation_id of
            None \<Rightarrow> False
          | Some cid \<Rightarrow> \<not> (case map_of (reconciliations db) cid of
                None \<Rightarrow> False | Some c \<Rightarrow> c_instance_slug c = inst))
      then Inl (StoreError_new ExConflict ''store.event.ancestry'')
      else Inr ())"

text \<open>The watermark row of an instance after its event \<open>id\<close>, with the \<open>CHECK\<close> constraints of the
  table.\<close>

definition advance_stream ::
    "StoreEnv \<Rightarrow> Timestamp \<Rightarrow> string \<Rightarrow> int \<Rightarrow> (string, StreamDbRow) table
      \<Rightarrow> StoreError + (string, StreamDbRow) table" where
  "advance_stream env now inst eid t =
     (let first = (case map_of t inst of
            None \<Rightarrow> eid
          | Some s \<Rightarrow> if st_high_water_id s < st_first_retained_id s then eid else st_first_retained_id s);
          row = \<lparr>st_first_retained_id = first, st_high_water_id = eid, st_updated_at = rfc3339 env now\<rparr>
      in if 1 \<le> first \<and> 0 \<le> eid \<and> first \<le> eid + 1 then Inr (tbl_upsert inst row (\<lambda>_. row) t)
         else Inl sqlite_failed)"

definition insert_event ::
    "StoreEnv \<Rightarrow> EventRow \<Rightarrow> int option \<Rightarrow> int option \<Rightarrow> OpDb \<Rightarrow> OpDb" where
  "insert_event env row transition_id reconciliation_id db =
     db\<lparr>events := tbl_insert (event_seq db + 1)
          \<lparr>e_instance_slug = ev_instance_slug row, e_event_kind = ev_event_kind row,
           e_subject = ev_subject row, e_correlation_id = ev_correlation_id row,
           e_occurred_at = rfc3339 env (ev_occurred_at row), e_detail = ev_detail row,
           e_transition_id = transition_id, e_reconciliation_id = reconciliation_id\<rparr> (events db),
        event_seq := event_seq db + 1, event_rows := event_rows db + 1\<rparr>"

definition append_event_with_ancestry ::
    "StoreEnv \<Rightarrow> Timestamp \<Rightarrow> EventRow \<Rightarrow> int option \<Rightarrow> int option \<Rightarrow> OpDb \<Rightarrow> StoreError + u64 \<times> OpDb" where
  "append_event_with_ancestry env now row transition_id reconciliation_id db =
     try_sum (validate_event_row env row) (\<lambda>_.
     try_sum (validate_event_ancestry db (ev_instance_slug row) (ev_subject row)
                transition_id reconciliation_id) (\<lambda>_.
     let db1 = insert_event env row transition_id reconciliation_id db
     in case u64_try_from_i64 (event_seq db1) of
          None \<Rightarrow> Inl (StoreError_new ExOperation ''store.event.id.range'')
        | Some eid \<Rightarrow>
            try_sum (advance_stream env now (ev_instance_slug row) (event_seq db1) (event_stream_state db1))
              (\<lambda>t. Inr (eid, db1\<lparr>event_stream_state := t\<rparr>))))"

definition append_event_in_transaction ::
    "StoreEnv \<Rightarrow> Timestamp \<Rightarrow> EventRow \<Rightarrow> OpDb \<Rightarrow> StoreError + u64 \<times> OpDb" where
  "append_event_in_transaction env now row db = append_event_with_ancestry env now row None None db"

text \<open>A transaction whose body is a computation on the database.\<close>

definition commit_of :: "('a \<times> OpDb) store_result \<Rightarrow> (StoreError \<times> bool, OpDb, 'a) tx" where
  "commit_of m = (case m of Inl e \<Rightarrow> Abort e | Inr (a, db) \<Rightarrow> Commit a db)"

definition append_event :: "StoreEnv \<Rightarrow> EventRow \<Rightarrow> Store \<Rightarrow> (StoreError + u64) \<times> Store" where
  "append_event env row S =
     (if ev_event_kind row = EventReason_as_str SlotStateChanged
      then (Inl (StoreError_new ExConflict ''store.slot.event.requires_transition''), S)
      else run_store (commit_of (plain (append_event_in_transaction env (clock env 0) row (store_db S)))) S)"

definition decode_stored_event :: "StoreEnv \<Rightarrow> string \<Rightarrow> int \<times> EventDbRow \<Rightarrow> StoreError + StoredEvent" where
  "decode_stored_event env inst idr =
     (case idr of (eid, r) \<Rightarrow>
        (case u64_try_from_i64 eid of
           None \<Rightarrow> Inl sqlite_failed
         | Some uid \<Rightarrow>
             (case parse_rfc3339 env (e_occurred_at r) of
                None \<Rightarrow> Inl sqlite_failed
              | Some at \<Rightarrow>
                  let event = \<lparr>ev_instance_slug = inst, ev_event_kind = e_event_kind r,
                               ev_subject = e_subject r, ev_correlation_id = e_correlation_id r,
                               ev_occurred_at = at, ev_detail = e_detail r\<rparr>
                  in case validate_event_row env event of
                       Inl _ \<Rightarrow> Inl sqlite_failed
                     | Inr _ \<Rightarrow> Inr \<lparr>sev_id = uid, sev_row = event\<rparr>)))"

text \<open>A loop over fallible rows stops at the first error.\<close>

primrec collect_rows :: "('a \<Rightarrow> 'e + 'b) \<Rightarrow> 'a list \<Rightarrow> 'e + 'b list" where
  "collect_rows f [] = Inr []"
| "collect_rows f (x # xs) = try_sum (f x) (\<lambda>y. try_sum (collect_rows f xs) (\<lambda>ys. Inr (y # ys)))"

text \<open>\<open>SELECT ... FROM events WHERE instance_slug = inst AND p AND id > after ORDER BY id LIMIT n\<close>.\<close>

definition select_events ::
    "string \<Rightarrow> (EventDbRow \<Rightarrow> bool) \<Rightarrow> int \<Rightarrow> nat \<Rightarrow> (int, EventDbRow) table \<Rightarrow> (int \<times> EventDbRow) list" where
  "select_events inst p after_id n t =
     take n (sort_key fst (filter (\<lambda>(eid, r). e_instance_slug r = inst \<and> p r \<and> after_id < eid) t))"

definition nocase_eq :: "string \<Rightarrow> string \<Rightarrow> bool" where
  "nocase_eq a b = (to_ascii_lowercase a = to_ascii_lowercase b)"

fun dedup_by_id :: "StoredEvent list \<Rightarrow> StoredEvent list" where
  "dedup_by_id (x # y # xs) =
     (if sev_id x = sev_id y then dedup_by_id (x # xs) else x # dedup_by_id (y # xs))"
| "dedup_by_id xs = xs"

definition event_window ::
    "StoreEnv \<Rightarrow> string \<Rightarrow> u64 \<Rightarrow> string option \<Rightarrow> u32 \<Rightarrow> OpDb \<Rightarrow> StoreError + EventWindow" where
  "event_window env inst after_id resource_kind limit db =
     (if limit = 0 \<or> 4096 < limit then Inl (StoreError_new ExUsage ''store.event.limit'')
      else if i64_max < uint after_id then Inl (StoreError_new ExUsage ''store.event.cursor'')
      else
        let bounds = (case map_of (event_stream_state db) inst of
              None \<Rightarrow> (1, 0) | Some s \<Rightarrow> (st_first_retained_id s, st_high_water_id s))
        in case u64_try_from_i64 (fst bounds) of
             None \<Rightarrow> Inl (StoreError_new ExOperation ''store.event.id.range'')
           | Some first \<Rightarrow>
          (case u64_try_from_i64 (snd bounds) of
             None \<Rightarrow> Inl (StoreError_new ExOperation ''store.event.id.range'')
           | Some high \<Rightarrow>
               try_sum
                 (case resource_kind of
                    Some kind \<Rightarrow>
                      try_sum (collect_rows (decode_stored_event env inst)
                        (select_events inst (\<lambda>r. nocase_eq (e_event_kind r) kind) (uint after_id) (unat limit) (events db)))
                        (\<lambda>ks. try_sum (collect_rows (decode_stored_event env inst)
                          (select_events inst (\<lambda>r. nocase_eq (e_subject r) kind) (uint after_id) (unat limit) (events db)))
                          (\<lambda>ss. Inr (take (unat limit) (dedup_by_id (sort_key sev_id (ks @ ss))))))
                  | None \<Rightarrow>
                      collect_rows (decode_stored_event env inst)
                        (select_events inst (\<lambda>_. True) (uint after_id) (unat limit) (events db)))
                 (\<lambda>evs. Inr \<lparr>ew_first_retained_id = (if 0 < high then Some first else None),
                              ew_high_water_id = (if 0 < high then Some high else None),
                              ew_events = evs\<rparr>)))"

definition events_after ::
    "StoreEnv \<Rightarrow> string \<Rightarrow> u64 \<Rightarrow> u32 \<Rightarrow> OpDb \<Rightarrow> StoreError + StoredEvent list" where
  "events_after env inst after_id limit db =
     try_sum (event_window env inst after_id None limit db) (\<lambda>w. Inr (ew_events w))"

definition event_bounds :: "string \<Rightarrow> OpDb \<Rightarrow> StoreError + u64 option \<times> u64 option" where
  "event_bounds inst db =
     (case map_of (event_stream_state db) inst of
        None \<Rightarrow> Inr (None, None)
      | Some s \<Rightarrow>
          (case u64_try_from_i64 (st_first_retained_id s) of
             None \<Rightarrow> Inl (StoreError_new ExOperation ''store.event.id.range'')
           | Some first \<Rightarrow>
               (case u64_try_from_i64 (st_high_water_id s) of
                  None \<Rightarrow> Inl (StoreError_new ExOperation ''store.event.id.range'')
                | Some high \<Rightarrow> Inr (Some first, Some high))))"

end
