(* ===== verification/Store_Jobs.thy ===== *)
theory Store_Jobs
  imports Op_Store
begin

text \<open>
  Jobs in the operational store: seeding rows (\<open>record_job\<close>, \<open>persist_summary\<close>), the storage
  reservations of admitted jobs and the admission budget, the job transitions, and the reads that
  decode a stored row back into a summary.
\<close>

section \<open>Inputs\<close>

record JobRow =
  jr_instance_slug :: string
  jr_job_uid :: string
  jr_repository :: string
  jr_workflow :: string
  jr_job_name :: string
  jr_run_id :: "int option"
  jr_attempt :: "int option"
  jr_head_ref :: "string option"
  jr_head_sha :: "string option"
  jr_trigger_event :: "string option"
  jr_queued_at :: "Timestamp option"
  jr_acquired_at :: "Timestamp option"
  jr_slot_name :: "string option"
  jr_runner_name :: "string option"
  jr_execution_backend :: "string option"
  jr_trust_scope :: "string option"
  jr_trust_class :: "string option"
  jr_resource_policy :: "string option"
  jr_phase :: string
  jr_conclusion :: "string option"
  jr_infrastructure_category :: "string option"
  jr_updated_at :: Timestamp

record Transition =
  tr_token :: string
  tr_correlation_id :: string
  tr_reason :: EventReason
  tr_message :: "string option"
  tr_transition_time :: Timestamp
  tr_conclusion :: "string option"
  tr_infrastructure_category :: "string option"

record IllegalJobEdge =
  ie_from :: JobState
  ie_reason :: EventReason

section \<open>Validation of raw job rows\<close>

definition unidentified_summary :: StoreError where
  "unidentified_summary = StoreError_new ExOperation ''store.job.summary.unidentified''"

definition summary_out_of_range :: StoreError where
  "summary_out_of_range = StoreError_new ExOperation ''store.job.summary.range''"

definition summary_decode :: StoreError where
  "summary_decode = StoreError_new ExOperation ''store.job.summary.decode''"

definition validate_job_row :: "JobRow \<Rightarrow> StoreError + unit" where
  "validate_job_row row =
     (case jr_run_id row of None \<Rightarrow> Inl unidentified_summary | Some run_id \<Rightarrow>
     (case jr_attempt row of None \<Rightarrow> Inl unidentified_summary | Some attempt \<Rightarrow>
      if run_id < 0 then Inl summary_out_of_range
      else if attempt < 0 \<or> 4294967295 < attempt then Inl summary_out_of_range
      else
        let invalid = StoreError_new ExConflict ''store.job.summary.invalid'';
            bad = (\<lambda>x. case x of None \<Rightarrow> False | Some v \<Rightarrow> \<not> slug_ok v)
        in if list_ex (\<lambda>v. \<not> slug_ok v)
                [jr_instance_slug row, jr_job_uid row, jr_workflow row, jr_job_name row]
           then Inl invalid
           else case rsplit_once (CHR ''/'') (jr_repository row) of
               None \<Rightarrow> Inl invalid
             | Some (owner, name) \<Rightarrow>
                 if \<not> slug_ok owner then Inl invalid
                 else if \<not> slug_ok name then Inl invalid
                 else if list_ex bad
                     [jr_head_ref row, jr_head_sha row, jr_runner_name row, jr_trust_scope row,
                      jr_trust_class row, jr_resource_policy row, jr_slot_name row,
                      jr_conclusion row, jr_infrastructure_category row]
                 then Inl invalid
                 else if (case jr_execution_backend row of
                            None \<Rightarrow> False | Some v \<Rightarrow> ExecutionBackendKind_parse_value v = None)
                 then Inl invalid
                 else if (case jr_trigger_event row of
                            None \<Rightarrow> False
                          | Some v \<Rightarrow> (case TriggerEvent_try_from v of Inl _ \<Rightarrow> True | Inr _ \<Rightarrow> False))
                 then Inl invalid
                 else if jr_phase row \<notin> {''queued'', ''acquired'', ''waiting'', ''started'',
                       ''completed'', ''canceled'', ''rejected''}
                 then Inl invalid
                 else Inr ()))"

section \<open>Storage reservations\<close>

definition JOB_STORAGE_RESERVATION_BYTES :: int where
  "JOB_STORAGE_RESERVATION_BYTES = 256 * 1024"

definition storage_reservation_bytes :: "OpDb \<Rightarrow> StoreError + u64" where
  "storage_reservation_bytes db =
     (if reserved_bytes db < 0 \<or> reservation_count db < 0
         \<or> reservation_count db * JOB_STORAGE_RESERVATION_BYTES \<noteq> reserved_bytes db
      then Inl (StoreError_new ExOperation ''store.admission.reservation.corrupt'')
      else Inr (word_of_int (reserved_bytes db)))"

definition insert_job_storage_reservation ::
    "StoreEnv \<Rightarrow> Timestamp \<Rightarrow> string \<Rightarrow> string \<Rightarrow> OpDb \<Rightarrow> StoreError + OpDb" where
  "insert_job_storage_reservation env now inst uid db =
     (if inst = [] \<or> uid = [] \<or> map_of (job_storage_reservations db) (inst, uid) \<noteq> None
      then Inl sqlite_failed
      else Inr (db\<lparr>job_storage_reservations := tbl_insert (inst, uid)
                     \<lparr>v_reserved_bytes = JOB_STORAGE_RESERVATION_BYTES, v_reserved_at = rfc3339 env now\<rparr>
                     (job_storage_reservations db),
                   reserved_bytes := reserved_bytes db + JOB_STORAGE_RESERVATION_BYTES,
                   reservation_count := reservation_count db + 1\<rparr>))"

definition ensure_job_storage_reservation ::
    "StoreEnv \<Rightarrow> Timestamp \<Rightarrow> string \<Rightarrow> string \<Rightarrow> OpDb \<Rightarrow> StoreError + OpDb" where
  "ensure_job_storage_reservation env now inst uid db =
     (if map_of (job_storage_reservations db) (inst, uid) \<noteq> None then Inr db
      else insert_job_storage_reservation env now inst uid db)"

text \<open>\<open>DELETE FROM job_storage_reservations\<close> with its trigger; the total has a \<open>CHECK\<close>.\<close>

definition delete_job_storage_reservation :: "string \<Rightarrow> string \<Rightarrow> OpDb \<Rightarrow> StoreError + bool \<times> OpDb" where
  "delete_job_storage_reservation inst uid db =
     (case map_of (job_storage_reservations db) (inst, uid) of
        None \<Rightarrow> Inr (False, db)
      | Some v \<Rightarrow>
          if reserved_bytes db < v_reserved_bytes v then Inl sqlite_failed
          else Inr (True,
            db\<lparr>job_storage_reservations :=
                  tbl_delete (inst, uid) (\<lambda>_. True) (job_storage_reservations db),
               reserved_bytes := reserved_bytes db - v_reserved_bytes v,
               reservation_count := reservation_count db - 1\<rparr>))"

definition release_job_storage_reservation ::
    "string \<Rightarrow> string \<Rightarrow> Store \<Rightarrow> (StoreError + bool) \<times> Store" where
  "release_job_storage_reservation inst uid S =
     (if \<not> slug_ok inst then (Inl (StoreError_new ExConflict ''store.admission.reservation.identity''), S)
      else if \<not> slug_ok uid then (Inl (StoreError_new ExConflict ''store.admission.reservation.identity''), S)
      else run_store (commit_of (plain (delete_job_storage_reservation inst uid (store_db S)))) S)"

definition admission_reservation_bytes :: "string \<Rightarrow> string \<Rightarrow> OpDb \<Rightarrow> StoreError + u64" where
  "admission_reservation_bytes inst uid db =
     try_sum (storage_reservation_bytes db) (\<lambda>_.
       if map_of (job_storage_reservations db) (inst, uid) \<noteq> None then Inr 0
       else if map_of (jobs db) (inst, uid) \<noteq> None
       then Inl (StoreError_new ExOperation ''store.admission.reservation.missing'')
       else Inr (word_of_int JOB_STORAGE_RESERVATION_BYTES))"

section \<open>Seeding a job\<close>

definition seed_job_row :: "StoreEnv \<Rightarrow> JobRow \<Rightarrow> JobDbRow" where
  "seed_job_row env row =
     \<lparr>j_repository = jr_repository row, j_workflow = jr_workflow row, j_job_name = jr_job_name row,
      j_run_id = jr_run_id row, j_attempt = jr_attempt row, j_head_ref = jr_head_ref row,
      j_head_sha = jr_head_sha row, j_trigger_event = jr_trigger_event row,
      j_queued_at = map_option (rfc3339 env) (jr_queued_at row),
      j_acquired_at = map_option (rfc3339 env) (jr_acquired_at row),
      j_slot_name = jr_slot_name row, j_runner_name = jr_runner_name row,
      j_trust_scope = jr_trust_scope row, j_trust_class = jr_trust_class row,
      j_resource_policy = jr_resource_policy row, j_phase = jr_phase row,
      j_conclusion = jr_conclusion row,
      j_infrastructure_category = jr_infrastructure_category row,
      j_execution_backend = jr_execution_backend row,
      j_updated_at = rfc3339 env (jr_updated_at row)\<rparr>"

definition upsert_job :: "string \<times> string \<Rightarrow> JobDbRow \<Rightarrow> (JobDbRow \<Rightarrow> JobDbRow) \<Rightarrow> OpDb \<Rightarrow> OpDb" where
  "upsert_job key new f db =
     db\<lparr>jobs := tbl_upsert key new f (jobs db),
        job_rows := (if map_of (jobs db) key = None then job_rows db + 1 else job_rows db)\<rparr>"

definition record_job :: "StoreEnv \<Rightarrow> JobRow \<Rightarrow> Store \<Rightarrow> (StoreError + unit) \<times> Store" where
  "record_job env row S =
     (case validate_job_row row of
        Inl e \<Rightarrow> (Inl e, S)
      | Inr _ \<Rightarrow>
          let new = seed_job_row env row;
              db = upsert_job (jr_instance_slug row, jr_job_uid row) new
                (\<lambda>old. new\<lparr>j_queued_at := coalesce (j_queued_at old) (j_queued_at new),
                           j_acquired_at := coalesce (j_acquired_at old) (j_acquired_at new),
                           j_slot_name := coalesce (j_slot_name new) (j_slot_name old),
                           j_execution_backend :=
                             coalesce (j_execution_backend new) (j_execution_backend old)\<rparr>)
                (store_db S)
          in run_store
               (if jr_phase row \<in> {''completed'', ''canceled'', ''rejected''} then Commit () db
                else commit_of (plain (try_sum
                  (ensure_job_storage_reservation env (clock env 0) (jr_instance_slug row) (jr_job_uid row) db)
                  (\<lambda>db1. Inr ((), db1))))) S)"

definition insert_summary ::
    "StoreEnv \<Rightarrow> Timestamp \<Rightarrow> JobSummary \<Rightarrow> OpDb \<Rightarrow> StoreError + OpDb" where
  "insert_summary env now s db =
     (case js_run_id s of None \<Rightarrow> Inl unidentified_summary | Some run_id \<Rightarrow>
     (case js_attempt s of None \<Rightarrow> Inl unidentified_summary | Some attempt \<Rightarrow>
      if i64_max < uint run_id then Inl summary_out_of_range
      else
        let new =
          \<lparr>j_repository = full_name (js_repository s), j_workflow = js_workflow s,
           j_job_name = js_job_name s, j_run_id = Some (uint run_id), j_attempt = Some (uint attempt),
           j_head_ref = js_head_ref s, j_head_sha = js_head_sha s,
           j_trigger_event = map_option TriggerEvent_as_str (js_trigger_event s),
           j_queued_at = map_option (rfc3339 env) (js_queued_at s),
           j_acquired_at = map_option (rfc3339 env) (js_acquired_at s),
           j_slot_name = js_slot_name s, j_runner_name = js_runner_name s,
           j_trust_scope = js_trust_scope s, j_trust_class = js_trust_class s,
           j_resource_policy = js_resource_policy s, j_phase = JobPhase_as_str (js_phase s),
           j_conclusion = map_option JobConclusion_as_str (js_conclusion s),
           j_infrastructure_category =
             map_option InfrastructureCategory_as_str (js_infrastructure_category s),
           j_execution_backend = map_option ExecutionBackendKind_as_str (js_execution_backend s),
           j_updated_at = rfc3339 env now\<rparr>
        in Inr (upsert_job (js_instance_slug s, js_job_uid s) new
             (\<lambda>old. new\<lparr>j_run_id := j_run_id old, j_attempt := j_attempt old,
                        j_queued_at := coalesce (j_queued_at old) (j_queued_at new),
                        j_acquired_at := coalesce (j_acquired_at old) (j_acquired_at new),
                        j_slot_name := coalesce (j_slot_name new) (j_slot_name old),
                        j_phase := j_phase old, j_conclusion := j_conclusion old,
                        j_infrastructure_category := j_infrastructure_category old,
                        j_execution_backend :=
                          coalesce (j_execution_backend new) (j_execution_backend old)\<rparr>) db)))"

definition persist_summary :: "StoreEnv \<Rightarrow> JobSummary \<Rightarrow> Store \<Rightarrow> (StoreError + unit) \<times> Store" where
  "persist_summary env s S =
     run_store (commit_of (plain (try_sum (insert_summary env (clock env 0) s (store_db S))
       (\<lambda>db. Inr ((), db))))) S"

section \<open>Transitions\<close>

definition project_job_state :: "string \<Rightarrow> StoreError + JobState" where
  "project_job_state phase =
     (case JobState_try_from phase of
        Some s \<Rightarrow> Inr s
      | None \<Rightarrow> Inl (StoreError_new ExOperation ''store.job.state.unknown''))"

definition project_job_transition :: "JobState \<Rightarrow> EventReason \<Rightarrow> IllegalJobEdge + JobState" where
  "project_job_transition from reason =
     (case transition_target from reason of
        Some t \<Rightarrow> Inr t
      | None \<Rightarrow> Inl \<lparr>ie_from = from, ie_reason = reason\<rparr>)"

definition transition_token_exists :: "OpDb \<Rightarrow> string \<Rightarrow> string \<Rightarrow> string \<Rightarrow> bool" where
  "transition_token_exists db inst uid token =
     list_ex (\<lambda>(_, t). t_instance_slug t = inst \<and> t_job_uid t = uid \<and> t_transition_token t = token)
       (job_transitions db)"

definition insert_transition ::
    "StoreEnv \<Rightarrow> string \<Rightarrow> string \<Rightarrow> Transition \<Rightarrow> OpDb \<Rightarrow> OpDb" where
  "insert_transition env inst uid tr db =
     db\<lparr>job_transitions := tbl_insert (transition_seq db + 1)
          \<lparr>t_instance_slug = inst, t_job_uid = uid, t_transition_token = tr_token tr,
           t_correlation_id = tr_correlation_id tr, t_reason = EventReason_as_str (tr_reason tr),
           t_message = tr_message tr, t_transition_time = rfc3339 env (tr_transition_time tr)\<rparr>
          (job_transitions db),
        transition_seq := transition_seq db + 1, transition_rows := transition_rows db + 1\<rparr>"

definition move_job ::
    "StoreEnv \<Rightarrow> string \<Rightarrow> string \<Rightarrow> Transition \<Rightarrow> JobState \<Rightarrow> OpDb \<Rightarrow> OpDb" where
  "move_job env inst uid tr target db =
     db\<lparr>jobs := tbl_update (inst, uid) (\<lambda>_. True)
          (\<lambda>j. j\<lparr>j_phase := JobState_as_str target, j_conclusion := tr_conclusion tr,
                 j_infrastructure_category := tr_infrastructure_category tr,
                 j_updated_at := rfc3339 env (tr_transition_time tr)\<rparr>) (jobs db)\<rparr>"

definition transition_event :: "string \<Rightarrow> string \<Rightarrow> Transition \<Rightarrow> EventRow" where
  "transition_event inst uid tr =
     \<lparr>ev_instance_slug = inst,
      ev_event_kind = ''job.transition.'' @ EventReason_as_str (tr_reason tr),
      ev_subject = uid, ev_correlation_id = Some (tr_correlation_id tr),
      ev_occurred_at = tr_transition_time tr, ev_detail = tr_message tr\<rparr>"

definition record_job_transition_in_transaction ::
    "StoreEnv \<Rightarrow> Timestamp \<Rightarrow> string \<Rightarrow> string \<Rightarrow> Transition \<Rightarrow> OpDb \<Rightarrow> (bool \<times> OpDb) store_result" where
  "record_job_transition_in_transaction env now inst uid tr db =
     (case map_of (jobs db) (inst, uid) of
        None \<Rightarrow> fail ExUnavailable ''store.job.missing''
      | Some j \<Rightarrow>
          if transition_token_exists db inst uid (tr_token tr) then Inr (False, db)
          else
            let db1 = insert_transition env inst uid tr db
            in try_sum (plain (project_job_state (j_phase j))) (\<lambda>from.
               case project_job_transition from (tr_reason tr) of
                 Inl edge \<Rightarrow> refuse_edge ExConflict ''store.job.transition.illegal''
               | Inr target \<Rightarrow>
                   if tbl_matches (inst, uid) (\<lambda>_. True) (jobs db1) = 0
                   then fail ExUnavailable ''store.job.missing''
                   else
                     try_sum (plain (append_event_with_ancestry env now (transition_event inst uid tr)
                         (Some (transition_seq db1)) None (move_job env inst uid tr target db1)))
                       (\<lambda>(_, db3).
                          if is_terminal target
                          then try_sum (plain (delete_job_storage_reservation inst uid db3))
                                 (\<lambda>(_, db4). Inr (True, db4))
                          else Inr (True, db3))))"

definition record_job_transition ::
    "StoreEnv \<Rightarrow> string \<Rightarrow> string \<Rightarrow> Transition \<Rightarrow> Store \<Rightarrow> (StoreError + bool) \<times> Store" where
  "record_job_transition env inst uid tr S =
     run_store (commit_of
       (record_job_transition_in_transaction env (clock env 0) inst uid tr (store_db S))) S"

definition persist_summary_and_transition ::
    "StoreEnv \<Rightarrow> JobSummary \<Rightarrow> string \<Rightarrow> string \<Rightarrow> Transition \<Rightarrow> Store \<Rightarrow> (StoreError + unit) \<times> Store" where
  "persist_summary_and_transition env s inst uid tr S =
     (if js_instance_slug s \<noteq> inst \<or> js_job_uid s \<noteq> uid
      then (Inl (StoreError_new ExConflict ''store.job.identity.mismatch''), S)
      else
        let db = store_db S
        in run_store
             (if transition_token_exists db inst uid (tr_token tr) then Commit () db
              else commit_of
                (try_sum (plain (insert_summary env (clock env 0) s db)) (\<lambda>db1.
                 try_sum (plain (ensure_job_storage_reservation env (clock env 1) inst uid db1)) (\<lambda>db2.
                 try_sum (record_job_transition_in_transaction env (clock env 2) inst uid tr db2)
                   (\<lambda>(_, db3). Inr ((), db3)))))) S)"

section \<open>The admission budget\<close>

record RetentionMaintenanceBudget =
  max_database_bytes :: u64
  min_free_bytes :: u64
  max_checkpoint_attempts :: u8
  max_vacuum_pages :: u64

datatype PhysicalBudgetStatus =
  Disabled | WithinBudget | Exceeded | ReserveViolation | Deferred | Unmeasurable | Unconfigured

definition admits_job :: "PhysicalBudgetStatus \<Rightarrow> bool" where
  "admits_job s \<longleftrightarrow> s \<in> {Disabled, WithinBudget}"

definition evaluate_admission_physical_budget ::
    "u64 \<Rightarrow> u64 option \<Rightarrow> RetentionMaintenanceBudget \<Rightarrow> PhysicalBudgetStatus" where
  "evaluate_admission_physical_budget total_bytes free budget =
     (case free of
        None \<Rightarrow> Unmeasurable
      | Some f \<Rightarrow>
          if f < min_free_bytes budget then ReserveViolation
          else if max_database_bytes budget = 0 then Disabled
          else if max_database_bytes budget < total_bytes then Exceeded
          else WithinBudget)"

definition checked_add_u64 :: "u64 \<Rightarrow> u64 \<Rightarrow> u64 option" where
  "checked_add_u64 a b = (if uint a + uint b < 2 ^ 64 then Some (a + b) else None)"

definition physical_budget_status_with_reservation ::
    "StoreEnv \<Rightarrow> RetentionMaintenanceBudget \<Rightarrow> u64 \<Rightarrow> OpDb \<Rightarrow> StoreError + PhysicalBudgetStatus" where
  "physical_budget_status_with_reservation env budget additional db =
     (let overflow = StoreError_new ExOperation ''store.admission.reservation.overflow''
      in try_sum (database_bytes env) (\<lambda>(database, wal).
         try_sum (storage_reservation_bytes db) (\<lambda>reserved.
         case checked_add_u64 reserved additional of None \<Rightarrow> Inl overflow | Some claimed \<Rightarrow>
         (case Option.bind (checked_add_u64 database wal) (\<lambda>b. checked_add_u64 b claimed) of
            None \<Rightarrow> Inl overflow
          | Some projected \<Rightarrow>
              (case checked_add_u64 (min_free_bytes budget) claimed of
                 None \<Rightarrow> Inl overflow
               | Some free \<Rightarrow>
                   Inr (evaluate_admission_physical_budget projected (free_bytes env)
                          (budget\<lparr>min_free_bytes := free\<rparr>)))))))"

definition persist_summary_and_transition_with_budget ::
    "StoreEnv \<Rightarrow> JobSummary \<Rightarrow> string \<Rightarrow> string \<Rightarrow> Transition \<Rightarrow> RetentionMaintenanceBudget \<Rightarrow> Store
      \<Rightarrow> (StoreError + PhysicalBudgetStatus) \<times> Store" where
  "persist_summary_and_transition_with_budget env s inst uid tr budget S =
     (if js_instance_slug s \<noteq> inst \<or> js_job_uid s \<noteq> uid
      then (Inl (StoreError_new ExConflict ''store.job.identity.mismatch''), S)
      else
        let db = store_db S;
            replay = transition_token_exists db inst uid (tr_token tr)
        in run_store
          (case try_sum (if replay then Inr 0 else admission_reservation_bytes inst uid db)
                  (\<lambda>additional. try_sum (physical_budget_status_with_reservation env budget additional db)
                     (\<lambda>status. Inr (additional, status))) of
             Inl e \<Rightarrow> Abort (e, False)
           | Inr (additional, status) \<Rightarrow>
               if \<not> admits_job status then Rollback status
               else commit_of
                 (try_sum (plain (if replay then Inr db else insert_summary env (clock env 0) s db)) (\<lambda>db1.
                  try_sum (plain (if additional \<noteq> 0
                             then insert_job_storage_reservation env (clock env 1) inst uid db1
                             else Inr db1)) (\<lambda>db2.
                  try_sum (record_job_transition_in_transaction env (clock env 2) inst uid tr db2)
                    (\<lambda>(_, db3). Inr (status, db3)))))) S)"

section \<open>Reading jobs back\<close>

definition summary_phase :: "string \<Rightarrow> StoreError + JobPhase" where
  "summary_phase raw =
     (case JobPhase_try_from raw of
        Inr p \<Rightarrow> Inr p
      | Inl _ \<Rightarrow>
          (case project_job_state raw of
             Inl _ \<Rightarrow> Inl summary_decode
           | Inr s \<Rightarrow> Inr (case s of
                 Queued \<Rightarrow> PQueued
               | Acquired \<Rightarrow> PRunning | Waiting \<Rightarrow> PRunning | Started \<Rightarrow> PRunning
               | Completed \<Rightarrow> PCompleted | Canceled \<Rightarrow> PCanceled | Rejected \<Rightarrow> PRejected)))"

definition optional_enum :: "(string \<Rightarrow> InvalidJobSummaryField + 'a) \<Rightarrow> string option \<Rightarrow> StoreError + 'a option" where
  "optional_enum parse raw =
     transpose_map (\<lambda>v. case parse v of Inl _ \<Rightarrow> Inl summary_decode | Inr a \<Rightarrow> Inr a) raw"

definition optional_timestamp :: "StoreEnv \<Rightarrow> string option \<Rightarrow> StoreError + Timestamp option" where
  "optional_timestamp env raw =
     transpose_map (\<lambda>v. case parse_rfc3339 env v of None \<Rightarrow> Inl summary_decode | Some t \<Rightarrow> Inr t) raw"

definition decode_summary_row :: "StoreEnv \<Rightarrow> string \<times> string \<Rightarrow> JobDbRow \<Rightarrow> StoreError + JobSummary" where
  "decode_summary_row env key j =
     (case rsplit_once (CHR ''/'') (j_repository j) of None \<Rightarrow> Inl summary_decode | Some (owner, name) \<Rightarrow>
      try_sum (summary_phase (j_phase j)) (\<lambda>phase.
      case j_run_id j of None \<Rightarrow> Inl sqlite_failed | Some run_id \<Rightarrow>
      (case j_attempt j of None \<Rightarrow> Inl sqlite_failed | Some attempt \<Rightarrow>
      (case u64_try_from_i64 run_id of None \<Rightarrow> Inl summary_decode | Some run \<Rightarrow>
      (case u32_try_from_i64 attempt of None \<Rightarrow> Inl summary_decode | Some att \<Rightarrow>
      try_sum (optional_enum TriggerEvent_try_from (j_trigger_event j)) (\<lambda>trigger.
      try_sum (optional_timestamp env (j_queued_at j)) (\<lambda>queued.
      try_sum (optional_timestamp env (j_acquired_at j)) (\<lambda>acquired.
      try_sum (optional_enum JobConclusion_try_from (j_conclusion j)) (\<lambda>conclusion.
      try_sum (optional_enum InfrastructureCategory_try_from (j_infrastructure_category j)) (\<lambda>infra.
      case from_normalized
         \<lparr>nj_instance_slug = fst key, nj_job_uid = snd key,
          nj_repository = \<lparr>repo_owner = owner, repo_name = name\<rparr>,
          nj_workflow = j_workflow j, nj_job_name = j_job_name j,
          nj_run_id = Some run, nj_attempt = Some att, nj_head_ref = j_head_ref j,
          nj_head_sha = j_head_sha j, nj_trigger_event = trigger, nj_queued_at = queued,
          nj_acquired_at = acquired, nj_slot_name = j_slot_name j, nj_runner_name = j_runner_name j,
          nj_execution_backend = j_execution_backend j, nj_trust_scope = j_trust_scope j,
          nj_trust_class = j_trust_class j, nj_resource_policy = j_resource_policy j,
          nj_phase = phase, nj_conclusion = conclusion,
          nj_infrastructure_category = infra\<rparr> of
        Inl _ \<Rightarrow> Inl summary_decode
      | Inr s \<Rightarrow> Inr s))))))))))"

definition fetch_summary_by_job_uid ::
    "StoreEnv \<Rightarrow> string \<Rightarrow> string \<Rightarrow> OpDb \<Rightarrow> StoreError + JobSummary option" where
  "fetch_summary_by_job_uid env inst uid db =
     (case map_of (jobs db) (inst, uid) of
        None \<Rightarrow> Inr None
      | Some j \<Rightarrow> try_sum (decode_summary_row env (inst, uid) j) (\<lambda>s. Inr (Some s)))"

definition fetch_summary ::
    "StoreEnv \<Rightarrow> string \<Rightarrow> u64 \<Rightarrow> u32 \<Rightarrow> OpDb \<Rightarrow> StoreError + JobSummary option" where
  "fetch_summary env inst run_id attempt db =
     (if i64_max < uint run_id then Inl summary_out_of_range
      else case filter (\<lambda>(k, j). fst k = inst \<and> j_run_id j = Some (uint run_id)
                 \<and> j_attempt j = Some (uint attempt)) (jobs db) of
          [] \<Rightarrow> Inr None
        | (k, j) # others \<Rightarrow>
            try_sum (decode_summary_row env k j) (\<lambda>s.
              if others \<noteq> [] then Inl (StoreError_new ExConflict ''store.job.summary.ambiguous'')
              else Inr (Some s)))"

definition job_summaries :: "string \<Rightarrow> OpDb \<Rightarrow> ((string \<times> string) \<times> JobDbRow) list" where
  "job_summaries inst db = rev (filter (\<lambda>(k, j). fst k = inst) (jobs db))"

definition transition_count :: "string \<Rightarrow> string \<Rightarrow> OpDb \<Rightarrow> StoreError + u32" where
  "transition_count inst uid db =
     (let n = int (length (filter (\<lambda>(_, t). t_instance_slug t = inst \<and> t_job_uid t = uid) (job_transitions db)))
      in case u32_try_from_i64 n of None \<Rightarrow> Inl sqlite_failed | Some c \<Rightarrow> Inr c)"

definition event_count :: "string \<Rightarrow> string \<Rightarrow> OpDb \<Rightarrow> StoreError + u32" where
  "event_count inst subject db =
     (let n = int (length (filter (\<lambda>(_, e). e_instance_slug e = inst \<and> e_subject e = subject) (events db)))
      in case u32_try_from_i64 n of None \<Rightarrow> Inl sqlite_failed | Some c \<Rightarrow> Inr c)"

section \<open>Reconciliation passes\<close>

definition start_reconciliation ::
    "StoreEnv \<Rightarrow> string \<Rightarrow> string \<Rightarrow> string \<Rightarrow> Timestamp \<Rightarrow> Store \<Rightarrow> (StoreError + int) \<times> Store" where
  "start_reconciliation env inst kind subject started_at S =
     (let db = store_db S;
          rid = reconciliation_seq db + 1
      in (Inr rid, S\<lparr>store_db := db\<lparr>reconciliations := tbl_insert rid
             \<lparr>c_instance_slug = inst, c_kind = kind, c_subject = subject, c_status = ''running'',
              c_started_at = rfc3339 env started_at, c_finished_at = None, c_detail = None\<rparr>
             (reconciliations db), reconciliation_seq := rid\<rparr>\<rparr>))"

definition finish_reconciliation ::
    "StoreEnv \<Rightarrow> string \<Rightarrow> int \<Rightarrow> string \<Rightarrow> Timestamp \<Rightarrow> string option \<Rightarrow> Store \<Rightarrow> (StoreError + unit) \<times> Store" where
  "finish_reconciliation env inst rid status finished_at detail S =
     (let db = store_db S;
          p = (\<lambda>c. c_instance_slug c = inst)
      in if tbl_matches rid p (reconciliations db) = 0
         then (Inl (StoreError_new ExUnavailable ''store.reconciliation.missing''), S)
         else (Inr (), S\<lparr>store_db := db\<lparr>reconciliations := tbl_update rid p
                (\<lambda>c. c\<lparr>c_status := status, c_finished_at := Some (rfc3339 env finished_at),
                       c_detail := detail\<rparr>) (reconciliations db)\<rparr>\<rparr>))"

end
