(* ===== verification/Store_Slots.thy ===== *)
theory Store_Slots
  imports Op_Store
begin

text \<open>
  Slots and runner registrations in the operational store: the durable slot projection with its
  generation fence and sequence, the request ledger that allocates sequences, and the registration
  rows.
\<close>

section \<open>Inputs and projections\<close>

type_synonym Generation = u64

record SlotIdentity =
  si_instance_slug :: string
  si_slot_id :: string
  si_host :: string
  si_slot_index :: u32
  si_slot_kind :: SlotKind

record SlotTransition =
  sl_token :: string
  sl_correlation_id :: string
  sl_generation :: Generation
  sl_sequence :: u64
  sl_target :: SlotPhase
  sl_job_name :: "string option"
  sl_message :: "string option"
  sl_transition_time :: Timestamp

record SlotTransitionRequest =
  rq_request_key :: string
  rq_generation :: Generation
  rq_target :: SlotPhase
  rq_job_name :: "string option"
  rq_message :: "string option"
  rq_transition_time :: Timestamp

record SlotRow =
  sr_identity :: SlotIdentity
  sr_phase :: SlotPhase
  sr_generation :: Generation
  sr_transition_sequence :: u64
  sr_job_name :: "string option"
  sr_updated_at :: Timestamp

record IllegalSlotEdge =
  is_from :: SlotPhase
  is_target :: SlotPhase

definition SLOT_TRANSITION_REQUEST_CAP :: nat where
  "SLOT_TRANSITION_REQUEST_CAP = 64"

definition project_slot_phase :: "SlotRow \<Rightarrow> SlotPhase" where
  "project_slot_phase row = sr_phase row"

definition project_slot_transition :: "SlotPhase \<Rightarrow> SlotPhase \<Rightarrow> IllegalSlotEdge + SlotPhase" where
  "project_slot_transition from target =
     (if slot_transition_allowed from target then Inr target
      else Inl \<lparr>is_from = from, is_target = target\<rparr>)"

definition query_slot_state ::
    "StoreEnv \<Rightarrow> string \<Rightarrow> string \<Rightarrow> OpDb \<Rightarrow> StoreError + SlotRow option" where
  "query_slot_state env inst slot_id db =
     (case map_of (slots db) (inst, slot_id) of
        None \<Rightarrow> Inr None
      | Some s \<Rightarrow>
          (case SlotKind_try_from (s_slot_kind s) of
             None \<Rightarrow> Inl (StoreError_new ExOperation ''store.slot.kind.unknown'')
           | Some kind \<Rightarrow>
          (case SlotPhase_try_from (s_phase s) of
             None \<Rightarrow> Inl (StoreError_new ExOperation ''store.slot.state.unknown'')
           | Some phase \<Rightarrow>
          (case u32_try_from_i64 (s_slot_index s) of
             None \<Rightarrow> Inl (StoreError_new ExOperation ''store.slot.index.range'')
           | Some index \<Rightarrow>
          (case u64_try_from_i64 (s_generation s) of
             None \<Rightarrow> Inl (StoreError_new ExOperation ''store.slot.generation.range'')
           | Some gen \<Rightarrow>
          (case u64_try_from_i64 (s_transition_sequence s) of
             None \<Rightarrow> Inl (StoreError_new ExOperation ''store.slot.sequence.range'')
           | Some seqno \<Rightarrow>
          (case parse_rfc3339 env (s_updated_at s) of
             None \<Rightarrow> Inl (StoreError_new ExOperation ''store.slot.timestamp.invalid'')
           | Some at \<Rightarrow>
               Inr (Some \<lparr>sr_identity = \<lparr>si_instance_slug = inst, si_slot_id = slot_id,
                             si_host = s_host s, si_slot_index = index, si_slot_kind = kind\<rparr>,
                          sr_phase = phase, sr_generation = gen, sr_transition_sequence = seqno,
                          sr_job_name = s_job_name s, sr_updated_at = at\<rparr>))))))))"

section \<open>Validation\<close>

definition validate_slot_identity :: "SlotIdentity \<Rightarrow> StoreError + unit" where
  "validate_slot_identity i =
     (if list_ex (\<lambda>v. \<not> slug_ok v) [si_instance_slug i, si_slot_id i, si_host i]
      then Inl (StoreError_new ExUsage ''store.slot.identity.invalid'') else Inr ())"

definition validate_slot_job :: "string option \<Rightarrow> StoreError + unit" where
  "validate_slot_job name =
     (case name of
        None \<Rightarrow> Inr ()
      | Some n \<Rightarrow> if slug_ok n then Inr () else Inl (StoreError_new ExUsage ''store.slot.job.invalid''))"

definition validate_slot_transition_request :: "SlotIdentity \<Rightarrow> SlotTransitionRequest \<Rightarrow> StoreError + unit" where
  "validate_slot_transition_request i r =
     try_sum (validate_slot_identity i) (\<lambda>_.
     if \<not> slug_ok (rq_request_key r)
     then Inl (StoreError_new ExUsage ''store.slot.transition.request_key.invalid'')
     else if rq_generation r < 1 then Inl (StoreError_new ExUsage ''store.slot.generation.invalid'')
     else validate_slot_job (rq_job_name r))"

definition validate_slot_transition :: "SlotIdentity \<Rightarrow> SlotTransition \<Rightarrow> StoreError + unit" where
  "validate_slot_transition i t =
     try_sum (validate_slot_identity i) (\<lambda>_.
     if \<not> slug_ok (sl_token t) then Inl (StoreError_new ExUsage ''store.slot.identity.invalid'')
     else if sl_generation t < 1 then Inl (StoreError_new ExUsage ''store.slot.generation.invalid'')
     else if sl_sequence t = 0 then Inl (StoreError_new ExUsage ''store.slot.sequence.invalid'')
     else if sl_correlation_id t \<noteq> ''corr-'' @ sl_token t
     then Inl (StoreError_new ExConflict ''store.slot.transition.correlation'')
     else validate_slot_job (sl_job_name t))"

definition slot_transition_detail :: "SlotTransition \<Rightarrow> string" where
  "slot_transition_detail t =
     (case sl_message t of
        None \<Rightarrow> ''phase='' @ SlotPhase_as_str (sl_target t)
      | Some m \<Rightarrow> ''phase='' @ SlotPhase_as_str (sl_target t) @ ''; '' @ m)"

section \<open>Transitions\<close>

definition identity_mismatch :: "SlotIdentity \<Rightarrow> SlotRow \<Rightarrow> bool" where
  "identity_mismatch i current \<longleftrightarrow>
     si_host (sr_identity current) \<noteq> si_host i \<or> si_slot_index (sr_identity current) \<noteq> si_slot_index i
     \<or> si_slot_kind (sr_identity current) \<noteq> si_slot_kind i"

definition new_slot_row :: "StoreEnv \<Rightarrow> SlotIdentity \<Rightarrow> SlotTransition \<Rightarrow> SlotDbRow" where
  "new_slot_row env i t =
     \<lparr>s_host = si_host i, s_slot_index = uint (si_slot_index i),
      s_slot_kind = SlotKind_as_str (si_slot_kind i), s_phase = SlotPhase_as_str (sl_target t),
      s_job_name = sl_job_name t, s_updated_at = rfc3339 env (sl_transition_time t),
      s_generation = uint (sl_generation t), s_transition_sequence = uint (sl_sequence t),
      s_last_transition_token = Some (sl_token t), s_last_correlation_id = Some (sl_correlation_id t),
      s_last_transition_detail = Some (slot_transition_detail t)\<rparr>"

text \<open>The insert of the winning transition and its event.\<close>

definition apply_slot_transition ::
    "StoreEnv \<Rightarrow> Timestamp \<Rightarrow> SlotIdentity \<Rightarrow> SlotTransition \<Rightarrow> OpDb \<Rightarrow> StoreError + OpDb" where
  "apply_slot_transition env now i t db =
     (let new = new_slot_row env i t
      in try_sum (append_event_in_transaction env now
           \<lparr>ev_instance_slug = si_instance_slug i, ev_event_kind = EventReason_as_str SlotStateChanged,
            ev_subject = si_slot_id i, ev_correlation_id = Some (sl_correlation_id t),
            ev_occurred_at = sl_transition_time t, ev_detail = Some (slot_transition_detail t)\<rparr>
           (db\<lparr>slots := tbl_upsert (si_instance_slug i, si_slot_id i) new
               (\<lambda>old. new\<lparr>s_host := s_host old, s_slot_index := s_slot_index old,
                          s_slot_kind := s_slot_kind old\<rparr>) (slots db)\<rparr>))
         (\<lambda>(_, db1). Inr db1))"

text \<open>What the current row says about a transition: a replay (\<open>Some\<close>), an error, or go ahead.\<close>

definition judge_slot_transition ::
    "SlotIdentity \<Rightarrow> SlotTransition \<Rightarrow> SlotRow \<Rightarrow> SlotDbRow \<Rightarrow> (bool option) store_result" where
  "judge_slot_transition i t current raw =
     (if identity_mismatch i current then fail ExConflict ''store.slot.identity.mismatch''
      else if sl_generation t < sr_generation current then fail ExConflict ''store.slot.generation.stale''
      else if sl_generation t = sr_generation current then
        if sl_sequence t < sr_transition_sequence current then Inr (Some False)
        else if sl_sequence t = sr_transition_sequence current then
          if project_slot_phase current = sl_target t \<and> sr_job_name current = sl_job_name t
             \<and> s_last_transition_token raw = Some (sl_token t)
             \<and> s_last_correlation_id raw = Some (sl_correlation_id t)
             \<and> s_last_transition_detail raw = Some (slot_transition_detail t)
          then Inr (Some False)
          else fail ExConflict ''store.slot.transition.idempotency_conflict''
        else (case project_slot_transition (sr_phase current) (sl_target t) of
                Inl edge \<Rightarrow> refuse_edge ExConflict ''store.slot.transition.illegal''
              | Inr _ \<Rightarrow> Inr None)
      else Inr None)"

definition record_slot_transition_in_transaction ::
    "StoreEnv \<Rightarrow> Timestamp \<Rightarrow> SlotIdentity \<Rightarrow> SlotTransition \<Rightarrow> OpDb \<Rightarrow> (bool \<times> OpDb) store_result" where
  "record_slot_transition_in_transaction env now i t db =
     try_sum (plain (validate_slot_transition i t)) (\<lambda>_.
     if i64_max < uint (sl_generation t) then fail ExUsage ''store.slot.generation.range''
     else if i64_max < uint (sl_sequence t) then fail ExUsage ''store.slot.sequence.range''
     else
       try_sum (plain (query_slot_state env (si_instance_slug i) (si_slot_id i) db)) (\<lambda>current.
       try_sum (case current of
                  None \<Rightarrow> Inr None
                | Some c \<Rightarrow>
                    (case map_of (slots db) (si_instance_slug i, si_slot_id i) of
                       None \<Rightarrow> fail ExUnavailable ''store.row.missing''
                     | Some raw \<Rightarrow> judge_slot_transition i t c raw)) (\<lambda>verdict.
       case verdict of
         Some committed \<Rightarrow> Inr (committed, db)
       | None \<Rightarrow> try_sum (plain (apply_slot_transition env now i t db)) (\<lambda>db1. Inr (True, db1)))))"

definition record_slot_transition ::
    "StoreEnv \<Rightarrow> SlotIdentity \<Rightarrow> SlotTransition \<Rightarrow> Store \<Rightarrow> (StoreError + bool) \<times> Store" where
  "record_slot_transition env i t S =
     run_store (commit_of (record_slot_transition_in_transaction env (clock env 0) i t (store_db S))) S"

section \<open>The request ledger\<close>

definition request_order :: "SlotRequestDbRow \<times> string \<Rightarrow> int \<times> int \<times> string" where
  "request_order rk = (case rk of (r, key) \<Rightarrow> (r_generation r, r_allocated_sequence r, key))"

text \<open>The rows of one slot beyond the newest \<open>SLOT_TRANSITION_REQUEST_CAP\<close>.\<close>

definition expired_requests :: "string \<Rightarrow> string \<Rightarrow> OpDb \<Rightarrow> (string \<times> string \<times> string) list" where
  "expired_requests inst slot_id db =
     drop SLOT_TRANSITION_REQUEST_CAP
       (map fst (rev (sort_key (\<lambda>(k, r). request_order (r, snd (snd k)))
          (filter (\<lambda>(k, r). fst k = inst \<and> fst (snd k) = slot_id) (slot_transition_requests db)))))"

definition prune_slot_transition_requests :: "SlotIdentity \<Rightarrow> OpDb \<Rightarrow> OpDb" where
  "prune_slot_transition_requests i db =
     (let expired = expired_requests (si_instance_slug i) (si_slot_id i) db
      in db\<lparr>slot_transition_requests :=
              filter (\<lambda>(k, r). k \<notin> set expired) (slot_transition_requests db)\<rparr>)"

definition next_sequence_of :: "SlotRow option \<Rightarrow> Generation \<Rightarrow> u64 store_result" where
  "next_sequence_of current gen =
     (case current of
        Some c \<Rightarrow>
          if sr_generation c = gen then
            if sr_transition_sequence c = - 1 then fail ExOperation ''store.slot.sequence.exhausted''
            else Inr (sr_transition_sequence c + 1)
          else Inr 1
      | None \<Rightarrow> Inr 1)"

definition allocated_transition :: "SlotTransitionRequest \<Rightarrow> u64 \<Rightarrow> SlotTransition" where
  "allocated_transition r seqno =
     (let token = ''slot-g'' @ decimal (unat (rq_generation r)) @ ''-s'' @ decimal (unat seqno) @ ''-''
                    @ SlotPhase_as_str (rq_target r)
      in \<lparr>sl_token = token, sl_correlation_id = ''corr-'' @ token, sl_generation = rq_generation r,
          sl_sequence = seqno, sl_target = rq_target r, sl_job_name = rq_job_name r,
          sl_message = rq_message r, sl_transition_time = rq_transition_time r\<rparr>)"

definition insert_slot_request ::
    "SlotIdentity \<Rightarrow> SlotTransitionRequest \<Rightarrow> SlotTransition \<Rightarrow> OpDb \<Rightarrow> OpDb" where
  "insert_slot_request i r t db =
     db\<lparr>slot_transition_requests := tbl_insert (si_instance_slug i, si_slot_id i, rq_request_key r)
          \<lparr>r_generation = uint (rq_generation r), r_target = SlotPhase_as_str (rq_target r),
           r_job_name = sl_job_name t, r_message = sl_message t,
           r_allocated_sequence = uint (sl_sequence t), r_allocated_token = sl_token t,
           r_allocated_correlation_id = sl_correlation_id t,
           r_allocated_detail = slot_transition_detail t\<rparr> (slot_transition_requests db)\<rparr>"

definition record_next_in_transaction ::
    "StoreEnv \<Rightarrow> SlotIdentity \<Rightarrow> SlotTransitionRequest \<Rightarrow> OpDb \<Rightarrow> (bool \<times> OpDb) store_result" where
  "record_next_in_transaction env i r db =
     try_sum (plain (query_slot_state env (si_instance_slug i) (si_slot_id i) db)) (\<lambda>current.
     if (case current of None \<Rightarrow> False | Some c \<Rightarrow> identity_mismatch i c)
     then fail ExConflict ''store.slot.identity.mismatch''
     else case map_of (slot_transition_requests db) (si_instance_slug i, si_slot_id i, rq_request_key r) of
         Some old \<Rightarrow>
           if r_generation old = uint (rq_generation r) \<and> r_target old = SlotPhase_as_str (rq_target r)
              \<and> r_job_name old = rq_job_name r \<and> r_message old = rq_message r
           then Inr (False, db)
           else fail ExConflict ''store.slot.transition.idempotency_conflict''
       | None \<Rightarrow>
           if (case current of None \<Rightarrow> False | Some c \<Rightarrow> rq_generation r < sr_generation c)
           then fail ExConflict ''store.slot.generation.stale''
           else try_sum (next_sequence_of current (rq_generation r)) (\<lambda>seqno.
             let t = allocated_transition r seqno
             in if \<not> slug_ok (sl_correlation_id t)
                then fail ExUsage ''store.slot.transition.token.invalid''
                else if i64_max < uint seqno then fail ExUsage ''store.slot.sequence.range''
                else try_sum (record_slot_transition_in_transaction env (clock env 0) i t
                               (insert_slot_request i r t db))
                  (\<lambda>(committed, db1).
                     Inr (committed, if committed then prune_slot_transition_requests i db1 else db1))))"

definition record_next_slot_transition ::
    "StoreEnv \<Rightarrow> SlotIdentity \<Rightarrow> SlotTransitionRequest \<Rightarrow> Store \<Rightarrow> (StoreError + bool) \<times> Store" where
  "record_next_slot_transition env i r S =
     (case validate_slot_transition_request i r of
        Inl e \<Rightarrow> (Inl e, S)
      | Inr _ \<Rightarrow>
          if i64_max < uint (rq_generation r)
          then (Inl (StoreError_new ExUsage ''store.slot.generation.range''), S)
          else run_store (commit_of (record_next_in_transaction env i r (store_db S))) S)"

definition slot :: "StoreEnv \<Rightarrow> string \<Rightarrow> string \<Rightarrow> OpDb \<Rightarrow> StoreError + SlotRow option" where
  "slot env inst slot_id db = query_slot_state env inst slot_id db"

definition slot_rows :: "StoreEnv \<Rightarrow> string \<Rightarrow> OpDb \<Rightarrow> StoreError + SlotRow list" where
  "slot_rows env inst db =
     collect_rows (\<lambda>slot_name.
        try_sum (query_slot_state env inst slot_name db) (\<lambda>row.
          case row of
            None \<Rightarrow> Inl (StoreError_new ExOperation ''store.slot.disappeared'')
          | Some s \<Rightarrow> Inr s))
       (sort (map (snd \<circ> fst) (filter (\<lambda>(k, _). fst k = inst) (slots db))))"

end
