(* ===== verification/Store_Lifecycle.thy ===== *)
theory Store_Lifecycle
  imports Op_Store
begin

text \<open>
  Instances, runner registrations and lifecycle intents in the operational store: the desired and
  observed state of an instance with its resource version, and the idempotency ledger of lifecycle
  operations with its quota.
\<close>

section \<open>Instances and registrations\<close>

record InstanceRow =
  in_instance_slug :: string
  in_host :: string
  in_daemon_version :: string
  in_slots_configured :: u32
  in_slots_busy :: u32
  in_updated_at :: Timestamp

definition upsert_instance :: "StoreEnv \<Rightarrow> InstanceRow \<Rightarrow> Store \<Rightarrow> (StoreError + unit) \<times> Store" where
  "upsert_instance env row S =
     (let db = store_db S;
          new = \<lparr>i_host = in_host row, i_daemon_version = in_daemon_version row,
                 i_slots_configured = uint (in_slots_configured row),
                 i_slots_busy = uint (in_slots_busy row),
                 i_updated_at = rfc3339 env (in_updated_at row),
                 i_desired_state = ''ready'', i_observed_state = ''ready'',
                 i_resource_version = 1, i_desired_slots = None\<rparr>
      in (Inr (), S\<lparr>store_db := db\<lparr>instances := tbl_upsert (in_instance_slug row) new
             (\<lambda>old. old\<lparr>i_host := i_host new, i_daemon_version := i_daemon_version new,
                        i_slots_configured := i_slots_configured new,
                        i_slots_busy := i_slots_busy new, i_updated_at := i_updated_at new\<rparr>)
             (instances db)\<rparr>\<rparr>))"

definition instance_row :: "StoreEnv \<Rightarrow> string \<Rightarrow> OpDb \<Rightarrow> StoreError + InstanceRow option" where
  "instance_row env inst db =
     (case map_of (instances db) inst of
        None \<Rightarrow> Inr None
      | Some r \<Rightarrow>
          (case u32_try_from_i64 (i_slots_configured r) of
             None \<Rightarrow> Inl (StoreError_new ExOperation ''store.instance.slots.range'')
           | Some configured \<Rightarrow>
          (case u32_try_from_i64 (i_slots_busy r) of
             None \<Rightarrow> Inl (StoreError_new ExOperation ''store.instance.busy.range'')
           | Some busy \<Rightarrow>
          (case parse_rfc3339 env (i_updated_at r) of
             None \<Rightarrow> Inl (StoreError_new ExOperation ''store.instance.timestamp.invalid'')
           | Some at \<Rightarrow>
               Inr (Some \<lparr>in_instance_slug = inst, in_host = i_host r,
                          in_daemon_version = i_daemon_version r, in_slots_configured = configured,
                          in_slots_busy = busy, in_updated_at = at\<rparr>)))))"

record RunnerRegistrationRow =
  rr_instance_slug :: string
  rr_runner_id :: int
  rr_name :: string
  rr_ephemeral :: bool
  rr_online :: bool
  rr_labels_json :: string
  rr_registered_at :: Timestamp
  rr_updated_at :: Timestamp

definition upsert_runner_registration ::
    "StoreEnv \<Rightarrow> RunnerRegistrationRow \<Rightarrow> Store \<Rightarrow> (StoreError + unit) \<times> Store" where
  "upsert_runner_registration env row S =
     (let db = store_db S;
          new = \<lparr>g_name = rr_name row, g_ephemeral = of_bool (rr_ephemeral row),
                 g_online = of_bool (rr_online row), g_labels_json = rr_labels_json row,
                 g_registered_at = rfc3339 env (rr_registered_at row),
                 g_updated_at = rfc3339 env (rr_updated_at row)\<rparr>
      in (Inr (), S\<lparr>store_db := db\<lparr>runner_registrations :=
             tbl_upsert (rr_instance_slug row, rr_runner_id row) new
               (\<lambda>old. new\<lparr>g_registered_at := g_registered_at old\<rparr>) (runner_registrations db)\<rparr>\<rparr>))"

definition sqlite_bool :: "int \<Rightarrow> bool option" where
  "sqlite_bool n = (if n = 0 then Some False else if n = 1 then Some True else None)"

definition runner_registration_rows ::
    "StoreEnv \<Rightarrow> string \<Rightarrow> OpDb \<Rightarrow> StoreError + RunnerRegistrationRow list" where
  "runner_registration_rows env inst db =
     collect_rows (\<lambda>(k, g).
        case sqlite_bool (g_ephemeral g) of
          None \<Rightarrow> Inl (StoreError_new ExOperation ''store.runner.ephemeral.invalid'')
        | Some ephemeral \<Rightarrow>
        (case sqlite_bool (g_online g) of
           None \<Rightarrow> Inl (StoreError_new ExOperation ''store.runner.online.invalid'')
         | Some online \<Rightarrow>
        (case parse_rfc3339 env (g_registered_at g) of
           None \<Rightarrow> Inl (StoreError_new ExOperation ''store.runner.registered_at.invalid'')
         | Some registered \<Rightarrow>
        (case parse_rfc3339 env (g_updated_at g) of
           None \<Rightarrow> Inl (StoreError_new ExOperation ''store.runner.updated_at.invalid'')
         | Some updated \<Rightarrow>
             Inr \<lparr>rr_instance_slug = fst k, rr_runner_id = snd k, rr_name = g_name g,
                  rr_ephemeral = ephemeral, rr_online = online, rr_labels_json = g_labels_json g,
                  rr_registered_at = registered, rr_updated_at = updated\<rparr>))))
       (sort_key (snd \<circ> fst) (filter (\<lambda>(k, _). fst k = inst) (runner_registrations db)))"

section \<open>Lifecycle rows\<close>

record LifecycleInstanceRow =
  li_instance_slug :: string
  li_desired_state :: string
  li_observed_state :: string
  li_resource_version :: u64
  li_desired_slots :: "u32 option"

record LifecycleOperationRow =
  lo_instance_slug :: string
  lo_idempotency_key :: string
  lo_operation_id :: string
  lo_kind :: string
  lo_target :: string
  lo_reason :: string
  lo_desired_state :: string
  lo_desired_slots :: "u32 option"
  lo_expected_version :: "u64 option"
  lo_resource_version :: u64
  lo_phase :: string
  lo_created_at :: Timestamp

record LifecycleOperationRequest =
  lr_instance_slug :: string
  lr_kind :: string
  lr_target :: string
  lr_reason :: string
  lr_idempotency_key :: string
  lr_desired_state :: string
  lr_desired_slots :: "u32 option"
  lr_expected_version :: "u64 option"
  lr_operation_id :: string
  lr_created_at :: Timestamp

definition MAX_LIFECYCLE_OPERATIONS_PER_INSTANCE :: nat where
  "MAX_LIFECYCLE_OPERATIONS_PER_INSTANCE = 4096"

definition LIFECYCLE_OPERATION_RETENTION :: int where
  "LIFECYCLE_OPERATION_RETENTION = 24 * 60 * 60"

text \<open>\<open>Timestamp::minus\<close>; an instant counts nanoseconds.\<close>

definition Timestamp_minus :: "Timestamp \<Rightarrow> int \<Rightarrow> Timestamp" where
  "Timestamp_minus t secs = t - secs * 1000000000"

text \<open>An optional column that must fit its Rust type.\<close>

definition optional_column :: "(int \<Rightarrow> 'a option) \<Rightarrow> int option \<Rightarrow> StoreError + 'a option" where
  "optional_column conv c =
     transpose_map (\<lambda>n. case conv n of None \<Rightarrow> Inl sqlite_failed | Some v \<Rightarrow> Inr v) c"

definition required_column :: "(int \<Rightarrow> 'a option) \<Rightarrow> int \<Rightarrow> StoreError + 'a" where
  "required_column conv n = (case conv n of None \<Rightarrow> Inl sqlite_failed | Some v \<Rightarrow> Inr v)"

definition lifecycle_instance_row :: "string \<Rightarrow> InstanceDbRow \<Rightarrow> StoreError + LifecycleInstanceRow" where
  "lifecycle_instance_row inst r =
     try_sum (required_column u64_try_from_i64 (i_resource_version r)) (\<lambda>version.
     try_sum (optional_column u32_try_from_i64 (i_desired_slots r)) (\<lambda>desired_slots.
     Inr \<lparr>li_instance_slug = inst, li_desired_state = i_desired_state r,
          li_observed_state = i_observed_state r, li_resource_version = version,
          li_desired_slots = desired_slots\<rparr>))"

definition lifecycle_instance :: "string \<Rightarrow> OpDb \<Rightarrow> StoreError + LifecycleInstanceRow option" where
  "lifecycle_instance inst db =
     (case map_of (instances db) inst of
        None \<Rightarrow> Inr None
      | Some r \<Rightarrow> try_sum (lifecycle_instance_row inst r) (\<lambda>row. Inr (Some row)))"

definition lifecycle_operation_query ::
    "StoreEnv \<Rightarrow> string \<Rightarrow> string \<Rightarrow> OpDb \<Rightarrow> StoreError + LifecycleOperationRow option" where
  "lifecycle_operation_query env inst key db =
     (case map_of (lifecycle_operations db) (inst, key) of
        None \<Rightarrow> Inr None
      | Some r \<Rightarrow>
          (case parse_rfc3339 env (o_created_at r) of
             None \<Rightarrow> Inl sqlite_failed
           | Some at \<Rightarrow>
               try_sum (optional_column u32_try_from_i64 (o_desired_slots r)) (\<lambda>desired_slots.
               try_sum (optional_column u64_try_from_i64 (o_expected_version r)) (\<lambda>expected_version.
               try_sum (required_column u64_try_from_i64 (o_resource_version r)) (\<lambda>version.
               Inr (Some \<lparr>lo_instance_slug = inst, lo_idempotency_key = key,
                          lo_operation_id = o_operation_id r, lo_kind = o_kind r,
                          lo_target = o_target r, lo_reason = o_reason r,
                          lo_desired_state = o_desired_state r, lo_desired_slots = desired_slots,
                          lo_expected_version = expected_version, lo_resource_version = version,
                          lo_phase = o_phase r, lo_created_at = at\<rparr>))))))"

definition lifecycle_operation_pending :: "string \<Rightarrow> string \<Rightarrow> u64 \<Rightarrow> OpDb \<Rightarrow> bool" where
  "lifecycle_operation_pending inst desired version db =
     (filter (\<lambda>(k, r). fst k = inst \<and> o_desired_state r = desired
                \<and> o_resource_version r = as_i64 version \<and> nocase_eq (o_phase r) ''accepted'')
        (lifecycle_operations db) \<noteq> [])"

section \<open>Lifecycle operations\<close>

definition operation_count :: "string \<Rightarrow> OpDb \<Rightarrow> nat" where
  "operation_count inst db = length (filter (\<lambda>(k, _). fst k = inst) (lifecycle_operations db))"

text \<open>\<open>DELETE\<close> of the terminal operations of an instance before a cutoff; the two texts are compared
  byte by byte, as SQLite compares \<open>TEXT\<close>.\<close>

definition reclaim_operations :: "string \<Rightarrow> string \<Rightarrow> OpDb \<Rightarrow> OpDb" where
  "reclaim_operations inst cutoff db =
     db\<lparr>lifecycle_operations := filter (\<lambda>(k, r). \<not> (fst k = inst \<and> o_created_at r < cutoff
          \<and> list_ex (nocase_eq (o_phase r)) [''completed'', ''canceled'', ''cancelled'', ''rejected'']))
          (lifecycle_operations db)\<rparr>"

definition current_version :: "string \<Rightarrow> OpDb \<Rightarrow> u64" where
  "current_version inst db =
     (case map_of (instances db) inst of
        None \<Rightarrow> 1
      | Some r \<Rightarrow> (case u64_try_from_i64 (i_resource_version r) of Some v \<Rightarrow> v | None \<Rightarrow> 0))"

definition same_request :: "LifecycleOperationRow \<Rightarrow> LifecycleOperationRequest \<Rightarrow> bool" where
  "same_request old r \<longleftrightarrow>
     lo_kind old = lr_kind r \<and> lo_target old = lr_target r \<and> lo_reason old = lr_reason r
     \<and> lo_desired_state old = lr_desired_state r \<and> lo_desired_slots old = lr_desired_slots r
     \<and> lo_expected_version old = lr_expected_version r"

definition accept_intent ::
    "StoreEnv \<Rightarrow> Timestamp \<Rightarrow> LifecycleOperationRequest \<Rightarrow> u64 \<Rightarrow> OpDb \<Rightarrow> OpDb" where
  "accept_intent env accepted_at r next_version db =
     (let at = rfc3339 env accepted_at;
          slots_wanted = map_option uint (lr_desired_slots r);
          new = \<lparr>i_host = ''unknown'', i_daemon_version = [], i_slots_configured = 0, i_slots_busy = 0,
                 i_updated_at = at, i_desired_state = lr_desired_state r,
                 i_observed_state = ''ready'', i_resource_version = as_i64 next_version,
                 i_desired_slots = slots_wanted\<rparr>
      in db\<lparr>instances := tbl_upsert (lr_instance_slug r) new
              (\<lambda>old. old\<lparr>i_desired_state := lr_desired_state r,
                         i_resource_version := as_i64 next_version,
                         i_desired_slots := coalesce slots_wanted (i_desired_slots old),
                         i_updated_at := at\<rparr>) (instances db),
            lifecycle_operations := tbl_insert (lr_instance_slug r, lr_idempotency_key r)
              \<lparr>o_operation_id = lr_operation_id r, o_kind = lr_kind r, o_target = lr_target r,
               o_reason = lr_reason r, o_desired_state = lr_desired_state r,
               o_resource_version = as_i64 next_version, o_phase = ''accepted'', o_created_at = at,
               o_desired_slots = slots_wanted,
               o_expected_version = map_option uint (lr_expected_version r)\<rparr>
              (lifecycle_operations db)\<rparr>)"

definition accepted_operation :: "LifecycleOperationRequest \<Rightarrow> u64 \<Rightarrow> Timestamp \<Rightarrow> LifecycleOperationRow" where
  "accepted_operation r next_version accepted_at =
     \<lparr>lo_instance_slug = lr_instance_slug r, lo_idempotency_key = lr_idempotency_key r,
      lo_operation_id = lr_operation_id r, lo_kind = lr_kind r, lo_target = lr_target r,
      lo_reason = lr_reason r, lo_desired_state = lr_desired_state r,
      lo_desired_slots = lr_desired_slots r, lo_expected_version = lr_expected_version r,
      lo_resource_version = next_version, lo_phase = ''accepted'', lo_created_at = accepted_at\<rparr>"

definition record_lifecycle_in_transaction ::
    "StoreEnv \<Rightarrow> LifecycleOperationRequest \<Rightarrow> OpDb \<Rightarrow> ((LifecycleOperationRow \<times> bool) \<times> OpDb) store_result" where
  "record_lifecycle_in_transaction env r db =
     try_sum (plain (lifecycle_operation_query env (lr_instance_slug r) (lr_idempotency_key r) db))
       (\<lambda>existing. case existing of
          Some old \<Rightarrow>
            if \<not> same_request old r then fail ExConflict ''store.lifecycle.idempotency_conflict''
            else Inr ((old, False), db)
        | None \<Rightarrow>
            let full = (\<lambda>d. MAX_LIFECYCLE_OPERATIONS_PER_INSTANCE \<le> operation_count (lr_instance_slug r) d);
                db1 = (if full db
                  then reclaim_operations (lr_instance_slug r)
                    (rfc3339 env (Timestamp_minus (clock env 0) LIFECYCLE_OPERATION_RETENTION)) db
                  else db);
                accepted_at = clock env 1;
                version = current_version (lr_instance_slug r) db1
            in if full db1 then fail ExUnavailable ''store.lifecycle.operation_quota''
               else if lr_expected_version r \<noteq> None \<and> lr_expected_version r \<noteq> Some version
               then fail ExConflict ''store.lifecycle.version_conflict''
               else if (case lr_expected_version r of None \<Rightarrow> False | Some v \<Rightarrow> i64_max < uint v)
               then fail ExUsage ''store.lifecycle.expected_version.range''
               else
                 let next_version = saturating_add_word version 1
                 in if list_ex (\<lambda>(_, op). o_operation_id op = lr_operation_id r) (lifecycle_operations db1)
                    then Inl (sqlite_failed, False)
                    else Inr ((accepted_operation r next_version accepted_at, True),
                      accept_intent env accepted_at r next_version db1))"

definition record_lifecycle_operation ::
    "StoreEnv \<Rightarrow> LifecycleOperationRequest \<Rightarrow> Store \<Rightarrow> (StoreError + LifecycleOperationRow \<times> bool) \<times> Store" where
  "record_lifecycle_operation env r S =
     run_store (commit_of (record_lifecycle_in_transaction env r (store_db S))) S"

text \<open>The two updates of a confirmed observation: the instance row, and the accepted operations of that
  version whose desired state is the observed one.\<close>

definition observe_instance :: "StoreEnv \<Rightarrow> string \<Rightarrow> string \<Rightarrow> u64 \<Rightarrow> u64 \<Rightarrow> OpDb \<Rightarrow> OpDb" where
  "observe_instance env inst observed expected next_version db =
     db\<lparr>instances := tbl_update inst (\<lambda>_. True)
          (\<lambda>r. r\<lparr>i_observed_state := observed, i_resource_version := as_i64 next_version,
                 i_updated_at := rfc3339 env (clock env 0)\<rparr>) (instances db),
        lifecycle_operations := map (\<lambda>(k, r).
          if fst k = inst \<and> o_resource_version r = as_i64 expected
             \<and> o_desired_state r = observed \<and> nocase_eq (o_phase r) ''accepted''
          then (k, r\<lparr>o_phase := ''completed''\<rparr>) else (k, r)) (lifecycle_operations db)\<rparr>"

definition observe_in_transaction ::
    "StoreEnv \<Rightarrow> string \<Rightarrow> string \<Rightarrow> u64 \<Rightarrow> OpDb \<Rightarrow> ((LifecycleInstanceRow \<times> bool) \<times> OpDb) store_result" where
  "observe_in_transaction env inst observed expected db =
     try_sum (plain (lifecycle_instance inst db)) (\<lambda>current.
       case current of
         None \<Rightarrow> fail ExUsage ''store.lifecycle.instance.unknown''
       | Some c \<Rightarrow>
           if li_resource_version c \<noteq> expected then Inr ((c, False), db)
           else
             let next_version = saturating_add_word (li_resource_version c) 1
             in Inr ((c\<lparr>li_observed_state := observed, li_resource_version := next_version\<rparr>, True),
                  observe_instance env inst observed expected next_version db))"

definition record_lifecycle_observed ::
    "StoreEnv \<Rightarrow> string \<Rightarrow> string \<Rightarrow> u64 \<Rightarrow> Store \<Rightarrow> (StoreError + LifecycleInstanceRow \<times> bool) \<times> Store" where
  "record_lifecycle_observed env inst observed expected S =
     run_store (commit_of (observe_in_transaction env inst observed expected (store_db S))) S"

end
