(* ===== verification/Store_Invariants.thy ===== *)
theory Store_Invariants
  imports Store_Jobs Store_Slots Store_Lifecycle "HOL-Library.Multiset"
begin

text \<open>
  The invariant of the operational store and its preservation: keys and row ids, the watermarks of
  the event stream, the totals kept by triggers, the ownership of events, and the bounds of the
  two idempotency ledgers.
\<close>

section \<open>Transactions of a store handle\<close>

lemma run_store_commit_of:
  "run_store (commit_of m) S =
     (case m of
        Inl (e, refused) \<Rightarrow>
          (Inl e, if refused then S\<lparr>illegal_transition_edges := illegal_transition_edges S + 1\<rparr> else S)
      | Inr (a, db) \<Rightarrow> (Inr a, S\<lparr>store_db := db\<rparr>))"
  by (auto simp: run_store_def commit_of_def split: sum.splits prod.splits)

lemma plain_simps [simp]: "plain (Inr a) = Inr a" "plain (Inl e) = Inl (e, False)"
  by (simp_all add: plain_def)

lemma plain_Inr [simp]: "plain m = Inr a \<longleftrightarrow> m = Inr a"
  by (cases m) (auto simp: plain_def)

lemma plain_Inl [simp]: "plain m = Inl ef \<longleftrightarrow> (\<exists>e. m = Inl e \<and> ef = (e, False))"
  by (cases m) (auto simp: plain_def)

lemma fail_refuse_simps [simp]:
  "fail c r \<noteq> Inr a" "refuse_edge c r \<noteq> Inr a"
  "fail c r = Inl ef \<longleftrightarrow> ef = (StoreError_new c r, False)"
  "refuse_edge c r = Inl ef \<longleftrightarrow> ef = (StoreError_new c r, True)"
  by (auto simp: fail_def refuse_edge_def)

lemma try_sum_Inl: "try_sum m f = Inl e \<longleftrightarrow> m = Inl e \<or> (\<exists>a. m = Inr a \<and> f a = Inl e)"
  by (cases m) auto

text \<open>A property of the database survives a transaction when the computation keeps it.\<close>

lemma run_store_keeps:
  assumes "P (store_db S)" and "\<And>a db. m = Inr (a, db) \<Longrightarrow> P db"
  shows "P (store_db (snd (run_store (commit_of m) S)))"
  using assms by (auto simp: run_store_commit_of split: sum.splits prod.splits)

section \<open>Tables\<close>

lemma keys_tbl_upsert: "set (map fst (tbl_upsert k new f t)) = insert k (set (map fst t))"
  by (auto simp: tbl_upsert_def map_of_eq_None_iff)

lemma distinct_tbl_upsert [intro]:
  "distinct (map fst t) \<Longrightarrow> distinct (map fst (tbl_upsert k new f t))"
  by (auto simp: tbl_upsert_def map_of_eq_None_iff)

lemma map_of_tbl_upsert [simp]:
  "map_of (tbl_upsert k new f t) k' =
     (if k' = k then Some (case map_of t k of None \<Rightarrow> new | Some r \<Rightarrow> f r) else map_of t k')"
  by (auto simp: tbl_upsert_def split: option.splits)

lemma length_tbl_upsert:
  "length (tbl_upsert k new f t) = (if map_of t k = None then Suc (length t) else length t)"
  by (simp add: tbl_upsert_def)

text \<open>Tables keyed by an ascending row id, with the last id that was given out.\<close>

definition ids_wf :: "(int, 'r) table \<Rightarrow> int \<Rightarrow> bool" where
  "ids_wf t n \<longleftrightarrow> sorted_wrt (<) (map fst t) \<and> (\<forall>k \<in> fst ` set t. 1 \<le> k \<and> k \<le> n) \<and> 0 \<le> n"

lemma ids_wf_insert: "ids_wf t n \<Longrightarrow> ids_wf (tbl_insert (n + 1) r t) (n + 1)"
  by (auto simp: ids_wf_def tbl_insert_def sorted_wrt_append)

lemma ids_wf_distinct: "ids_wf t n \<Longrightarrow> distinct (map fst t)"
  by (auto simp: ids_wf_def strict_sorted_iff)

lemma ids_wf_fresh: "ids_wf t n \<Longrightarrow> map_of t (n + 1) = None"
  by (auto simp: ids_wf_def map_of_eq_None_iff)

lemma ids_wf_map: "map fst t' = map fst t \<Longrightarrow> ids_wf t n \<Longrightarrow> ids_wf t' n"
  unfolding ids_wf_def by (metis list.set_map)

section \<open>The invariant\<close>

definition jobs_wf :: "OpDb \<Rightarrow> bool" where
  "jobs_wf db \<longleftrightarrow> distinct (map fst (jobs db)) \<and> job_rows db = int (length (jobs db))"

definition transitions_wf :: "OpDb \<Rightarrow> bool" where
  "transitions_wf db \<longleftrightarrow>
     ids_wf (job_transitions db) (transition_seq db)
     \<and> distinct (map (\<lambda>(_, t). (t_instance_slug t, t_job_uid t, t_transition_token t)) (job_transitions db))
     \<and> transition_rows db = int (length (job_transitions db))"

text \<open>An event that names a transition belongs to the instance and the job of that transition.\<close>

definition events_wf :: "OpDb \<Rightarrow> bool" where
  "events_wf db \<longleftrightarrow>
     ids_wf (events db) (event_seq db) \<and> event_rows db = int (length (events db))
     \<and> (\<forall>(_, e) \<in> set (events db). \<forall>tid. e_transition_id e = Some tid \<longrightarrow>
          (\<exists>t. map_of (job_transitions db) tid = Some t
             \<and> t_instance_slug t = e_instance_slug e \<and> t_job_uid t = e_subject e))"

definition stream_row_ok :: "int \<Rightarrow> (int, EventDbRow) table \<Rightarrow> string \<Rightarrow> StreamDbRow \<Rightarrow> bool" where
  "stream_row_ok n t inst s \<longleftrightarrow>
     1 \<le> st_first_retained_id s \<and> st_first_retained_id s \<le> st_high_water_id s + 1
     \<and> st_high_water_id s \<le> n
     \<and> (\<forall>(k, e) \<in> set t. e_instance_slug e = inst \<longrightarrow>
          st_first_retained_id s \<le> k \<and> k \<le> st_high_water_id s)"

definition stream_ok :: "int \<Rightarrow> (int, EventDbRow) table \<Rightarrow> string \<Rightarrow> StreamDbRow option \<Rightarrow> bool" where
  "stream_ok n t inst s =
     (case s of
        None \<Rightarrow> (\<forall>(k, e) \<in> set t. e_instance_slug e \<noteq> inst)
      | Some s \<Rightarrow> stream_row_ok n t inst s)"

definition streams_wf :: "OpDb \<Rightarrow> bool" where
  "streams_wf db \<longleftrightarrow>
     distinct (map fst (event_stream_state db))
     \<and> (\<forall>inst. stream_ok (event_seq db) (events db) inst (map_of (event_stream_state db) inst))"

definition reservations_wf :: "OpDb \<Rightarrow> bool" where
  "reservations_wf db \<longleftrightarrow>
     distinct (map fst (job_storage_reservations db))
     \<and> (\<forall>(k, v) \<in> set (job_storage_reservations db). v_reserved_bytes v = JOB_STORAGE_RESERVATION_BYTES)
     \<and> reservation_count db = int (length (job_storage_reservations db))
     \<and> reserved_bytes db = reservation_count db * JOB_STORAGE_RESERVATION_BYTES"

definition requests_of :: "string \<Rightarrow> string \<Rightarrow> OpDb \<Rightarrow> ((string \<times> string \<times> string) \<times> SlotRequestDbRow) list" where
  "requests_of inst slot_id db =
     filter (\<lambda>(k, r). fst k = inst \<and> fst (snd k) = slot_id) (slot_transition_requests db)"

text \<open>The bound \<open>c\<close> on the requests remembered for one slot is a parameter: inside the transaction that
  adds a request it is exceeded by one until the pruning step.\<close>

definition slots_wf :: "nat \<Rightarrow> OpDb \<Rightarrow> bool" where
  "slots_wf c db \<longleftrightarrow>
     distinct (map fst (slots db)) \<and> distinct (map fst (slot_transition_requests db))
     \<and> (\<forall>inst slot_id. length (requests_of inst slot_id db) \<le> c)
     \<and> (\<forall>(k, s) \<in> set (slots db). 1 \<le> s_generation s \<and> s_generation s \<le> i64_max
          \<and> 1 \<le> s_transition_sequence s \<and> s_transition_sequence s \<le> i64_max
          \<and> s_phase s \<in> range SlotPhase_as_str \<and> s_slot_kind s \<in> range SlotKind_as_str)"

definition lifecycle_wf :: "OpDb \<Rightarrow> bool" where
  "lifecycle_wf db \<longleftrightarrow>
     distinct (map fst (instances db)) \<and> distinct (map fst (lifecycle_operations db))
     \<and> distinct (map (\<lambda>(_, op). o_operation_id op) (lifecycle_operations db))
     \<and> (\<forall>inst. operation_count inst db \<le> MAX_LIFECYCLE_OPERATIONS_PER_INSTANCE)"

definition others_wf :: "OpDb \<Rightarrow> bool" where
  "others_wf db \<longleftrightarrow>
     distinct (map fst (runner_registrations db)) \<and> ids_wf (reconciliations db) (reconciliation_seq db)"

definition store_wf :: "nat \<Rightarrow> OpDb \<Rightarrow> bool" where
  "store_wf c db \<longleftrightarrow>
     jobs_wf db \<and> transitions_wf db \<and> events_wf db \<and> streams_wf db \<and> reservations_wf db
     \<and> slots_wf c db \<and> lifecycle_wf db \<and> others_wf db"

lemmas wf_parts = jobs_wf_def transitions_wf_def events_wf_def streams_wf_def reservations_wf_def
  slots_wf_def lifecycle_wf_def others_wf_def requests_of_def operation_count_def

definition empty_db :: OpDb where
  "empty_db =
     \<lparr>instances = [], slots = [], slot_transition_requests = [], runner_registrations = [],
      jobs = [], job_transitions = [], transition_seq = 0, events = [], event_seq = 0,
      event_stream_state = [], reconciliations = [], reconciliation_seq = 0,
      lifecycle_operations = [], job_storage_reservations = [], reserved_bytes = 0,
      reservation_count = 0, job_rows = 0, event_rows = 0, transition_rows = 0\<rparr>"

lemma empty_db_wf: "store_wf c empty_db"
  by (simp add: store_wf_def wf_parts ids_wf_def stream_ok_def empty_db_def)

section \<open>Events\<close>

lemma insert_event_sel [simp]:
  "jobs (insert_event env row a b db) = jobs db"
  "job_transitions (insert_event env row a b db) = job_transitions db"
  "event_seq (insert_event env row a b db) = event_seq db + 1"
  "event_stream_state (insert_event env row a b db) = event_stream_state db"
  "job_storage_reservations (insert_event env row a b db) = job_storage_reservations db"
  by (simp_all add: insert_event_def)

text \<open>What a successful append does.\<close>

lemma append_event_Inr:
  assumes "append_event_with_ancestry env now row a b db = Inr (eid, db')"
  shows "validate_event_row env row = Inr ()"
    "validate_event_ancestry db (ev_instance_slug row) (ev_subject row) a b = Inr ()"
    "\<exists>t. advance_stream env now (ev_instance_slug row) (event_seq db + 1) (event_stream_state db) = Inr t
       \<and> db' = (insert_event env row a b db)\<lparr>event_stream_state := t\<rparr>"
    "eid = word_of_int (event_seq db + 1)"
  using assms
  by (auto simp: append_event_with_ancestry_def try_sum_Inr Let_def u64_try_from_i64_def
      split: option.splits if_splits)

lemma advance_stream_Inr:
  assumes "advance_stream env now inst n t = Inr t'"
  shows "\<exists>s. t' = tbl_upsert inst s (\<lambda>_. s) t \<and> st_high_water_id s = n \<and> 1 \<le> st_first_retained_id s
    \<and> st_first_retained_id s = (case map_of t inst of
         None \<Rightarrow> n
       | Some s \<Rightarrow> if st_high_water_id s < st_first_retained_id s then n else st_first_retained_id s)"
  using assms by (auto simp: advance_stream_def Let_def split: if_splits)

lemma append_event_wf:
  assumes "append_event_with_ancestry env now row a b db = Inr (eid, db')" "store_wf c db"
  shows "store_wf c db'"
proof -
  let ?inst = "ev_instance_slug row"
  note i = append_event_Inr [OF assms(1)]
  obtain t where t: "advance_stream env now ?inst (event_seq db + 1) (event_stream_state db) = Inr t"
    "db' = (insert_event env row a b db)\<lparr>event_stream_state := t\<rparr>" using i(3) by blast
  obtain s where s: "t = tbl_upsert ?inst s (\<lambda>_. s) (event_stream_state db)"
    "st_high_water_id s = event_seq db + 1" "1 \<le> st_first_retained_id s"
    "st_first_retained_id s = (case map_of (event_stream_state db) ?inst of
       None \<Rightarrow> event_seq db + 1
     | Some s \<Rightarrow> if st_high_water_id s < st_first_retained_id s then event_seq db + 1 else st_first_retained_id s)"
    using advance_stream_Inr [OF t(1)] by blast
  have wf: "events_wf db" "streams_wf db" using assms(2) by (auto simp: store_wf_def)
  have "events_wf db'"
    using wf(1) i(2) ids_wf_insert [of "events db" "event_seq db"]
    by (auto simp: events_wf_def t(2) insert_event_def validate_event_ancestry_def
        split: option.splits if_splits)
  moreover have "streams_wf db'"
    unfolding streams_wf_def
  proof (intro conjI allI)
    show "distinct (map fst (event_stream_state db'))"
      using wf(2) by (simp add: t(2) s(1) streams_wf_def distinct_tbl_upsert)
    fix inst
    show "stream_ok (event_seq db') (events db') inst (map_of (event_stream_state db') inst)"
      using wf(2) s(2-4) unfolding streams_wf_def stream_ok_def stream_row_ok_def
      by (cases "inst = ?inst"; cases "map_of (event_stream_state db) inst")
        (fastforce simp: t(2) s(1) insert_event_def dest: spec [of _ inst])+
  qed
  ultimately show ?thesis
    using assms(2) by (auto simp: store_wf_def t(2) insert_event_def wf_parts)
qed

section \<open>Jobs\<close>

lemma insert_transition_wf:
  assumes "store_wf c db" "\<not> transition_token_exists db inst uid (tr_token tr)"
  shows "store_wf c (insert_transition env inst uid tr db)"
proof -
  have "transitions_wf (insert_transition env inst uid tr db)"
    using assms ids_wf_insert [of "job_transitions db" "transition_seq db"]
    by (auto simp: store_wf_def transitions_wf_def insert_transition_def transition_token_exists_def
        list_ex_iff tbl_insert_def)
  moreover have "events_wf (insert_transition env inst uid tr db)"
    using assms(1) by (fastforce simp: store_wf_def events_wf_def insert_transition_def)
  ultimately show ?thesis
    using assms(1) by (simp add: store_wf_def insert_transition_def wf_parts)
qed

lemma move_job_wf: "store_wf c db \<Longrightarrow> store_wf c (move_job env inst uid tr target db)"
  by (simp add: store_wf_def move_job_def wf_parts)

lemma upsert_job_wf:
  assumes "store_wf c db" shows "store_wf c (upsert_job key new f db)"
proof -
  have "jobs_wf (upsert_job key new f db)"
    using assms by (auto simp: store_wf_def jobs_wf_def upsert_job_def length_tbl_upsert)
  then show ?thesis using assms by (simp add: store_wf_def upsert_job_def wf_parts)
qed

text \<open>Changes confined to one part of the database need only keep that part.\<close>

lemma store_wf_reservations:
  assumes "store_wf c db" "reservations_wf db'"
    and "db' = db\<lparr>job_storage_reservations := t, reserved_bytes := b, reservation_count := n\<rparr>"
  shows "store_wf c db'"
  using assms by (simp add: store_wf_def wf_parts)

lemma insert_reservation_wf:
  assumes "insert_job_storage_reservation env now inst uid db = Inr db'" "store_wf c db"
  shows "store_wf c db'"
proof -
  have "reservations_wf db" using assms(2) by (simp add: store_wf_def)
  then have "reservations_wf db'"
    using assms(1)
    by (auto simp: insert_job_storage_reservation_def reservations_wf_def map_of_eq_None_iff
        algebra_simps split: if_splits)
  moreover obtain t b n where "db' = db\<lparr>job_storage_reservations := t, reserved_bytes := b, reservation_count := n\<rparr>"
    using assms(1) by (auto simp: insert_job_storage_reservation_def split: if_splits)
  ultimately show ?thesis by (rule store_wf_reservations [OF assms(2)])
qed

lemma ensure_reservation_wf:
  "ensure_job_storage_reservation env now inst uid db = Inr db' \<Longrightarrow> store_wf c db \<Longrightarrow> store_wf c db'"
  by (auto simp: ensure_job_storage_reservation_def insert_reservation_wf split: if_splits)

lemma length_tbl_delete_key:
  "distinct (map fst t) \<Longrightarrow> map_of t k = Some r \<Longrightarrow> Suc (length (tbl_delete k (\<lambda>_. True) t)) = length t"
proof (induction t)
  case (Cons x t)
  have "tbl_delete k (\<lambda>_. True) t = t" if "k \<notin> fst ` set t"
    using that by (force simp: tbl_delete_def filter_id_conv)
  then show ?case using Cons by (cases x) (auto simp: tbl_delete_def split: if_splits)
qed simp

lemma delete_reservation_wf:
  assumes "delete_job_storage_reservation inst uid db = Inr (b, db')" "store_wf c db"
  shows "store_wf c db'"
proof (cases "map_of (job_storage_reservations db) (inst, uid)")
  case None
  then show ?thesis using assms by (simp add: delete_job_storage_reservation_def)
next
  case (Some v)
  have wf: "reservations_wf db" using assms(2) by (simp add: store_wf_def)
  then have v: "v_reserved_bytes v = JOB_STORAGE_RESERVATION_BYTES"
    using map_of_in_set [OF Some] by (auto simp: reservations_wf_def)
  have len: "int (length (job_storage_reservations db))
      = int (length (tbl_delete (inst, uid) (\<lambda>_. True) (job_storage_reservations db))) + 1"
    using length_tbl_delete_key [OF _ Some] wf by (simp add: reservations_wf_def flip: of_nat_Suc)
  have "reservations_wf db'"
    using assms(1) Some wf v len set_tbl_delete [of "(inst, uid)" "\<lambda>_. True" "job_storage_reservations db"]
    by (auto simp: delete_job_storage_reservation_def reservations_wf_def algebra_simps split: if_splits)
  moreover obtain t b n where "db' = db\<lparr>job_storage_reservations := t, reserved_bytes := b, reservation_count := n\<rparr>"
    using assms(1) Some by (auto simp: delete_job_storage_reservation_def split: if_splits)
  ultimately show ?thesis by (rule store_wf_reservations [OF assms(2)])
qed

text \<open>The case split of one job transition: missing or replayed, or a legal edge applied.\<close>

lemma job_transition_Inr:
  assumes "record_job_transition_in_transaction env now inst uid tr db = Inr (applied, db')"
  obtains (replay) "\<not> applied" "db' = db" "transition_token_exists db inst uid (tr_token tr)"
      "map_of (jobs db) (inst, uid) \<noteq> None"
    | (step) j src target eid db3 where "applied" "map_of (jobs db) (inst, uid) = Some j"
      "\<not> transition_token_exists db inst uid (tr_token tr)"
      "JobState_try_from (j_phase j) = Some src" "transition_target src (tr_reason tr) = Some target"
      "append_event_with_ancestry env now (transition_event inst uid tr) (Some (transition_seq db + 1)) None
         (move_job env inst uid tr target (insert_transition env inst uid tr db)) = Inr (eid, db3)"
      "if is_terminal target then \<exists>b. delete_job_storage_reservation inst uid db3 = Inr (b, db')
       else db' = db3"
proof (cases "map_of (jobs db) (inst, uid)")
  case None
  then show ?thesis using assms by (simp add: record_job_transition_in_transaction_def)
next
  case (Some j)
  show ?thesis
  proof (cases "transition_token_exists db inst uid (tr_token tr)")
    case True
    then show ?thesis
      using assms Some replay by (simp add: record_job_transition_in_transaction_def)
  next
    case False
    have seq: "transition_seq (insert_transition env inst uid tr db) = transition_seq db + 1"
      by (simp add: insert_transition_def)
    show ?thesis
      using assms Some False step
      by (fastforce simp: record_job_transition_in_transaction_def try_sum_Inr project_job_state_def
          project_job_transition_def seq Let_def split: option.splits if_splits prod.splits)
  qed
qed

lemma job_transition_wf:
  assumes "record_job_transition_in_transaction env now inst uid tr db = Inr (applied, db')" "store_wf c db"
  shows "store_wf c db'"
  using assms(1)
proof (cases rule: job_transition_Inr)
  case replay
  then show ?thesis using assms(2) by simp
next
  case (step j src target eid db3)
  have "store_wf c db3"
    using append_event_wf [OF step(6)] move_job_wf insert_transition_wf [OF assms(2) step(3)] by blast
  then show ?thesis using step(7) delete_reservation_wf by (auto split: if_splits)
qed

lemma insert_summary_wf: "insert_summary env now s db = Inr db' \<Longrightarrow> store_wf c db \<Longrightarrow> store_wf c db'"
  by (auto simp: insert_summary_def Let_def upsert_job_wf split: option.splits if_splits)

section \<open>Slots\<close>

lemma store_wf_slots:
  assumes "store_wf c db" "slots_wf c db'"
    and "db' = db\<lparr>slots := t, slot_transition_requests := q\<rparr>"
  shows "store_wf c db'"
  using assms by (simp add: store_wf_def wf_parts)

lemma tbl_upsert_rows:
  assumes "(k', r) \<in> set (tbl_upsert k new f t)"
  shows "(k', r) \<in> set t \<or> (k' = k \<and> (r = new \<or> (\<exists>r'. (k, r') \<in> set t \<and> r = f r')))"
  using assms by (auto simp: tbl_upsert_def set_tbl_update split: if_splits)

lemma validate_slot_transition_Inr:
  assumes "validate_slot_transition i t = Inr u"
  shows "sl_generation t \<noteq> 0" "sl_sequence t \<noteq> 0" "slug_ok (si_instance_slug i)"
    "slug_ok (si_slot_id i)" "slug_ok (sl_token t)" "sl_correlation_id t = ''corr-'' @ sl_token t"
  using assms
  by (auto simp: validate_slot_transition_def validate_slot_identity_def try_sum_Inr not_less
      split: if_splits)

lemma uint_ge1: "(x :: u64) \<noteq> 0 \<Longrightarrow> 1 \<le> uint x"
  using uint_ge_0 [of x] by (metis add_0 int_one_le_iff_zero_less order_le_less uint_0_iff zle_iff_zadd)

lemma apply_slot_transition_wf:
  assumes "apply_slot_transition env now i t db = Inr db'" "store_wf c db"
    and g: "sl_generation t \<noteq> 0" and q: "sl_sequence t \<noteq> 0"
    and bounds: "uint (sl_generation t) \<le> i64_max" "uint (sl_sequence t) \<le> i64_max"
  shows "store_wf c db'"
proof -
  let ?k = "(si_instance_slug i, si_slot_id i)"
  let ?new = "new_slot_row env i t"
  let ?f = "\<lambda>old. ?new\<lparr>s_host := s_host old, s_slot_index := s_slot_index old, s_slot_kind := s_slot_kind old\<rparr>"
  let ?db1 = "db\<lparr>slots := tbl_upsert ?k ?new ?f (slots db)\<rparr>"
  have new: "1 \<le> s_generation ?new" "s_generation ?new \<le> i64_max"
    "1 \<le> s_transition_sequence ?new" "s_transition_sequence ?new \<le> i64_max"
    "s_phase ?new \<in> range SlotPhase_as_str" "s_slot_kind ?new \<in> range SlotKind_as_str"
    using uint_ge1 [OF g] uint_ge1 [OF q] bounds by (auto simp: new_slot_row_def)
  have wf: "slots_wf c db" using assms(2) by (simp add: store_wf_def)
  have "slots_wf c ?db1"
    unfolding slots_wf_def
  proof (intro conjI)
    show "\<forall>(k, s) \<in> set (slots ?db1). 1 \<le> s_generation s \<and> s_generation s \<le> i64_max
          \<and> 1 \<le> s_transition_sequence s \<and> s_transition_sequence s \<le> i64_max
          \<and> s_phase s \<in> range SlotPhase_as_str \<and> s_slot_kind s \<in> range SlotKind_as_str"
      using wf new by (fastforce simp: slots_wf_def dest!: tbl_upsert_rows)
  qed (use wf in \<open>auto simp: slots_wf_def requests_of_def\<close>)
  then have "store_wf c ?db1"
    using store_wf_slots [where t = "slots ?db1" and q = "slot_transition_requests db", OF assms(2)] by simp
  then show ?thesis
    using assms(1)
    by (auto simp: apply_slot_transition_def append_event_in_transaction_def try_sum_Inr Let_def
        dest: append_event_wf)
qed

text \<open>The case split of one slot transition: a replay, or the winning transition.\<close>

definition newer_than :: "SlotIdentity \<Rightarrow> SlotTransition \<Rightarrow> SlotRow \<Rightarrow> bool" where
  "newer_than i t c \<longleftrightarrow>
     \<not> identity_mismatch i c
     \<and> (sr_generation c < sl_generation t
        \<or> sr_generation c = sl_generation t \<and> sr_transition_sequence c < sl_sequence t
          \<and> slot_transition_allowed (sr_phase c) (sl_target t))"

lemma judge_Inr:
  assumes "judge_slot_transition i t c raw = Inr v"
  shows "v = Some False \<or> v = None \<and> newer_than i t c"
  using assms
  by (auto simp: judge_slot_transition_def newer_than_def project_slot_transition_def not_less order_le_less
      split: if_splits sum.splits)

lemma slot_transition_Inr:
  assumes "record_slot_transition_in_transaction env now i t db = Inr (committed, db')"
  obtains (replay) "\<not> committed" "db' = db" "validate_slot_transition i t = Inr ()"
    | (won) current where "committed" "validate_slot_transition i t = Inr ()"
      "apply_slot_transition env now i t db = Inr db'"
      "uint (sl_generation t) \<le> i64_max" "uint (sl_sequence t) \<le> i64_max"
      "query_slot_state env (si_instance_slug i) (si_slot_id i) db = Inr current"
      "\<And>c. current = Some c \<Longrightarrow> newer_than i t c"
proof -
  have "(\<not> committed \<and> db' = db \<and> validate_slot_transition i t = Inr ())
    \<or> (committed \<and> validate_slot_transition i t = Inr () \<and> apply_slot_transition env now i t db = Inr db'
       \<and> uint (sl_generation t) \<le> i64_max \<and> uint (sl_sequence t) \<le> i64_max
       \<and> (\<exists>current. query_slot_state env (si_instance_slug i) (si_slot_id i) db = Inr current
            \<and> (\<forall>c. current = Some c \<longrightarrow> newer_than i t c)))"
    using assms
    by (auto simp: record_slot_transition_in_transaction_def try_sum_Inr not_less dest!: judge_Inr
        split: if_splits option.splits)
  then show thesis using replay won by blast
qed

lemma slot_transition_wf:
  assumes "record_slot_transition_in_transaction env now i t db = Inr (committed, db')" "store_wf c db"
  shows "store_wf c db'"
  using assms(1)
proof (cases rule: slot_transition_Inr)
  case won
  then show ?thesis
    using apply_slot_transition_wf [OF won(3) assms(2)] validate_slot_transition_Inr [OF won(2)] by blast
qed (use assms(2) in simp)

section \<open>The request ledger\<close>

lemma length_filter_not_in:
  assumes "distinct (map fst t)" "mset (map fst t) = mset ks"
  shows "length (filter (\<lambda>(k, r). k \<notin> set (drop n ks)) t) \<le> n"
proof -
  have d: "distinct ks" using assms by (metis mset_eq_imp_distinct_iff)
  have "length (filter (\<lambda>(k, r). k \<notin> set (drop n ks)) t) = length (filter (\<lambda>k. k \<notin> set (drop n ks)) (map fst t))"
    by (simp add: filter_map comp_def case_prod_unfold)
  also have "\<dots> = size (filter_mset (\<lambda>k. k \<notin> set (drop n ks)) (mset ks))"
    using assms(2) by (metis mset_filter size_mset)
  also have "\<dots> = length (filter (\<lambda>k. k \<notin> set (drop n ks)) ks)"
    by (metis mset_filter size_mset)
  also have "\<dots> = length (filter (\<lambda>k. k \<notin> set (drop n ks)) (take n ks @ drop n ks))" by simp
  also have "\<dots> \<le> length (take n ks)"
  proof -
    have "filter (\<lambda>k. k \<notin> set (drop n ks)) (drop n ks) = []" by (simp add: filter_empty_conv)
    then show ?thesis by (simp only: filter_append append_Nil2 length_filter_le)
  qed
  finally show ?thesis by simp
qed

lemma requests_of_insert:
  "requests_of inst slot_id (insert_slot_request i r t db) =
     requests_of inst slot_id db @
       (if inst = si_instance_slug i \<and> slot_id = si_slot_id i
        then [last (slot_transition_requests (insert_slot_request i r t db))] else [])"
  by (auto simp: requests_of_def insert_slot_request_def tbl_insert_def)

lemma requests_of_prune:
  "requests_of inst slot_id (prune_slot_transition_requests i db) =
     filter (\<lambda>(k, r). k \<notin> set (expired_requests (si_instance_slug i) (si_slot_id i) db))
       (requests_of inst slot_id db)"
  by (simp add: requests_of_def prune_slot_transition_requests_def Let_def filter_filter conj_commute
      case_prod_unfold)

lemma length_requests_of_prune:
  assumes "distinct (map fst (slot_transition_requests db))"
  shows "length (requests_of (si_instance_slug i) (si_slot_id i) (prune_slot_transition_requests i db))
    \<le> SLOT_TRANSITION_REQUEST_CAP"
proof -
  let ?t = "requests_of (si_instance_slug i) (si_slot_id i) db"
  let ?ks = "map fst (rev (sort_key (\<lambda>(k, r). request_order (r, snd (snd k))) ?t))"
  have "expired_requests (si_instance_slug i) (si_slot_id i) db = drop SLOT_TRANSITION_REQUEST_CAP ?ks"
    by (simp add: expired_requests_def requests_of_def)
  moreover have "mset (map fst ?t) = mset ?ks" by simp
  moreover have "distinct (map fst ?t)" using assms by (simp add: requests_of_def distinct_map_filter)
  ultimately show ?thesis
    unfolding requests_of_prune by (simp only: length_filter_not_in)
qed

text \<open>Operations that do not touch the ledger leave it alone.\<close>

lemma slot_transition_requests_same:
  assumes "record_slot_transition_in_transaction env now i t db = Inr (committed, db')"
  shows "slot_transition_requests db' = slot_transition_requests db"
  using assms
proof (cases rule: slot_transition_Inr)
  case won
  then show ?thesis
    by (auto simp: apply_slot_transition_def append_event_in_transaction_def try_sum_Inr Let_def
        insert_event_def dest!: append_event_Inr(3))
qed simp

lemma store_wf_mono: "store_wf c db \<Longrightarrow> c \<le> d \<Longrightarrow> store_wf d db"
  unfolding store_wf_def slots_wf_def by (meson order_trans)

lemma insert_slot_request_wf:
  assumes "store_wf c db"
    and "map_of (slot_transition_requests db) (si_instance_slug i, si_slot_id i, rq_request_key r) = None"
  shows "store_wf (Suc c) (insert_slot_request i r t db)"
proof (rule store_wf_slots)
  show "slots_wf (Suc c) (insert_slot_request i r t db)"
    using assms
    by (auto simp: store_wf_def slots_wf_def requests_of_insert le_SucI)
      (auto simp: insert_slot_request_def tbl_insert_def map_of_eq_None_iff)
  show "insert_slot_request i r t db = db\<lparr>slots := slots db,
      slot_transition_requests := slot_transition_requests (insert_slot_request i r t db)\<rparr>"
    by (simp add: insert_slot_request_def)
  show "store_wf (Suc c) db" using assms(1) by (rule store_wf_mono) simp
qed

text \<open>An allocated transition is newer than the row it was allocated from, so it is never a replay.\<close>

lemma allocated_is_new:
  assumes "next_sequence_of (Some c) (rq_generation r) = Inr n" "\<not> rq_generation r < sr_generation c"
    and "judge_slot_transition i (allocated_transition r n) c raw = Inr v"
  shows "v = None"
proof -
  have a: "sl_generation (allocated_transition r m) = rq_generation r" "sl_sequence (allocated_transition r m) = m" for m
    by (simp_all add: allocated_transition_def Let_def)
  have "sr_transition_sequence c < sr_transition_sequence c + 1" if "sr_transition_sequence c \<noteq> - 1"
    using that by (meson inc_less_eq_triv_imp not_le)
  then show ?thesis
    using assms
    by (auto simp: next_sequence_of_def judge_slot_transition_def a split: if_splits sum.splits)
qed

lemma record_next_Inr:
  assumes "record_next_in_transaction env i r db = Inr (committed, db')"
  obtains (replay) "\<not> committed" "db' = db"
      "map_of (slot_transition_requests db) (si_instance_slug i, si_slot_id i, rq_request_key r) \<noteq> None"
    | (won) current n db1 where "committed"
      "query_slot_state env (si_instance_slug i) (si_slot_id i) db = Inr current"
      "next_sequence_of current (rq_generation r) = Inr n"
      "map_of (slot_transition_requests db) (si_instance_slug i, si_slot_id i, rq_request_key r) = None"
      "record_slot_transition_in_transaction env (clock env 0) i (allocated_transition r n)
         (insert_slot_request i r (allocated_transition r n) db) = Inr (True, db1)"
      "db' = prune_slot_transition_requests i db1"
proof (cases "map_of (slot_transition_requests db) (si_instance_slug i, si_slot_id i, rq_request_key r)")
  case (Some old)
  then show thesis
    using assms replay by (auto simp: record_next_in_transaction_def try_sum_Inr split: if_splits)
next
  case None
  obtain current n db1 where c: "query_slot_state env (si_instance_slug i) (si_slot_id i) db = Inr current"
      "next_sequence_of current (rq_generation r) = Inr n"
      "record_slot_transition_in_transaction env (clock env 0) i (allocated_transition r n)
         (insert_slot_request i r (allocated_transition r n) db) = Inr (committed, db1)"
      "db' = (if committed then prune_slot_transition_requests i db1 else db1)"
      "case current of None \<Rightarrow> True | Some c \<Rightarrow> \<not> rq_generation r < sr_generation c"
    using assms None
    by (auto simp: record_next_in_transaction_def try_sum_Inr Let_def split: if_splits option.splits)
  have q: "query_slot_state env a b (insert_slot_request i r t db) = query_slot_state env a b db" for a b t
    by (simp add: query_slot_state_def insert_slot_request_def)
  have "committed"
    using c(2,3,5)
    by (auto simp: record_slot_transition_in_transaction_def try_sum_Inr q c(1)
        dest: allocated_is_new [rotated 2]
        split: if_splits option.splits)
  then show thesis using won c None by simp
qed

lemma record_next_wf:
  assumes "record_next_in_transaction env i r db = Inr (committed, db')" "store_wf SLOT_TRANSITION_REQUEST_CAP db"
  shows "store_wf SLOT_TRANSITION_REQUEST_CAP db'"
  using assms(1)
proof (cases rule: record_next_Inr)
  case (won current n db1)
  let ?c = SLOT_TRANSITION_REQUEST_CAP
  let ?db0 = "insert_slot_request i r (allocated_transition r n) db"
  have wf1: "store_wf (Suc ?c) db1"
    using slot_transition_wf [OF won(5)] insert_slot_request_wf [OF assms(2) won(4)] by blast
  have same: "requests_of a b db1 = requests_of a b ?db0" for a b
    using slot_transition_requests_same [OF won(5)] by (simp add: requests_of_def)
  have d: "distinct (map fst (slot_transition_requests db1))"
    using wf1 by (simp add: store_wf_def slots_wf_def)
  have cap: "length (requests_of a b db') \<le> ?c" for a b
  proof (cases "a = si_instance_slug i \<and> b = si_slot_id i")
    case True
    then show ?thesis using length_requests_of_prune [OF d] won(6) by simp
  next
    case False
    then have "requests_of a b db1 = requests_of a b db" by (auto simp: same requests_of_insert)
    then have "length (requests_of a b db') \<le> length (requests_of a b db)"
      by (simp add: won(6) requests_of_prune)
    also have "\<dots> \<le> ?c" using assms(2) by (simp add: store_wf_def slots_wf_def)
    finally show ?thesis .
  qed
  have db': "db' = db1\<lparr>slots := slots db1, slot_transition_requests := slot_transition_requests db'\<rparr>"
    by (simp add: won(6) prune_slot_transition_requests_def Let_def)
  have "slots_wf ?c db'"
    using wf1 cap d
    by (auto simp: store_wf_def slots_wf_def won(6) prune_slot_transition_requests_def Let_def distinct_map_filter)
  then show ?thesis
    using wf1 db' by (auto simp: store_wf_def won(6) prune_slot_transition_requests_def Let_def wf_parts)
qed (use assms(2) in simp)

section \<open>Lifecycle operations\<close>

lemma store_wf_lifecycle:
  assumes "store_wf c db" "lifecycle_wf db'" and "db' = db\<lparr>instances := t, lifecycle_operations := q\<rparr>"
  shows "store_wf c db'"
  using assms by (simp add: store_wf_def wf_parts)

lemma operation_count_reclaim: "operation_count a (reclaim_operations inst cutoff db) \<le> operation_count a db"
proof -
  have "length (filter P (filter Q xs)) \<le> length (filter P xs)" for P Q and xs :: "'a list"
    by (induction xs) auto
  then show ?thesis unfolding operation_count_def reclaim_operations_def by simp
qed

lemma reclaim_wf: "lifecycle_wf db \<Longrightarrow> lifecycle_wf (reclaim_operations inst cutoff db)"
  unfolding lifecycle_wf_def using order_trans [OF operation_count_reclaim]
  by (simp add: distinct_map_filter) (simp add: reclaim_operations_def distinct_map_filter)

text \<open>The case split of an intent: the operation already recorded under its key, or a fresh one.\<close>

lemma lifecycle_Inr:
  assumes "record_lifecycle_in_transaction env r db = Inr ((op, fresh), db')"
  obtains (replay) "\<not> fresh" "db' = db" "same_request op r"
      "lifecycle_operation_query env (lr_instance_slug r) (lr_idempotency_key r) db = Inr (Some op)"
    | (fresh) db1 where "fresh"
      "db1 = db \<or> (\<exists>cutoff. db1 = reclaim_operations (lr_instance_slug r) cutoff db)"
      "map_of (lifecycle_operations db) (lr_instance_slug r, lr_idempotency_key r) = None"
      "operation_count (lr_instance_slug r) db1 < MAX_LIFECYCLE_OPERATIONS_PER_INSTANCE"
      "lr_operation_id r \<notin> o_operation_id ` snd ` set (lifecycle_operations db1)"
      "lr_expected_version r \<in> {None, Some (current_version (lr_instance_slug r) db)}"
      "lo_resource_version op = saturating_add_word (current_version (lr_instance_slug r) db) 1"
      "db' = accept_intent env (clock env 1) r (lo_resource_version op) db1"
      "op = accepted_operation r (lo_resource_version op) (clock env 1)"
      "\<And>v. lr_expected_version r = Some v \<Longrightarrow> uint v \<le> i64_max"
proof (cases "lifecycle_operation_query env (lr_instance_slug r) (lr_idempotency_key r) db")
  case (Inr existing)
  show thesis
  proof (cases existing)
    case (Some old)
    then show thesis
      using assms Inr replay by (auto simp: record_lifecycle_in_transaction_def split: if_splits)
  next
    case None
    have none: "map_of (lifecycle_operations db) (lr_instance_slug r, lr_idempotency_key r) = None"
      using Inr None by (auto simp: lifecycle_operation_query_def try_sum_Inr split: option.splits)
    have v: "current_version inst (reclaim_operations a b db) = current_version inst db" for inst a b
      by (simp add: current_version_def reclaim_operations_def)
    let ?s = "lr_instance_slug r"
    let ?cutoff = "rfc3339 env (Timestamp_minus (clock env 0) LIFECYCLE_OPERATION_RETENTION)"
    define db1 where "db1 =
      (if MAX_LIFECYCLE_OPERATIONS_PER_INSTANCE \<le> operation_count ?s db then reclaim_operations ?s ?cutoff db else db)"
    have v1: "current_version ?s db1 = current_version ?s db" by (simp add: db1_def v)
    show thesis
    proof (rule fresh)
      show "db1 = db \<or> (\<exists>cutoff. db1 = reclaim_operations ?s cutoff db)" by (auto simp: db1_def)
    qed (use assms Inr None none in \<open>auto simp: record_lifecycle_in_transaction_def Let_def db1_def [symmetric]
          v1 not_le not_less list_ex_iff accepted_operation_def split: if_splits option.splits\<close>)
  qed
qed (use assms in \<open>simp add: record_lifecycle_in_transaction_def\<close>)

lemma accept_intent_wf:
  assumes "lifecycle_wf db" "operation_count (lr_instance_slug r) db < MAX_LIFECYCLE_OPERATIONS_PER_INSTANCE"
    and "map_of (lifecycle_operations db) (lr_instance_slug r, lr_idempotency_key r) = None"
    and "lr_operation_id r \<notin> o_operation_id ` snd ` set (lifecycle_operations db)"
  shows "lifecycle_wf (accept_intent env at r v db)"
  using assms
  by (auto simp: lifecycle_wf_def accept_intent_def Let_def operation_count_def tbl_insert_def
      map_of_eq_None_iff image_iff distinct_tbl_upsert le_Suc_eq less_Suc_eq_le [symmetric])

lemma lifecycle_operation_wf:
  assumes "record_lifecycle_in_transaction env r db = Inr (res, db')" "store_wf c db"
  shows "store_wf c db'"
proof -
  obtain op fresh where "res = (op, fresh)" by (cases res)
  then have "record_lifecycle_in_transaction env r db = Inr ((op, fresh), db')" using assms(1) by simp
  then show ?thesis
  proof (cases rule: lifecycle_Inr)
    case (fresh db1)
    have none: "map_of (lifecycle_operations db1) (lr_instance_slug r, lr_idempotency_key r) = None"
      using fresh(2,3) by (auto simp: reclaim_operations_def map_of_eq_None_iff image_iff)
    have "lifecycle_wf db1" using fresh(2) assms(2) reclaim_wf by (auto simp: store_wf_def)
    then have "lifecycle_wf db'" using accept_intent_wf [OF _ fresh(4) none fresh(5)] fresh(8) by simp
    moreover have "db' = db\<lparr>instances := instances db', lifecycle_operations := lifecycle_operations db'\<rparr>"
      using fresh(2) by (auto simp: fresh(8) accept_intent_def Let_def reclaim_operations_def)
    ultimately show ?thesis using assms(2) store_wf_lifecycle by blast
  qed (use assms(2) in simp)
qed

lemma map_rows:
  "map fst (map (\<lambda>(k, r). if P k r then (k, f r) else (k, r)) t) = map fst t"
  "length (filter (\<lambda>(k, _). Q k) (map (\<lambda>(k, r). if P k r then (k, f r) else (k, r)) t)) =
     length (filter (\<lambda>(k, _). Q k) t)"
  "(\<And>r. g (f r) = g r) \<Longrightarrow>
     map (\<lambda>(_, r). g r) (map (\<lambda>(k, r). if P k r then (k, f r) else (k, r)) t) = map (\<lambda>(_, r). g r) t"
  by (induction t) (auto split: if_splits)

lemma observe_Inr:
  assumes "observe_in_transaction env inst observed expected db = Inr ((row, changed), db')"
  obtains (stale) "\<not> changed" "db' = db" "lifecycle_instance inst db = Inr (Some row)"
      "li_resource_version row \<noteq> expected"
    | (confirmed) current where "changed" "lifecycle_instance inst db = Inr (Some current)"
      "li_resource_version current = expected"
      "row = current\<lparr>li_observed_state := observed, li_resource_version := saturating_add_word expected 1\<rparr>"
      "db' = observe_instance env inst observed expected (saturating_add_word expected 1) db"
  using assms that
  by (auto simp: observe_in_transaction_def try_sum_Inr Let_def split: option.splits if_splits)

lemma observe_wf:
  assumes "observe_in_transaction env inst observed expected db = Inr (res, db')" "store_wf c db"
  shows "store_wf c db'"
proof -
  have "lifecycle_wf (observe_instance env inst observed expected v db)" for v
    using assms(2) by (simp add: store_wf_def lifecycle_wf_def observe_instance_def operation_count_def map_rows
        del: map_map length_filter_map)
  then have "store_wf c (observe_instance env inst observed expected v db)" for v
    using assms(2) by (rule_tac store_wf_lifecycle) (simp_all add: observe_instance_def)
  moreover obtain row changed where "res = (row, changed)" by (cases res)
  ultimately show ?thesis using assms by (metis observe_Inr)
qed

end
