(* ===== verification/Store_Calls.thy ===== *)
theory Store_Calls
  imports Store_Invariants
begin

text \<open>
  Executions of the operational store: every operation that writes, as a call, and sequences of
  calls.  The invariant of the store holds in every state an execution reaches.
\<close>

section \<open>Calls\<close>

datatype StoreCall =
    Upsert_Instance InstanceRow
  | Upsert_Runner_Registration RunnerRegistrationRow
  | Record_Lifecycle_Operation LifecycleOperationRequest
  | Record_Lifecycle_Observed string string u64
  | Record_Slot_Transition SlotIdentity SlotTransition
  | Record_Next_Slot_Transition SlotIdentity SlotTransitionRequest
  | Record_Job JobRow
  | Persist_Summary JobSummary
  | Persist_Summary_And_Transition JobSummary string string Transition
  | Persist_Summary_And_Transition_With_Budget JobSummary string string Transition RetentionMaintenanceBudget
  | Record_Job_Transition string string Transition
  | Release_Job_Storage_Reservation string string
  | Append_Event EventRow
  | Start_Reconciliation string string string Timestamp
  | Finish_Reconciliation string int string Timestamp "string option"

fun apply_store_call :: "StoreEnv \<Rightarrow> StoreCall \<Rightarrow> Store \<Rightarrow> Store" where
  "apply_store_call env (Upsert_Instance row) S = snd (upsert_instance env row S)"
| "apply_store_call env (Upsert_Runner_Registration row) S = snd (upsert_runner_registration env row S)"
| "apply_store_call env (Record_Lifecycle_Operation r) S = snd (record_lifecycle_operation env r S)"
| "apply_store_call env (Record_Lifecycle_Observed inst observed v) S =
     snd (record_lifecycle_observed env inst observed v S)"
| "apply_store_call env (Record_Slot_Transition i t) S = snd (record_slot_transition env i t S)"
| "apply_store_call env (Record_Next_Slot_Transition i r) S = snd (record_next_slot_transition env i r S)"
| "apply_store_call env (Record_Job row) S = snd (record_job env row S)"
| "apply_store_call env (Persist_Summary s) S = snd (persist_summary env s S)"
| "apply_store_call env (Persist_Summary_And_Transition s inst uid tr) S =
     snd (persist_summary_and_transition env s inst uid tr S)"
| "apply_store_call env (Persist_Summary_And_Transition_With_Budget s inst uid tr b) S =
     snd (persist_summary_and_transition_with_budget env s inst uid tr b S)"
| "apply_store_call env (Record_Job_Transition inst uid tr) S = snd (record_job_transition env inst uid tr S)"
| "apply_store_call env (Release_Job_Storage_Reservation inst uid) S =
     snd (release_job_storage_reservation inst uid S)"
| "apply_store_call env (Append_Event row) S = snd (append_event env row S)"
| "apply_store_call env (Start_Reconciliation inst k subject at) S =
     snd (start_reconciliation env inst k subject at S)"
| "apply_store_call env (Finish_Reconciliation inst rid status at detail) S =
     snd (finish_reconciliation env inst rid status at detail S)"

definition run_store_calls :: "(StoreEnv \<times> StoreCall) list \<Rightarrow> Store \<Rightarrow> Store" where
  "run_store_calls cs S = fold (\<lambda>(env, c). apply_store_call env c) cs S"

lemma run_store_calls_simps [simp]:
  "run_store_calls [] S = S"
  "run_store_calls (c # cs) S = run_store_calls cs (apply_store_call (fst c) (snd c) S)"
  by (simp_all add: run_store_calls_def case_prod_unfold)

lemma run_store_calls_append: "run_store_calls (cs @ ds) S = run_store_calls ds (run_store_calls cs S)"
  by (induction cs arbitrary: S) auto

lemma run_store_simps [simp]:
  "store_db (snd (run_store (Commit a db) S)) = db"
  "store_db (snd (run_store (Rollback a) S)) = store_db S"
  "store_db (snd (run_store (Abort e) S)) = store_db S"
  by (auto simp: run_store_def split: prod.splits)

section \<open>Properties kept by the transaction bodies\<close>

text \<open>
  A property of the database that every transaction body of the store keeps is kept by every call
  and every execution.  The bodies are the ones the public operations are composed of.  Calls on
  jobs, slots and events do not involve the bodies that write instances and lifecycle operations,
  so the contract comes in two parts.
\<close>

fun lifecycle_call :: "StoreCall \<Rightarrow> bool" where
  "lifecycle_call (Upsert_Instance row) = True"
| "lifecycle_call (Record_Lifecycle_Operation r) = True"
| "lifecycle_call (Record_Lifecycle_Observed inst observed v) = True"
| "lifecycle_call _ = False"

locale job_steps =
  fixes P :: "OpDb \<Rightarrow> bool"
  assumes append: "append_event_with_ancestry env now row a b db = Inr (eid, db') \<Longrightarrow> P db \<Longrightarrow> P db'"
    and summary: "insert_summary env now s db = Inr db' \<Longrightarrow> P db \<Longrightarrow> P db'"
    and job_upsert: "P db \<Longrightarrow> P (upsert_job key new f db)"
    and job_transition: "record_job_transition_in_transaction env now inst uid tr db = Inr (applied, db') \<Longrightarrow> P db \<Longrightarrow> P db'"
    and reserve: "insert_job_storage_reservation env now inst uid db = Inr db' \<Longrightarrow> P db \<Longrightarrow> P db'"
    and unreserve: "delete_job_storage_reservation inst uid db = Inr (deleted, db') \<Longrightarrow> P db \<Longrightarrow> P db'"
    and slot_transition: "record_slot_transition_in_transaction env now i t db = Inr (committed, db') \<Longrightarrow> P db \<Longrightarrow> P db'"
    and next_slot_transition: "record_next_in_transaction env i r db = Inr (committed, db') \<Longrightarrow> P db \<Longrightarrow> P db'"
    and registrations: "P db \<Longrightarrow> P (db\<lparr>runner_registrations := tbl_upsert rkey rrow h (runner_registrations db)\<rparr>)"
    and start: "P db \<Longrightarrow> P (db\<lparr>reconciliations := tbl_insert (reconciliation_seq db + 1) crow (reconciliations db),
       reconciliation_seq := reconciliation_seq db + 1\<rparr>)"
    and finish: "P db \<Longrightarrow> P (db\<lparr>reconciliations := tbl_update rid p k (reconciliations db)\<rparr>)"
begin

lemma ensure: "ensure_job_storage_reservation env now inst uid db = Inr db' \<Longrightarrow> P db \<Longrightarrow> P db'"
  by (auto simp: ensure_job_storage_reservation_def elim: reserve split: if_splits)

lemmas commit = run_store_keeps [where P = P]

lemma record_job_keeps: "P (store_db S) \<Longrightarrow> P (store_db (snd (record_job env row S)))"
  unfolding record_job_def Let_def
  by (auto simp: try_sum_Inr split: sum.split intro!: job_upsert commit elim!: ensure)

lemma persist_summary_and_transition_keeps:
  assumes "P (store_db S)"
  shows "P (store_db (snd (persist_summary_and_transition env s inst uid tr S)))"
proof -
  let ?m = "try_sum (plain (insert_summary env (clock env 0) s (store_db S))) (\<lambda>db1.
    try_sum (plain (ensure_job_storage_reservation env (clock env 1) inst uid db1)) (\<lambda>db2.
    try_sum (record_job_transition_in_transaction env (clock env 2) inst uid tr db2)
      (\<lambda>(_, db3). Inr ((), db3))))"
  have "P (store_db (snd (run_store (commit_of ?m) S)))"
    using assms by (intro commit) (auto simp: try_sum_Inr, metis job_transition ensure summary)
  then show ?thesis using assms by (simp add: persist_summary_and_transition_def Let_def)
qed

lemma admitted_keeps:
  assumes "P (store_db S)"
  shows "P (store_db (snd (run_store (commit_of
     (try_sum (plain (if replay then Inr (store_db S) else insert_summary env (clock env 0) s (store_db S))) (\<lambda>db1.
      try_sum (plain (if additional then insert_job_storage_reservation env (clock env 1) inst uid db1 else Inr db1))
        (\<lambda>db2. try_sum (record_job_transition_in_transaction env (clock env 2) inst uid tr db2)
          (\<lambda>(_, db3). Inr (status, db3)))))) S)))"
    (is "P (store_db (snd (run_store (commit_of ?m) S)))")
proof (intro commit assms)
  fix a db assume "?m = Inr (a, db)"
  then obtain db1 db2 applied where
    "(if replay then Inr (store_db S) else insert_summary env (clock env 0) s (store_db S)) = Inr db1"
    "(if additional then insert_job_storage_reservation env (clock env 1) inst uid db1 else Inr db1) = Inr db2"
    and db: "record_job_transition_in_transaction env (clock env 2) inst uid tr db2 = Inr (applied, db)"
    by (auto simp: try_sum_Inr)
  then have "P db2" using assms summary reserve by (metis Inr_inject)
  then show "P db" using db by (rule job_transition [rotated])
qed

lemma persist_with_budget_keeps:
  assumes "P (store_db S)"
  shows "P (store_db (snd (persist_summary_and_transition_with_budget env s inst uid tr b S)))"
proof -
  let ?replay = "transition_token_exists (store_db S) inst uid (tr_token tr)"
  let ?admission = "try_sum (if ?replay then Inr 0 else admission_reservation_bytes inst uid (store_db S))
    (\<lambda>additional. try_sum (physical_budget_status_with_reservation env b additional (store_db S))
      (\<lambda>status. Inr (additional, status)))"
  show ?thesis
  proof (cases ?admission)
    case (Inl e)
    then show ?thesis
      using assms unfolding persist_summary_and_transition_with_budget_def Let_def by (simp only: sum.case) simp
  next
    case (Inr r)
    obtain additional status where r: "r = (additional, status)" by (cases r)
    show ?thesis
      using assms admitted_keeps [OF assms, of ?replay env s "additional \<noteq> 0" inst uid tr status]
      unfolding persist_summary_and_transition_with_budget_def Let_def Inr r sum.case prod.case
      by (cases "admits_job status"; cases "js_instance_slug s \<noteq> inst \<or> js_job_uid s \<noteq> uid")
        (simp_all only: if_True if_False not_True_eq_False not_False_eq_True snd_conv run_store_simps)
  qed
qed

lemma next_slot_transition_keeps: "P (store_db S) \<Longrightarrow> P (store_db (snd (record_next_slot_transition env i r S)))"
  unfolding record_next_slot_transition_def
  by (auto split: sum.split intro!: commit elim: next_slot_transition)

lemma release_keeps: "P (store_db S) \<Longrightarrow> P (store_db (snd (release_job_storage_reservation inst uid S)))"
  unfolding release_job_storage_reservation_def by (auto intro!: commit elim: unreserve)

lemma append_event_keeps: "P (store_db S) \<Longrightarrow> P (store_db (snd (append_event env row S)))"
  unfolding append_event_def append_event_in_transaction_def by (auto intro!: commit elim: append)

lemma job_call_keeps:
  assumes "P (store_db S)" "\<not> lifecycle_call c"
  shows "P (store_db (apply_store_call env c S))"
proof (cases c)
  case (Persist_Summary s)
  then show ?thesis using assms(1) by (auto simp: persist_summary_def try_sum_Inr intro!: commit elim: summary)
next
  case (Record_Job_Transition inst uid tr)
  then show ?thesis using assms(1) by (auto simp: record_job_transition_def intro!: commit elim: job_transition)
next
  case (Record_Slot_Transition i t)
  then show ?thesis using assms(1) by (auto simp: record_slot_transition_def intro!: commit elim: slot_transition)
qed (use assms in \<open>simp_all add: record_job_keeps persist_summary_and_transition_keeps persist_with_budget_keeps
    next_slot_transition_keeps release_keeps append_event_keeps registrations start finish
    finish_reconciliation_def upsert_runner_registration_def start_reconciliation_def Let_def\<close>)

lemma job_calls_keep:
  "P (store_db S) \<Longrightarrow> \<forall>(env, c) \<in> set cs. \<not> lifecycle_call c \<Longrightarrow> P (store_db (run_store_calls cs S))"
  by (induction cs arbitrary: S) (auto simp: job_call_keeps)

end

locale store_steps = job_steps +
  assumes intent: "record_lifecycle_in_transaction env q db = Inr (res, db') \<Longrightarrow> P db \<Longrightarrow> P db'"
    and observe: "observe_in_transaction env inst observed expected db = Inr (res', db') \<Longrightarrow> P db \<Longrightarrow> P db'"
    and instances: "P db \<Longrightarrow> P (db\<lparr>instances := tbl_upsert inst irow g (instances db)\<rparr>)"
begin

theorem apply_store_call_keeps:
  assumes "P (store_db S)"
  shows "P (store_db (apply_store_call env c S))"
proof (cases "lifecycle_call c")
  case True
  then show ?thesis
  proof (cases c)
    case (Record_Lifecycle_Operation r)
    then show ?thesis using assms by (auto simp: record_lifecycle_operation_def intro!: commit elim: intent)
  next
    case (Record_Lifecycle_Observed inst observed v)
    then show ?thesis using assms by (auto simp: record_lifecycle_observed_def intro!: commit elim: observe)
  qed (use assms in \<open>simp_all add: upsert_instance_def Let_def instances\<close>)
next
  case False
  then show ?thesis using assms by (rule job_call_keeps [rotated])
qed

theorem run_store_calls_keeps: "P (store_db S) \<Longrightarrow> P (store_db (run_store_calls cs S))"
  by (induction cs arbitrary: S) (auto intro: apply_store_call_keeps)

end

section \<open>The invariant in every execution\<close>

abbreviation store_ok :: "OpDb \<Rightarrow> bool" where
  "store_ok db \<equiv> store_wf SLOT_TRANSITION_REQUEST_CAP db"

lemma others_wf_step:
  assumes "store_wf c db"
  shows "store_wf c (db\<lparr>instances := tbl_upsert k new f (instances db)\<rparr>)"
    "store_wf c (db\<lparr>runner_registrations := tbl_upsert k' new' f' (runner_registrations db)\<rparr>)"
    "store_wf c (db\<lparr>reconciliations := tbl_insert (reconciliation_seq db + 1) row (reconciliations db),
       reconciliation_seq := reconciliation_seq db + 1\<rparr>)"
    "store_wf c (db\<lparr>reconciliations := tbl_update rid p g (reconciliations db)\<rparr>)"
  using assms ids_wf_map [of "tbl_update rid p g (reconciliations db)" "reconciliations db"]
  by (simp_all add: store_wf_def wf_parts distinct_tbl_upsert ids_wf_insert)

interpretation wf: store_steps "store_wf SLOT_TRANSITION_REQUEST_CAP"
  by unfold_locales
    (fact append_event_wf insert_summary_wf upsert_job_wf job_transition_wf insert_reservation_wf
      delete_reservation_wf slot_transition_wf record_next_wf lifecycle_operation_wf observe_wf others_wf_step)+

text \<open>C4. The invariant of the operational store.  Every sequence of writing calls, in every environment,
  from an empty store, leaves a database in which keys and row ids are unique and ascending, the
  retained event window of each instance covers its events, every event that names a transition
  belongs to that transition's job, the totals kept by triggers equal the rows, and both idempotency
  ledgers are within their bounds.\<close>

theorem store_executions_keep_invariant:
  "store_wf SLOT_TRANSITION_REQUEST_CAP
     (store_db (run_store_calls cs \<lparr>store_db = empty_db, illegal_transition_edges = n\<rparr>))"
  using wf.run_store_calls_keeps empty_db_wf by simp

end
