(* ===== verification/Store_History.thy ===== *)
theory Store_History
  imports Store_Calls
begin

text \<open>
  What an execution of the operational store never takes back: events and transitions are append
  only, job rows and slots stay, the identity of a slot is fixed, and its generation and sequence
  only go up.  The exactly-once and fencing properties of the store rest on these facts.
\<close>

section \<open>Evolution of a database\<close>

definition extends :: "'a list \<Rightarrow> 'a list \<Rightarrow> bool" where
  "extends xs ys \<longleftrightarrow> (\<exists>zs. ys = xs @ zs)"

lemma extends_refl [simp]: "extends xs xs"
  by (simp add: extends_def)

lemma extends_trans: "extends xs ys \<Longrightarrow> extends ys zs \<Longrightarrow> extends xs zs"
  by (auto simp: extends_def)

lemma extends_insert [simp]: "extends t (tbl_insert k r t)"
  by (simp add: extends_def tbl_insert_def)

lemma extends_set: "extends xs ys \<Longrightarrow> set xs \<subseteq> set ys"
  by (auto simp: extends_def)

definition slot_le :: "SlotDbRow \<Rightarrow> SlotDbRow \<Rightarrow> bool" where
  "slot_le s s' \<longleftrightarrow>
     s_host s' = s_host s \<and> s_slot_index s' = s_slot_index s \<and> s_slot_kind s' = s_slot_kind s
     \<and> (s_generation s < s_generation s'
        \<or> s_generation s = s_generation s' \<and> s_transition_sequence s \<le> s_transition_sequence s')"

lemma slot_le_refl [simp]: "slot_le s s"
  by (simp add: slot_le_def)

lemma slot_le_trans: "slot_le a b \<Longrightarrow> slot_le b c \<Longrightarrow> slot_le a c"
  by (auto simp: slot_le_def)

definition slots_le :: "(string \<times> string, SlotDbRow) table \<Rightarrow> (string \<times> string, SlotDbRow) table \<Rightarrow> bool" where
  "slots_le t t' \<longleftrightarrow> (\<forall>k s. map_of t k = Some s \<longrightarrow> (\<exists>s'. map_of t' k = Some s' \<and> slot_le s s'))"

lemma slots_le_refl [simp]: "slots_le t t"
  by (simp add: slots_le_def)

lemma slots_le_trans: "slots_le a b \<Longrightarrow> slots_le b c \<Longrightarrow> slots_le a c"
  unfolding slots_le_def by (meson slot_le_trans)

definition evolves :: "OpDb \<Rightarrow> OpDb \<Rightarrow> bool" where
  "evolves db db' \<longleftrightarrow>
     extends (events db) (events db') \<and> event_seq db \<le> event_seq db'
     \<and> (\<forall>(k, e) \<in> set (events db'). (k, e) \<in> set (events db) \<or> event_seq db < k)
     \<and> extends (job_transitions db) (job_transitions db')
     \<and> set (map fst (jobs db)) \<subseteq> set (map fst (jobs db'))
     \<and> slots_le (slots db) (slots db')"

lemma evolves_refl [simp]: "evolves db db"
  by (auto simp: evolves_def)

lemma evolves_trans [trans]: "evolves a b \<Longrightarrow> evolves b c \<Longrightarrow> evolves a c"
  unfolding evolves_def
  by (intro conjI; (meson extends_trans slots_le_trans order_trans)?) fastforce

text \<open>Every operation but the allocation of a slot transition also leaves the request ledger alone.\<close>

definition quiet :: "OpDb \<Rightarrow> OpDb \<Rightarrow> bool" where
  "quiet db db' \<longleftrightarrow> evolves db db' \<and> slot_transition_requests db' = slot_transition_requests db"

lemma quiet_refl [simp]: "quiet db db"
  by (simp add: quiet_def)

lemma quiet_trans [trans]: "quiet a b \<Longrightarrow> quiet b c \<Longrightarrow> quiet a c"
  unfolding quiet_def using evolves_trans by auto

lemma quiet_evolves: "quiet db db' \<Longrightarrow> evolves db db'"
  by (simp add: quiet_def)

text \<open>Changes to other tables are no change at all.\<close>

lemma quiet_same:
  assumes "events db' = events db" "event_seq db' = event_seq db" "job_transitions db' = job_transitions db"
    "jobs db' = jobs db" "slots db' = slots db" "slot_transition_requests db' = slot_transition_requests db"
  shows "quiet db db'"
  using assms by (auto simp: quiet_def evolves_def)

section \<open>Every operation evolves the database\<close>

lemma append_event_quiet:
  assumes "append_event_with_ancestry env now row a b db = Inr (eid, db')"
  shows "quiet db db'"
  using append_event_Inr(3) [OF assms] by (auto simp: quiet_def evolves_def insert_event_def)

lemma insert_transition_quiet: "quiet db (insert_transition env inst uid tr db)"
  by (auto simp: quiet_def evolves_def insert_transition_def)

lemma move_job_quiet: "quiet db (move_job env inst uid tr target db)"
  by (auto simp: quiet_def evolves_def move_job_def simp del: set_map)

lemma upsert_job_quiet: "quiet db (upsert_job key new f db)"
  using keys_tbl_upsert [of key new f "jobs db"] by (auto simp: quiet_def evolves_def upsert_job_def simp del: set_map)

lemma insert_reservation_quiet:
  "insert_job_storage_reservation env now inst uid db = Inr db' \<Longrightarrow> quiet db db'"
  by (auto simp: insert_job_storage_reservation_def intro!: quiet_same split: if_splits)

lemma ensure_reservation_quiet:
  "ensure_job_storage_reservation env now inst uid db = Inr db' \<Longrightarrow> quiet db db'"
  by (auto simp: ensure_job_storage_reservation_def insert_reservation_quiet split: if_splits)

lemma delete_reservation_quiet:
  "delete_job_storage_reservation inst uid db = Inr (b, db') \<Longrightarrow> quiet db db'"
  by (auto simp: delete_job_storage_reservation_def intro!: quiet_same split: option.splits if_splits)

lemma insert_summary_quiet: "insert_summary env now s db = Inr db' \<Longrightarrow> quiet db db'"
  by (auto simp: insert_summary_def Let_def upsert_job_quiet split: option.splits if_splits)

lemma job_transition_quiet:
  assumes "record_job_transition_in_transaction env now inst uid tr db = Inr (applied, db')"
  shows "quiet db db'"
  using assms
proof (cases rule: job_transition_Inr)
  case (step j src target eid db3)
  have "quiet db (move_job env inst uid tr target (insert_transition env inst uid tr db))"
    using insert_transition_quiet move_job_quiet by (rule quiet_trans)
  also have "quiet \<dots> db3" using step(6) by (rule append_event_quiet)
  also have "quiet db3 db'" using step(7) delete_reservation_quiet by (auto split: if_splits)
  finally show ?thesis .
qed simp

lemma uint_u64_try_from_i64:
  "u64_try_from_i64 i = Some n \<Longrightarrow> i \<le> i64_max \<Longrightarrow> uint n = i"
  by (auto simp: u64_try_from_i64_def uint_word_of_int_eq take_bit_eq_mod i64_max_def split: if_splits)

lemma uint_succ_u64: "uint (x :: u64) \<le> i64_max \<Longrightarrow> uint (x + 1) = uint x + 1"
  using uint_ge_0 [of x] by (simp add: uint_word_ariths i64_max_def)

lemma slot_row_bounds:
  assumes "store_wf c db" "map_of (slots db) k = Some s"
  shows "1 \<le> s_generation s" "s_generation s \<le> i64_max"
    "1 \<le> s_transition_sequence s" "s_transition_sequence s \<le> i64_max"
  using assms(1) map_of_SomeD [OF assms(2)] by (auto simp: store_wf_def slots_wf_def)

lemma query_slot_Inr:
  assumes "query_slot_state env inst sid db = Inr current" "map_of (slots db) (inst, sid) = Some s"
    and "store_wf c db"
  obtains row where "current = Some row" "uint (sr_generation row) = s_generation s"
    "uint (sr_transition_sequence row) = s_transition_sequence s"
    "SlotPhase_try_from (s_phase s) = Some (sr_phase row)"
proof -
  have "\<exists>row. current = Some row \<and> uint (sr_generation row) = s_generation s
    \<and> uint (sr_transition_sequence row) = s_transition_sequence s
    \<and> SlotPhase_try_from (s_phase s) = Some (sr_phase row)"
    using assms(1,2) slot_row_bounds [OF assms(3,2)]
    by (auto simp: query_slot_state_def uint_u64_try_from_i64 split: option.splits)
  then show thesis using that by blast
qed

lemma apply_slot_quiet:
  assumes "apply_slot_transition env now i t db = Inr db'" "store_wf c db"
    and "query_slot_state env (si_instance_slug i) (si_slot_id i) db = Inr current"
    and "\<And>row. current = Some row \<Longrightarrow> newer_than i t row"
  shows "quiet db db'"
proof -
  let ?k = "(si_instance_slug i, si_slot_id i)"
  let ?new = "new_slot_row env i t"
  let ?f = "\<lambda>old. ?new\<lparr>s_host := s_host old, s_slot_index := s_slot_index old, s_slot_kind := s_slot_kind old\<rparr>"
  let ?db1 = "db\<lparr>slots := tbl_upsert ?k ?new ?f (slots db)\<rparr>"
  have "slot_le s (?f s)" if s: "map_of (slots db) ?k = Some s" for s
  proof -
    obtain row where row: "current = Some row" "uint (sr_generation row) = s_generation s"
      "uint (sr_transition_sequence row) = s_transition_sequence s"
      using query_slot_Inr [OF assms(3) s assms(2)] by blast
    have "newer_than i t row" using assms(4) row(1) .
    then show ?thesis
      unfolding newer_than_def slot_le_def new_slot_row_def
      using row(2,3) by (auto simp: word_less_def)
  qed
  then have "slots_le (slots db) (slots ?db1)" by (auto simp: slots_le_def split: option.splits)
  then have "quiet db ?db1" by (auto simp: quiet_def evolves_def)
  also obtain eid where "append_event_with_ancestry env now
      \<lparr>ev_instance_slug = si_instance_slug i, ev_event_kind = EventReason_as_str SlotStateChanged,
       ev_subject = si_slot_id i, ev_correlation_id = Some (sl_correlation_id t),
       ev_occurred_at = sl_transition_time t, ev_detail = Some (slot_transition_detail t)\<rparr> None None ?db1
      = Inr (eid, db')"
    using assms(1) by (auto simp: apply_slot_transition_def append_event_in_transaction_def try_sum_Inr Let_def)
  then have "quiet ?db1 db'" by (rule append_event_quiet)
  finally show ?thesis .
qed

lemma slot_transition_quiet:
  assumes "record_slot_transition_in_transaction env now i t db = Inr (committed, db')" "store_wf c db"
  shows "quiet db db'"
  using assms(1)
proof (cases rule: slot_transition_Inr)
  case (won current)
  show ?thesis using won(3) assms(2) won(6,7) by (rule apply_slot_quiet)
qed simp

lemma lifecycle_quiet:
  assumes "record_lifecycle_in_transaction env r db = Inr (res, db')"
  shows "quiet db db'"
proof -
  obtain op fresh where "res = (op, fresh)" by (cases res)
  then have "record_lifecycle_in_transaction env r db = Inr ((op, fresh), db')" using assms by simp
  then show ?thesis
  proof (cases rule: lifecycle_Inr)
    case (fresh db1)
    have "quiet db db1" using fresh(2) by (auto simp: reclaim_operations_def intro: quiet_same)
    also have "quiet db1 db'" by (rule quiet_same) (simp_all add: fresh(8) accept_intent_def Let_def)
    finally show ?thesis .
  qed simp
qed

lemma observe_quiet:
  assumes "observe_in_transaction env inst observed expected db = Inr (res, db')"
  shows "quiet db db'"
proof -
  obtain row changed where "res = (row, changed)" by (cases res)
  then have "observe_in_transaction env inst observed expected db = Inr ((row, changed), db')" using assms by simp
  then show ?thesis
    by (cases rule: observe_Inr) (auto simp: observe_instance_def intro!: quiet_same)
qed

section \<open>The request ledger stays behind its slots\<close>

text \<open>A remembered request was allocated at or before the slot's current generation and sequence.\<close>

definition behind :: "SlotRequestDbRow \<Rightarrow> SlotDbRow \<Rightarrow> bool" where
  "behind r s \<longleftrightarrow>
     r_generation r < s_generation s
     \<or> r_generation r = s_generation s \<and> r_allocated_sequence r \<le> s_transition_sequence s"

lemma behind_le: "behind r s \<Longrightarrow> slot_le s s' \<Longrightarrow> behind r s'"
  by (auto simp: behind_def slot_le_def)

definition requests_behind :: "OpDb \<Rightarrow> bool" where
  "requests_behind db \<longleftrightarrow>
     (\<forall>((inst, sid, key), r) \<in> set (slot_transition_requests db).
        \<exists>s. map_of (slots db) (inst, sid) = Some s \<and> behind r s)"

lemma requests_behind_evolves:
  assumes "requests_behind db" "evolves db db'"
    and "\<And>inst sid key r. ((inst, sid, key), r) \<in> set (slot_transition_requests db') \<Longrightarrow>
      ((inst, sid, key), r) \<in> set (slot_transition_requests db)
      \<or> (\<exists>s. map_of (slots db') (inst, sid) = Some s \<and> behind r s)"
  shows "requests_behind db'"
proof -
  have "slots_le (slots db) (slots db')" using assms(2) by (simp add: evolves_def)
  then show ?thesis
    unfolding requests_behind_def
  proof (clarify)
    fix inst sid key r assume r: "((inst, sid, key), r) \<in> set (slot_transition_requests db')"
    show "\<exists>s. map_of (slots db') (inst, sid) = Some s \<and> behind r s"
    proof (cases "((inst, sid, key), r) \<in> set (slot_transition_requests db)")
      case True
      then obtain s where "map_of (slots db) (inst, sid) = Some s" "behind r s"
        using assms(1) unfolding requests_behind_def by fast
      then show ?thesis using \<open>slots_le _ _\<close> behind_le unfolding slots_le_def by blast
    next
      case False
      then show ?thesis using assms(3) [OF r] by blast
    qed
  qed
qed

lemma apply_slot_row:
  assumes "apply_slot_transition env now i t db = Inr db'"
  shows "\<exists>s. map_of (slots db') (si_instance_slug i, si_slot_id i) = Some s
    \<and> s_generation s = uint (sl_generation t) \<and> s_transition_sequence s = uint (sl_sequence t)
    \<and> s_phase s = SlotPhase_as_str (sl_target t)"
  using assms
  by (auto simp: apply_slot_transition_def append_event_in_transaction_def try_sum_Inr Let_def new_slot_row_def
      insert_event_def dest!: append_event_Inr(3) split: option.splits)

lemma allocated_transition_sel [simp]:
  "sl_generation (allocated_transition r n) = rq_generation r" "sl_sequence (allocated_transition r n) = n"
  "sl_target (allocated_transition r n) = rq_target r"
  by (simp_all add: allocated_transition_def Let_def)

lemma record_next_evolves:
  assumes "record_next_in_transaction env i r db = Inr (committed, db')" "store_wf c db"
  shows "evolves db db'" "requests_behind db \<Longrightarrow> requests_behind db'"
proof -
  have "evolves db db' \<and> (requests_behind db \<longrightarrow> requests_behind db')"
    using assms(1)
  proof (cases rule: record_next_Inr)
    case (won current n db1)
    let ?db0 = "insert_slot_request i r (allocated_transition r n) db"
    have e0: "evolves db ?db0" by (auto simp: insert_slot_request_def evolves_def)
    have q1: "quiet ?db0 db1"
      using slot_transition_quiet [OF won(5) insert_slot_request_wf [OF assms(2) won(4)]] .
    have e2: "evolves db1 db'" by (auto simp: won(6) prune_slot_transition_requests_def Let_def evolves_def)
    have ev: "evolves db db'" using e0 quiet_evolves [OF q1] e2 evolves_trans by blast
    obtain s where s: "map_of (slots db1) (si_instance_slug i, si_slot_id i) = Some s"
      "s_generation s = uint (rq_generation r)" "s_transition_sequence s = uint n"
      using won(5) apply_slot_row by (cases rule: slot_transition_Inr) fastforce+
    have "requests_behind db'" if "requests_behind db"
    proof (rule requests_behind_evolves [OF that ev])
      fix inst sid key r' assume "((inst, sid, key), r') \<in> set (slot_transition_requests db')"
      then have "((inst, sid, key), r') \<in> set (slot_transition_requests ?db0)"
        using q1 by (auto simp: won(6) prune_slot_transition_requests_def Let_def quiet_def)
      then show "((inst, sid, key), r') \<in> set (slot_transition_requests db)
          \<or> (\<exists>s. map_of (slots db') (inst, sid) = Some s \<and> behind r' s)"
        using s by (auto simp: insert_slot_request_def tbl_insert_def behind_def won(6)
            prune_slot_transition_requests_def Let_def)
    qed
    then show ?thesis using ev by blast
  qed simp
  then show "evolves db db'" "requests_behind db \<Longrightarrow> requests_behind db'" by blast+
qed

section \<open>Executions evolve the database\<close>

definition later :: "OpDb \<Rightarrow> OpDb \<Rightarrow> bool" where
  "later base db \<longleftrightarrow> store_ok db \<and> evolves base db \<and> (requests_behind base \<longrightarrow> requests_behind db)"

lemma later_quiet: "later base db \<Longrightarrow> quiet db db' \<Longrightarrow> store_ok db' \<Longrightarrow> later base db'"
  unfolding later_def using evolves_trans requests_behind_evolves by (fastforce simp: quiet_def)

lemma later_wf: "later base db \<Longrightarrow> store_ok db"
  by (simp add: later_def)

lemma later_record_next:
  assumes "record_next_in_transaction env i r db = Inr (committed, db')" "later base db"
  shows "later base db'"
  unfolding later_def
proof (intro conjI)
  show "store_ok db'" using record_next_wf [OF assms(1) later_wf [OF assms(2)]] .
  show "evolves base db'"
    using assms(2) record_next_evolves(1) [OF assms(1) later_wf [OF assms(2)]] evolves_trans
    unfolding later_def by blast
  show "requests_behind base \<longrightarrow> requests_behind db'"
    using assms(2) record_next_evolves(2) [OF assms(1) later_wf [OF assms(2)]] by (simp add: later_def)
qed

interpretation history: store_steps "later base" for base
proof (unfold_locales, goal_cases)
  case 1 show ?case by (rule later_quiet [OF 1(2) append_event_quiet [OF 1(1)] append_event_wf [OF 1(1) later_wf [OF 1(2)]]])
next
  case 2 show ?case by (rule later_quiet [OF 2(2) insert_summary_quiet [OF 2(1)] insert_summary_wf [OF 2(1) later_wf [OF 2(2)]]])
next
  case 3 show ?case by (rule later_quiet [OF 3 upsert_job_quiet upsert_job_wf [OF later_wf [OF 3]]])
next
  case 4 show ?case by (rule later_quiet [OF 4(2) job_transition_quiet [OF 4(1)] job_transition_wf [OF 4(1) later_wf [OF 4(2)]]])
next
  case 5 show ?case by (rule later_quiet [OF 5(2) insert_reservation_quiet [OF 5(1)] insert_reservation_wf [OF 5(1) later_wf [OF 5(2)]]])
next
  case 6 show ?case by (rule later_quiet [OF 6(2) delete_reservation_quiet [OF 6(1)] delete_reservation_wf [OF 6(1) later_wf [OF 6(2)]]])
next
  case 7 show ?case by (rule later_quiet [OF 7(2) slot_transition_quiet [OF 7(1) later_wf [OF 7(2)]] slot_transition_wf [OF 7(1) later_wf [OF 7(2)]]])
next
  case 8 then show ?case by (rule later_record_next)
next
  case 9 show ?case by (rule later_quiet [OF 9 quiet_same others_wf_step(2) [OF later_wf [OF 9]]]) simp_all
next
  case 10 show ?case by (rule later_quiet [OF 10 quiet_same others_wf_step(3) [OF later_wf [OF 10]]]) simp_all
next
  case 11 show ?case by (rule later_quiet [OF 11 quiet_same others_wf_step(4) [OF later_wf [OF 11]]]) simp_all
next
  case 12 show ?case by (rule later_quiet [OF 12(2) lifecycle_quiet [OF 12(1)] lifecycle_operation_wf [OF 12(1) later_wf [OF 12(2)]]])
next
  case 13 show ?case by (rule later_quiet [OF 13(2) observe_quiet [OF 13(1)] observe_wf [OF 13(1) later_wf [OF 13(2)]]])
next
  case 14 show ?case by (rule later_quiet [OF 14 quiet_same others_wf_step(1) [OF later_wf [OF 14]]]) simp_all
qed

lemma run_store_calls_evolves:
  assumes "store_ok (store_db S)"
  shows "store_ok (store_db (run_store_calls cs S))" "evolves (store_db S) (store_db (run_store_calls cs S))"
    "requests_behind (store_db S) \<Longrightarrow> requests_behind (store_db (run_store_calls cs S))"
  using history.run_store_calls_keeps [of "store_db S" S] assms by (auto simp: later_def)

section \<open>Refused edges\<close>

definition refuses_job :: "string \<Rightarrow> string \<Rightarrow> Transition \<Rightarrow> OpDb \<Rightarrow> bool" where
  "refuses_job inst uid tr db \<longleftrightarrow>
     \<not> transition_token_exists db inst uid (tr_token tr)
     \<and> (\<exists>j src. map_of (jobs db) (inst, uid) = Some j \<and> JobState_try_from (j_phase j) = Some src
          \<and> transition_target src (tr_reason tr) = None)"

definition refuses_slot :: "StoreEnv \<Rightarrow> SlotIdentity \<Rightarrow> SlotTransition \<Rightarrow> OpDb \<Rightarrow> bool" where
  "refuses_slot env i t db \<longleftrightarrow>
     validate_slot_transition i t = Inr ()
     \<and> uint (sl_generation t) \<le> i64_max \<and> uint (sl_sequence t) \<le> i64_max
     \<and> (\<exists>c. query_slot_state env (si_instance_slug i) (si_slot_id i) db = Inr (Some c)
          \<and> \<not> identity_mismatch i c \<and> sl_generation t = sr_generation c
          \<and> sr_transition_sequence c < sl_sequence t
          \<and> \<not> slot_transition_allowed (sr_phase c) (sl_target t))"

lemma job_transition_refused:
  "record_job_transition_in_transaction env now inst uid tr db = Inl (e, True) \<longleftrightarrow>
     e = StoreError_new ExConflict ''store.job.transition.illegal'' \<and> refuses_job inst uid tr db"
  by (auto simp: record_job_transition_in_transaction_def refuses_job_def try_sum_Inl Let_def
      project_job_state_def project_job_transition_def split: option.splits if_splits)

lemma judge_refused:
  "judge_slot_transition i t c raw = Inl (e, True) \<longleftrightarrow>
     e = StoreError_new ExConflict ''store.slot.transition.illegal''
     \<and> \<not> identity_mismatch i c \<and> sl_generation t = sr_generation c \<and> sr_transition_sequence c < sl_sequence t
     \<and> \<not> slot_transition_allowed (sr_phase c) (sl_target t)"
  by (auto simp: judge_slot_transition_def project_slot_transition_def)

lemma query_slot_raw: "query_slot_state env inst sid db = Inr (Some c) \<Longrightarrow> \<exists>raw. map_of (slots db) (inst, sid) = Some raw"
  by (auto simp: query_slot_state_def split: option.splits)

lemma slot_transition_refused:
  "record_slot_transition_in_transaction env now i t db = Inl (e, True) \<longleftrightarrow>
     e = StoreError_new ExConflict ''store.slot.transition.illegal'' \<and> refuses_slot env i t db"
proof
  assume "record_slot_transition_in_transaction env now i t db = Inl (e, True)"
  then show "e = StoreError_new ExConflict ''store.slot.transition.illegal'' \<and> refuses_slot env i t db"
    by (auto simp: record_slot_transition_in_transaction_def refuses_slot_def try_sum_Inl judge_refused not_less
        split: if_splits option.splits)
next
  assume "e = StoreError_new ExConflict ''store.slot.transition.illegal'' \<and> refuses_slot env i t db"
  then obtain c raw where "validate_slot_transition i t = Inr ()"
    "uint (sl_generation t) \<le> i64_max" "uint (sl_sequence t) \<le> i64_max"
    "query_slot_state env (si_instance_slug i) (si_slot_id i) db = Inr (Some c)"
    "judge_slot_transition i t c raw = Inl (e, True)" "map_of (slots db) (si_instance_slug i, si_slot_id i) = Some raw"
    using query_slot_raw by (fastforce simp: refuses_slot_def judge_refused)
  then show "record_slot_transition_in_transaction env now i t db = Inl (e, True)"
    by (simp add: record_slot_transition_in_transaction_def not_less)
qed

end
