(* ===== verification/Store_Samples.thy ===== *)
theory Store_Samples
  imports Store_History
begin

text \<open>
  A small environment and a store with one queued job, on which the properties of the store are
  applied to concrete values.
\<close>

definition sample_store_env :: StoreEnv where
  "sample_store_env =
     \<lparr>to_rfc3339 = \<lambda>_. Some ''t'', parse_rfc3339 = \<lambda>_. Some 0, from_str = \<lambda>_. None,
      clock = \<lambda>_. 0, database_bytes = Inr (0, 0), free_bytes = Some 1000000\<rparr>"

text \<open>A time library that prints an instant as a run of letters and reads it back.\<close>

definition unary_env :: StoreEnv where
  "unary_env = sample_store_env
     \<lparr>to_rfc3339 := \<lambda>t. Some (if 0 \<le> t then replicate (nat t) CHR ''p'' else replicate (nat (- t)) CHR ''m''),
      parse_rfc3339 := \<lambda>s. Some (if s \<noteq> [] \<and> hd s = CHR ''m'' then - int (length s) else int (length s))\<rparr>"

lemma unary_env_roundtrip: "parse_rfc3339 unary_env (rfc3339 unary_env at) = Some at"
  by (auto simp: unary_env_def rfc3339_def hd_replicate)

definition empty_store :: Store where
  "empty_store = \<lparr>store_db = empty_db, illegal_transition_edges = 0\<rparr>"

definition sample_summary :: JobSummary where
  "sample_summary =
     \<lparr>js_instance_slug = ''host-1'', js_job_uid = ''job-1'',
      js_repository = \<lparr>repo_owner = ''acme'', repo_name = ''app''\<rparr>, js_workflow = ''ci'', js_job_name = ''build'',
      js_run_id = Some 7, js_attempt = Some 1, js_head_ref = None, js_head_sha = None,
      js_trigger_event = None, js_queued_at = None, js_acquired_at = None, js_slot_name = None,
      js_runner_name = None, js_execution_backend = None, js_trust_scope = None, js_trust_class = None,
      js_resource_policy = None, js_phase = PQueued, js_conclusion = None,
      js_infrastructure_category = None\<rparr>"

definition sample_transition :: "string \<Rightarrow> EventReason \<Rightarrow> Transition" where
  "sample_transition token reason =
     \<lparr>tr_token = token, tr_correlation_id = ''corr'', tr_reason = reason, tr_message = None,
      tr_transition_time = 0, tr_conclusion = None, tr_infrastructure_category = None\<rparr>"

definition sample_store :: Store where
  "sample_store = apply_store_call sample_store_env (Persist_Summary sample_summary) empty_store"

lemma sample_store_ok: "store_ok (store_db sample_store)"
  unfolding sample_store_def empty_store_def by (rule wf.apply_store_call_keeps) (simp add: empty_db_wf)

end
