(* ===== verification/Job_Properties.thy ===== *)
theory Job_Properties
  imports Store_Samples
begin

text \<open>
  Job transitions in the operational store: what an applied transition does, that a token takes
  effect once, and that refused edges are counted and change nothing.
\<close>

section \<open>Job transitions\<close>

lemma sample_accepts:
  "fst (record_job_transition sample_store_env ''host-1'' ''job-1'' (sample_transition ''t1'' JobAcquired) sample_store) = Inr True"
  by code_simp

lemma map_of_tbl_update_key:
  "map_of (tbl_update k (\<lambda>_. True) f t) = (\<lambda>k'. if k' = k then map_option f (map_of t k) else map_of t k')"
  by (rule ext) simp

lemma delete_reservation_Inr:
  assumes "delete_job_storage_reservation inst uid db = Inr (b, db')"
  shows "map_of (job_storage_reservations db') (inst, uid) = None"
    "jobs db' = jobs db" "events db' = events db" "job_transitions db' = job_transitions db"
  using assms
  by (auto simp: delete_job_storage_reservation_def tbl_delete_def map_of_eq_None_iff split: option.splits if_splits)

lemma job_transition_True:
  "record_job_transition env inst uid tr S = (Inr applied, S') \<Longrightarrow>
     record_job_transition_in_transaction env (clock env 0) inst uid tr (store_db S) = Inr (applied, store_db S')
     \<and> illegal_transition_edges S' = illegal_transition_edges S"
  by (auto simp: record_job_transition_def run_store_commit_of split: sum.splits prod.splits)

lemma job_transition_applied:
  assumes "record_job_transition_in_transaction env now inst uid tr db = Inr (True, db')"
  shows "\<exists>j src target t e.
    map_of (jobs db) (inst, uid) = Some j
    \<and> JobState_try_from (j_phase j) = Some src \<and> transition_target src (tr_reason tr) = Some target
    \<and> map_of (jobs db') = (map_of (jobs db))((inst, uid) \<mapsto>
        j\<lparr>j_phase := JobState_as_str target, j_conclusion := tr_conclusion tr,
          j_infrastructure_category := tr_infrastructure_category tr,
          j_updated_at := rfc3339 env (tr_transition_time tr)\<rparr>)
    \<and> job_transitions db' = job_transitions db @ [(transition_seq db + 1, t)]
    \<and> t_instance_slug t = inst \<and> t_job_uid t = uid \<and> t_transition_token t = tr_token tr
    \<and> events db' = events db @ [(event_seq db + 1, e)]
    \<and> e_instance_slug e = inst \<and> e_subject e = uid
    \<and> e_event_kind e = ''job.transition.'' @ EventReason_as_str (tr_reason tr)
    \<and> e_transition_id e = Some (transition_seq db + 1)
    \<and> (is_terminal target \<longrightarrow> map_of (job_storage_reservations db') (inst, uid) = None)"
  using assms
proof (cases rule: job_transition_Inr)
  case (step j src target eid db3)
  let ?db2 = "move_job env inst uid tr target (insert_transition env inst uid tr db)"
  obtain u where db3: "db3 = (insert_event env (transition_event inst uid tr)
      (Some (transition_seq db + 1)) None ?db2)\<lparr>event_stream_state := u\<rparr>"
    using append_event_Inr(3) [OF step(6)] by blast
  have final: "jobs db' = jobs db3" "events db' = events db3"
    "job_transitions db' = job_transitions db3"
    "is_terminal target \<longrightarrow> map_of (job_storage_reservations db') (inst, uid) = None"
    using step(7) delete_reservation_Inr by (auto split: if_splits)
  have "map_of (jobs db3) = (map_of (jobs db))((inst, uid) \<mapsto>
      j\<lparr>j_phase := JobState_as_str target, j_conclusion := tr_conclusion tr,
        j_infrastructure_category := tr_infrastructure_category tr,
        j_updated_at := rfc3339 env (tr_transition_time tr)\<rparr>)"
    using step(2) by (simp add: db3 move_job_def insert_transition_def map_of_tbl_update_key fun_eq_iff)
  then show ?thesis
    using step(2,4,5) final
    by (simp add: db3 move_job_def insert_transition_def insert_event_def transition_event_def tbl_insert_def)
qed simp

lemma job_transition_token:
  assumes "record_job_transition_in_transaction env now inst uid tr db = Inr (True, db')"
  shows "transition_token_exists db' inst uid (tr_token tr)" "(inst, uid) \<in> set (map fst (jobs db'))"
proof -
  from job_transition_applied [OF assms] have "(\<exists>k t. (k, t) \<in> set (job_transitions db') \<and> t_instance_slug t = inst
      \<and> t_job_uid t = uid \<and> t_transition_token t = tr_token tr) \<and> map_of (jobs db') (inst, uid) \<noteq> None"
    by (elim exE conjE) auto
  then show "transition_token_exists db' inst uid (tr_token tr)" "(inst, uid) \<in> set (map fst (jobs db'))"
    by (auto simp: transition_token_exists_def list_ex_iff map_of_eq_None_iff)
qed

lemma transition_token_evolves:
  "evolves db db' \<Longrightarrow> transition_token_exists db inst uid token \<Longrightarrow> transition_token_exists db' inst uid token"
  by (auto simp: evolves_def extends_def transition_token_exists_def)





section \<open>Refused edges\<close>

text \<open>C29. Refused edges are counted, exactly once, and change nothing else.  A job or slot transition
  along an edge the state machine does not have fails with a conflict, leaves the database alone and
  raises the counter of the handle by one; no other outcome touches the counter, and no error leaves
  a change behind.\<close>

theorem refused_edges_are_counted:
  "(case record_job_transition env inst uid tr S of (r, S') \<Rightarrow>
      illegal_transition_edges S' = illegal_transition_edges S + of_bool (refuses_job inst uid tr (store_db S))
      \<and> (refuses_job inst uid tr (store_db S) \<longrightarrow> r = Inl (StoreError_new ExConflict ''store.job.transition.illegal''))
      \<and> (\<forall>e. r = Inl e \<longrightarrow> store_db S' = store_db S))
   \<and> (case record_slot_transition env i t S of (r, S') \<Rightarrow>
      illegal_transition_edges S' = illegal_transition_edges S + of_bool (refuses_slot env i t (store_db S))
      \<and> (refuses_slot env i t (store_db S) \<longrightarrow> r = Inl (StoreError_new ExConflict ''store.slot.transition.illegal''))
      \<and> (\<forall>e. r = Inl e \<longrightarrow> store_db S' = store_db S))"
proof -
  have *: "case run_store (commit_of m) S of (r, S') \<Rightarrow>
      illegal_transition_edges S' = illegal_transition_edges S + of_bool refused
      \<and> (refused \<longrightarrow> r = Inl x) \<and> (\<forall>e. r = Inl e \<longrightarrow> store_db S' = store_db S)"
    if "\<And>e. m = Inl (e, True) \<longleftrightarrow> e = x \<and> refused" for m :: "(bool \<times> OpDb) store_result" and x refused
    using that [of x] that by (cases m) (auto simp: run_store_commit_of split: prod.splits)
  show ?thesis
    unfolding record_job_transition_def record_slot_transition_def
    by (intro conjI * job_transition_refused slot_transition_refused)
qed

lemma sample_refuses:
  "refuses_job ''host-1'' ''job-1'' (sample_transition ''t9'' JobCompleted) (store_db sample_store)"
proof -
  let ?db = "store_db sample_store"
  have "map_of (jobs ?db) (''host-1'', ''job-1'') \<noteq> None"
    "\<not> transition_token_exists ?db ''host-1'' ''job-1'' (tr_token (sample_transition ''t9'' JobCompleted))"
    "JobState_try_from (j_phase (the (map_of (jobs ?db) (''host-1'', ''job-1'')))) = Some Queued"
    "transition_target Queued (tr_reason (sample_transition ''t9'' JobCompleted)) = None"
    by code_simp+
  then show ?thesis unfolding refuses_job_def by fastforce
qed

theorem refused_edges_are_counted_witness:
  "\<exists>S'. record_job_transition sample_store_env ''host-1'' ''job-1'' (sample_transition ''t9'' JobCompleted) sample_store
      = (Inl (StoreError_new ExConflict ''store.job.transition.illegal''), S')
    \<and> illegal_transition_edges S' = illegal_transition_edges sample_store + 1
    \<and> store_db S' = store_db sample_store"
  using refused_edges_are_counted [where env = sample_store_env and inst = "''host-1''" and uid = "''job-1''"
      and tr = "sample_transition ''t9'' JobCompleted" and S = sample_store, THEN conjunct1] sample_refuses
  by (auto split: prod.splits)

end
