(* ===== verification/Slot_Properties.thy ===== *)
theory Slot_Properties
  imports Store_Samples
begin

text \<open>
  Slots of the operational store: a slot is fenced by its generation and sequence for good, and an
  allocated transition takes effect once per request key.
\<close>

section \<open>Fencing\<close>

definition older :: "SlotTransition \<Rightarrow> SlotDbRow \<Rightarrow> bool" where
  "older t s \<longleftrightarrow>
     uint (sl_generation t) < s_generation s
     \<or> uint (sl_generation t) = s_generation s \<and> uint (sl_sequence t) < s_transition_sequence s"

lemma older_le: "older t s \<Longrightarrow> slot_le s s' \<Longrightarrow> older t s'"
  by (auto simp: older_def slot_le_def)

lemma older_not_newer:
  assumes "store_wf c db" "map_of (slots db) (si_instance_slug i, si_slot_id i) = Some s" "older t s"
    and "query_slot_state env (si_instance_slug i) (si_slot_id i) db = Inr current" "current = Some row"
  shows "\<not> newer_than i t row" "\<not> (sl_generation t = sr_generation row \<and> sr_transition_sequence row < sl_sequence t)"
proof -
  obtain r where r: "current = Some r" "uint (sr_generation r) = s_generation s"
    "uint (sr_transition_sequence r) = s_transition_sequence s"
    using query_slot_Inr [OF assms(4,2,1)] by blast
  then have "uint (sl_generation t) < uint (sr_generation row)
      \<or> uint (sl_generation t) = uint (sr_generation row) \<and> uint (sl_sequence t) < uint (sr_transition_sequence row)"
    using assms(3,5) by (simp add: older_def)
  then show "\<not> newer_than i t row" "\<not> (sl_generation t = sr_generation row \<and> sr_transition_sequence row < sl_sequence t)"
    unfolding newer_than_def word_less_def by auto
qed

lemma older_changes_nothing:
  assumes "store_wf c (store_db S)" "map_of (slots (store_db S)) (si_instance_slug i, si_slot_id i) = Some s" "older t s"
  shows "snd (record_slot_transition env i t S) = S"
proof (cases "record_slot_transition_in_transaction env (clock env 0) i t (store_db S)")
  case (Inl err)
  obtain e refused where err: "err = (e, refused)" by (cases err)
  have "\<not> refuses_slot env i t (store_db S)"
    using older_not_newer(2) [OF assms] unfolding refuses_slot_def by blast
  then have "\<not> refused" using Inl slot_transition_refused unfolding err by (cases refused) auto
  then show ?thesis using Inl err by (simp add: record_slot_transition_def run_store_commit_of)
next
  case (Inr r)
  obtain committed db' where r: "r = (committed, db')" by (cases r)
  have "db' = store_db S"
    using Inr [unfolded r]
  proof (cases rule: slot_transition_Inr)
    case (won current)
    obtain row where "current = Some row" using query_slot_Inr [OF won(6) assms(2,1)] by blast
    then show ?thesis using won(7) older_not_newer(1) [OF assms won(6)] by blast
  qed
  then show ?thesis using Inr r by (simp add: record_slot_transition_def run_store_commit_of)
qed

text \<open>C10. Slots are fenced.  However the store is used afterwards, a slot keeps its host, index and kind,
  its generation and sequence never go back, and a transition from an older generation, or from an
  older position of the same generation, changes nothing at all.\<close>

theorem slot_fence:
  assumes "store_ok (store_db S)" "map_of (slots (store_db S)) (si_instance_slug i, si_slot_id i) = Some s"
    and "S2 = run_store_calls cs S"
  shows "(\<exists>s2. map_of (slots (store_db S2)) (si_instance_slug i, si_slot_id i) = Some s2 \<and> slot_le s s2)
    \<and> (older t s \<longrightarrow> snd (record_slot_transition env i t S2) = S2)"
proof -
  have "slots_le (slots (store_db S)) (slots (store_db S2))"
    using run_store_calls_evolves(2) [OF assms(1)] assms(3) by (simp add: evolves_def)
  then obtain s2 where s2: "map_of (slots (store_db S2)) (si_instance_slug i, si_slot_id i) = Some s2" "slot_le s s2"
    using assms(2) unfolding slots_le_def by blast
  then show ?thesis
    using older_changes_nothing [OF run_store_calls_evolves(1) [OF assms(1)] _ older_le] assms(3) by blast
qed

definition sample_slot :: SlotIdentity where
  "sample_slot = \<lparr>si_instance_slug = ''host-1'', si_slot_id = ''slot-1'', si_host = ''host-1'', si_slot_index = 0,
     si_slot_kind = Stable\<rparr>"

definition sample_request :: "string \<Rightarrow> SlotPhase \<Rightarrow> SlotTransitionRequest" where
  "sample_request key target = \<lparr>rq_request_key = key, rq_generation = 2, rq_target = target, rq_job_name = None,
     rq_message = None, rq_transition_time = 0\<rparr>"

definition sample_slots :: Store where
  "sample_slots = apply_store_call sample_store_env
     (Record_Next_Slot_Transition sample_slot (sample_request ''r1'' Configuring)) empty_store"

lemma sample_slots_ok: "store_ok (store_db sample_slots)"
  unfolding sample_slots_def empty_store_def by (rule wf.apply_store_call_keeps) (simp add: empty_db_wf)

lemma sample_slot_row:
  "map_option (\<lambda>s. (s_generation s, s_transition_sequence s)) (map_of (slots (store_db sample_slots)) (''host-1'', ''slot-1''))
    = Some (2, 1)"
  by code_simp

theorem slot_fence_witness:
  "snd (record_slot_transition sample_store_env sample_slot
      \<lparr>sl_token = ''old'', sl_correlation_id = ''corr-old'', sl_generation = 1, sl_sequence = 9, sl_target = Idle,
       sl_job_name = None, sl_message = None, sl_transition_time = 0\<rparr>
      (run_store_calls [(sample_store_env, Persist_Summary sample_summary)] sample_slots))
    = run_store_calls [(sample_store_env, Persist_Summary sample_summary)] sample_slots"
proof -
  obtain s where s: "map_of (slots (store_db sample_slots)) (si_instance_slug sample_slot, si_slot_id sample_slot) = Some s"
    "s_generation s = 2"
    using sample_slot_row by (auto simp: sample_slot_def)
  show ?thesis by (rule slot_fence [OF sample_slots_ok s(1) refl, THEN conjunct2, THEN mp]) (simp add: older_def s(2))
qed

section \<open>Allocated transitions\<close>

lemma greatest_not_dropped:
  fixes f :: "'k \<times> 'r \<Rightarrow> 'o :: linorder"
  assumes "x \<in> set rows" "distinct (map fst rows)" "\<And>y. y \<in> set rows \<Longrightarrow> y \<noteq> x \<Longrightarrow> f y < f x"
  shows "fst x \<notin> set (drop (Suc m) (map fst (rev (sort_key f rows))))"
proof -
  let ?ys = "rev (sort_key f rows)"
  have set_ys: "set ?ys = set rows" by simp
  have d: "distinct (map fst ?ys)" using assms(2) by (metis distinct_rev mset_map mset_sort mset_eq_imp_distinct_iff rev_map)
  obtain z zs where ys: "?ys = z # zs" using assms(1) set_ys by (cases ?ys) auto
  have "sorted (map f (rev ?ys))" by simp
  then have "f x \<le> f z" using assms(1) set_ys unfolding ys by (auto simp: sorted_append)
  then have "z = x" using assms(3) [of z] set_ys ys by (metis leD list.set_intros(1))
  then have "fst x \<notin> set (map fst zs)" using d ys by auto
  then show ?thesis unfolding ys using \<open>z = x\<close> in_set_dropD by force
qed

lemma map_of_filter_keys:
  "map_of (filter (\<lambda>(k, r). k \<notin> A) t) k = (if k \<in> A then None else map_of t k)"
  by (induction t) auto

lemma next_request_kept:
  assumes tx: "record_slot_transition_in_transaction env now i (allocated_transition r n)
      (insert_slot_request i r (allocated_transition r n) db) = Inr (True, db1)"
    and none: "map_of (slot_transition_requests db) (si_instance_slug i, si_slot_id i, rq_request_key r) = None"
    and wf: "store_wf c db" "requests_behind db"
  shows "map_of (slot_transition_requests (prune_slot_transition_requests i db1))
      (si_instance_slug i, si_slot_id i, rq_request_key r)
    = Some \<lparr>r_generation = uint (rq_generation r), r_target = SlotPhase_as_str (rq_target r),
        r_job_name = rq_job_name r, r_message = rq_message r,
        r_allocated_sequence = uint n, r_allocated_token = sl_token (allocated_transition r n),
        r_allocated_correlation_id = sl_correlation_id (allocated_transition r n),
        r_allocated_detail = slot_transition_detail (allocated_transition r n)\<rparr>"
    (is "_ = Some ?row")
proof -
  let ?key = "(si_instance_slug i, si_slot_id i, rq_request_key r)"
  let ?t = "allocated_transition r n"
  let ?db0 = "insert_slot_request i r ?t db"
  let ?rows = "requests_of (si_instance_slug i) (si_slot_id i) ?db0"
  let ?f = "\<lambda>(k, r). request_order (r, snd (snd k))"
  have row: "slot_transition_requests ?db0 = slot_transition_requests db @ [(?key, ?row)]"
    by (simp add: insert_slot_request_def tbl_insert_def allocated_transition_def Let_def)
  have same: "slot_transition_requests db1 = slot_transition_requests ?db0"
    using slot_transition_requests_same [OF tx] .
  have wf0: "store_wf (Suc c) ?db0" using insert_slot_request_wf [OF wf(1) none] .
  then have d: "distinct (map fst (slot_transition_requests ?db0))" by (simp add: store_wf_def slots_wf_def)
  then have dr: "distinct (map fst ?rows)" by (simp add: requests_of_def distinct_map_filter)
  have mem: "(?key, ?row) \<in> set ?rows" by (simp add: requests_of_def row)
  have less: "?f y < ?f (?key, ?row)" if y: "y \<in> set ?rows" "y \<noteq> (?key, ?row)" for y
    using tx
  proof (cases rule: slot_transition_Inr)
    case (won current)
    obtain a b key ry where y0: "y = ((a, b, key), ry)" by (metis prod.collapse)
    have y': "y = ((si_instance_slug i, si_slot_id i, key), ry)" "y \<in> set (slot_transition_requests db)"
      using y unfolding y0 by (auto simp: requests_of_def row)
    then obtain s where s: "map_of (slots db) (si_instance_slug i, si_slot_id i) = Some s" "behind ry s"
      using wf(2) unfolding requests_behind_def by fast
    have q: "query_slot_state env (si_instance_slug i) (si_slot_id i) db = Inr current"
      using won(6) by (simp add: query_slot_state_def insert_slot_request_def)
    obtain c' where c': "current = Some c'" "uint (sr_generation c') = s_generation s"
      "uint (sr_transition_sequence c') = s_transition_sequence s"
      using query_slot_Inr [OF q s(1) wf(1)] by blast
    have "newer_than i ?t c'" using won(7) c'(1) .
    then show ?thesis
      using s(2) c'(2,3) unfolding newer_than_def behind_def word_less_def y'
      by (auto simp: request_order_def less_prod_def)
  qed simp
  have "fst (?key, ?row) \<notin> set (drop (Suc 63) (map fst (rev (sort_key ?f ?rows))))"
    using greatest_not_dropped [OF mem dr] less by blast
  then have "?key \<notin> set (expired_requests (si_instance_slug i) (si_slot_id i) db1)"
    by (simp add: expired_requests_def same requests_of_def SLOT_TRANSITION_REQUEST_CAP_def)
  moreover have "map_of (slot_transition_requests db1) ?key = Some ?row"
    unfolding same row using none by (simp add: map_add_def)
  ultimately show ?thesis by (simp add: prune_slot_transition_requests_def Let_def map_of_filter_keys)
qed

lemma next_slot_tx:
  assumes "record_next_slot_transition env i r S = (Inr committed, S')"
  shows "validate_slot_transition_request i r = Inr ()" "uint (rq_generation r) \<le> i64_max"
    "record_next_in_transaction env i r (store_db S) = Inr (committed, store_db S')"
  using assms
  by (auto simp: record_next_slot_transition_def run_store_commit_of split: sum.splits prod.splits if_splits)

text \<open>The row a new transition leaves is read back with the identity it was written for.\<close>

lemma applied_slot_reads_back:
  assumes "apply_slot_transition env now i t db = Inr db'" "store_wf c db'"
    and "query_slot_state env (si_instance_slug i) (si_slot_id i) db = Inr current"
    and "\<And>row. current = Some row \<Longrightarrow> \<not> identity_mismatch i row"
    and "\<And>at. parse_rfc3339 env' (rfc3339 env at) \<noteq> None"
  shows "\<exists>row. query_slot_state env' (si_instance_slug i) (si_slot_id i) db' = Inr (Some row) \<and> \<not> identity_mismatch i row"
proof -
  let ?k = "(si_instance_slug i, si_slot_id i)"
  let ?new = "new_slot_row env i t"
  let ?s = "case map_of (slots db) ?k of None \<Rightarrow> ?new
    | Some old \<Rightarrow> ?new\<lparr>s_host := s_host old, s_slot_index := s_slot_index old, s_slot_kind := s_slot_kind old\<rparr>"
  have s: "map_of (slots db') ?k = Some ?s"
    using assms(1)
    by (auto simp: apply_slot_transition_def append_event_in_transaction_def try_sum_Inr Let_def
        insert_event_def dest!: append_event_Inr(3) split: option.splits)
  obtain at where at: "parse_rfc3339 env' (s_updated_at ?s) = Some at"
  proof -
    have "s_updated_at ?s = rfc3339 env (sl_transition_time t)" by (simp add: new_slot_row_def split: option.split)
    then show thesis using assms(5) [of "sl_transition_time t"] that by auto
  qed
  have idx: "u32_try_from_i64 (s_slot_index ?s) = Some (si_slot_index i)"
    "SlotKind_try_from (s_slot_kind ?s) = Some (si_slot_kind i)" "s_host ?s = si_host i"
    using assms(3,4)
    by (auto simp: query_slot_state_def new_slot_row_def identity_mismatch_def split: option.splits)
  have "SlotPhase_try_from (s_phase ?s) = Some (sl_target t)"
    by (simp add: new_slot_row_def split: option.split)
  then show ?thesis
    using s at idx slot_row_bounds [OF assms(2) s]
    by (simp add: query_slot_state_def u64_try_from_i64_def identity_mismatch_def)
qed

lemma next_slot_row:
  assumes "record_next_in_transaction env i r db = Inr (True, db')" "store_wf c db"
  shows "\<exists>s. map_of (slots db') (si_instance_slug i, si_slot_id i) = Some s
      \<and> s_generation s = uint (rq_generation r) \<and> s_phase s = SlotPhase_as_str (rq_target r)
      \<and> s_transition_sequence s = (case map_of (slots db) (si_instance_slug i, si_slot_id i) of
           None \<Rightarrow> 1
         | Some old \<Rightarrow> if s_generation old = s_generation s then s_transition_sequence old + 1 else 1)"
  using assms(1)
proof (cases rule: record_next_Inr)
  case (won current n db1)
  let ?k = "(si_instance_slug i, si_slot_id i)"
  obtain s where s: "map_of (slots db1) ?k = Some s" "s_generation s = uint (rq_generation r)"
    "s_transition_sequence s = uint n" "s_phase s = SlotPhase_as_str (rq_target r)"
    using won(5) apply_slot_row by (cases rule: slot_transition_Inr) fastforce+
  have "uint n = (case map_of (slots db) ?k of None \<Rightarrow> 1
      | Some old \<Rightarrow> if s_generation old = s_generation s then s_transition_sequence old + 1 else 1)"
  proof (cases "map_of (slots db) ?k")
    case None
    then show ?thesis using won(2,3) by (auto simp: query_slot_state_def next_sequence_of_def)
  next
    case (Some old)
    obtain row where row: "current = Some row" "uint (sr_generation row) = s_generation old"
      "uint (sr_transition_sequence row) = s_transition_sequence old"
      using query_slot_Inr [OF won(2) Some assms(2)] by blast
    have g: "sr_generation row = rq_generation r \<longleftrightarrow> s_generation old = s_generation s"
      unfolding s(2) row(2) [symmetric] by (rule word_uint_eq_iff)
    show ?thesis
      using won(3) Some row(1,3) g slot_row_bounds(4) [OF assms(2) Some] uint_succ_u64 [of "sr_transition_sequence row"]
      by (auto simp: next_sequence_of_def split: if_splits)
  qed
  then show ?thesis using s by (simp add: won(6) prune_slot_transition_requests_def Let_def)
qed simp

lemma next_slot_replay:
  assumes "record_next_in_transaction env i r db = Inr (True, db')" "store_ok db" "requests_behind db"
    and "\<And>at. parse_rfc3339 env' (rfc3339 env at) \<noteq> None"
  shows "record_next_in_transaction env' i r db' = Inr (False, db')"
  using assms(1)
proof (cases rule: record_next_Inr)
  case (won current n db1)
  let ?k = "(si_instance_slug i, si_slot_id i)" and ?t = "allocated_transition r n"
  have req: "\<exists>row. map_of (slot_transition_requests db') (si_instance_slug i, si_slot_id i, rq_request_key r) = Some row
      \<and> r_generation row = uint (rq_generation r) \<and> r_target row = SlotPhase_as_str (rq_target r)
      \<and> r_job_name row = rq_job_name r \<and> r_message row = rq_message r"
    using next_request_kept [OF won(5,4) assms(2,3)] won(6) by simp
  have wf1: "store_wf (Suc SLOT_TRANSITION_REQUEST_CAP) db1"
    using slot_transition_wf [OF won(5)] insert_slot_request_wf [OF assms(2) won(4)] by blast
  have "\<exists>row. query_slot_state env' (si_instance_slug i) (si_slot_id i) db1 = Inr (Some row) \<and> \<not> identity_mismatch i row"
    using won(5)
  proof (cases rule: slot_transition_Inr)
    case w: (won c)
    show ?thesis
      using applied_slot_reads_back [OF w(3) wf1 w(6) _ assms(4)] w(7) unfolding newer_than_def by blast
  qed simp
  then have q: "\<exists>row. query_slot_state env' (si_instance_slug i) (si_slot_id i) db' = Inr (Some row) \<and> \<not> identity_mismatch i row"
    by (simp add: won(6) query_slot_state_def prune_slot_transition_requests_def Let_def)
  show ?thesis using req q by (auto simp: record_next_in_transaction_def)
qed simp



end
