(* ===== verification/Event_Windows.thy ===== *)
theory Event_Windows
  imports Store_Samples
begin

text \<open>
  Reading the event stream: the merge of the two indexed queries is the one query it stands for,
  windows follow each other without gap or repetition, and events are permanent.
\<close>

section \<open>Limited queries\<close>

lemma take_filter_or:
  assumes "x \<in> set (take n (filter (\<lambda>x. P x \<or> Q x) xs))" "P x"
  shows "x \<in> set (take n (filter P xs))"
  using assms
proof (induction xs arbitrary: n)
  case (Cons a xs)
  show ?case
  proof (cases "P a \<or> Q a")
    case True
    then obtain m where n: "n = Suc m" using Cons.prems(1) by (cases n) auto
    have "x = a \<or> x \<in> set (take m (filter P xs))" using Cons True n by auto
    then show ?thesis using n Cons.prems(2) set_take_subset_set_take [of m "Suc m" "filter P xs"] by auto
  next
    case False
    then show ?thesis using Cons by auto
  qed
qed simp

lemma take_filter_prefix:
  assumes "\<forall>x \<in> set (take n xs). Q x"
  shows "take n (filter Q xs) = take n xs"
proof -
  have "filter Q xs = take n xs @ filter Q (drop n xs)"
    using assms by (metis append_take_drop_id filter_True filter_append)
  then show ?thesis by (cases "n \<le> length xs") auto
qed

text \<open>The first \<open>n\<close> rows of a disjunction are among the first \<open>n\<close> rows of either disjunct.\<close>

lemma take_filter_union:
  "take n (filter (\<lambda>x. x \<in> set (take n (filter P xs)) \<or> x \<in> set (take n (filter Q xs))) xs)
   = take n (filter (\<lambda>x. P x \<or> Q x) xs)"
proof -
  let ?in = "\<lambda>x. x \<in> set (take n (filter P xs)) \<or> x \<in> set (take n (filter Q xs))"
  have "filter ?in xs = filter ?in (filter (\<lambda>x. P x \<or> Q x) xs)"
    by (auto intro!: filter_cong dest: in_set_takeD)
  moreover have "\<forall>x \<in> set (take n (filter (\<lambda>x. P x \<or> Q x) xs)). ?in x"
  proof
    fix x assume x: "x \<in> set (take n (filter (\<lambda>x. P x \<or> Q x) xs))"
    then have "P x \<or> Q x" using in_set_takeD by fastforce
    moreover have "x \<in> set (take n (filter (\<lambda>x. Q x \<or> P x) xs))" using x by (simp add: disj_commute)
    ultimately show "?in x" using take_filter_or [of x n P Q xs] take_filter_or [of x n Q P xs] x by blast
  qed
  ultimately show ?thesis by (simp only: take_filter_prefix)
qed

section \<open>Decoded rows\<close>

lemma collect_rows_Inr:
  "collect_rows f xs = Inr ys \<longleftrightarrow> (\<forall>x \<in> set xs. f x = Inr (projr (f x))) \<and> ys = map (\<lambda>x. projr (f x)) xs"
  by (induction xs arbitrary: ys) (auto simp: try_sum_Inr)

lemma decode_stored_event_id:
  "decode_stored_event env inst (eid, r) = Inr ev \<Longrightarrow> u64_try_from_i64 eid = Some (sev_id ev)"
  by (auto simp: decode_stored_event_def Let_def split: option.splits sum.splits)

lemma sort_key_fst_ids: "ids_wf t n \<Longrightarrow> sort_key fst (filter P t) = filter P t"
  by (rule sort_key_id_if_sorted)
    (auto simp: ids_wf_def strict_sorted_iff intro: sorted_filter)

text \<open>Sorting and removing neighbours with equal ids, when equal ids are equal rows.\<close>

lemma dedup_sorted:
  assumes "sorted (map sev_id xs)" "inj_on sev_id (set xs)"
  shows "set (dedup_by_id xs) = set xs \<and> sorted_wrt (<) (map sev_id (dedup_by_id xs))"
  using assms
proof (induction xs rule: dedup_by_id.induct)
  case (1 x y xs)
  show ?case
  proof (cases "sev_id x = sev_id y")
    case True
    then have "x = y" using 1(4) by (auto dest: inj_onD)
    moreover have "set (dedup_by_id (x # xs)) = set (x # xs) \<and> sorted_wrt (<) (map sev_id (dedup_by_id (x # xs)))"
      by (rule 1(1) [OF True]) (use 1(3,4) in \<open>auto elim: inj_on_subset\<close>)
    ultimately show ?thesis using True by simp
  next
    case False
    then have IH: "set (dedup_by_id (y # xs)) = set (y # xs)" "sorted_wrt (<) (map sev_id (dedup_by_id (y # xs)))"
      using 1(2) [OF False] 1(3,4) by (auto elim: inj_on_subset)
    moreover have "\<forall>z \<in> set (y # xs). sev_id x < sev_id z" using 1(3) False by (auto simp: order_le_less)
    ultimately show ?thesis using False by auto
  qed
qed auto

lemma strict_sorted_same_set:
  fixes f :: "'a \<Rightarrow> 'b :: linorder"
  assumes "sorted_wrt (<) (map f xs)" "sorted_wrt (<) (map f ys)" "set xs = set ys"
  shows "xs = ys"
proof -
  have "map f xs = map f ys" using assms by (metis list.set_map strict_sorted_equal)
  moreover have "inj_on f (set xs \<union> set ys)"
    using assms by (metis Un_absorb distinct_map strict_sorted_iff)
  ultimately show ?thesis by (rule map_inj_on)
qed

lemma id_u64:
  "u64_try_from_i64 a = Some x \<Longrightarrow> u64_try_from_i64 b = Some y \<Longrightarrow> a \<le> i64_max \<Longrightarrow> b \<le> i64_max \<Longrightarrow>
     (x < y \<longleftrightarrow> a < b) \<and> (x = y \<longleftrightarrow> a = b)"
  by (drule uint_u64_try_from_i64, assumption, drule uint_u64_try_from_i64, assumption)
    (simp add: word_less_def word_uint_eq_iff)

text \<open>The ids of decoded rows are in the order of the row ids.\<close>

lemma decoded_sorted:
  assumes "sorted_wrt (<) (map fst t)" "\<forall>x \<in> set t. fst x \<le> i64_max \<and> decode_stored_event env inst x = Inr (g x)"
  shows "sorted_wrt (<) (map (\<lambda>x. sev_id (g x)) t)"
proof -
  have id: "u64_try_from_i64 (fst x) = Some (sev_id (g x))" if "x \<in> set t" for x
    using assms(2) that decode_stored_event_id [of env inst "fst x" "snd x"] by auto
  show ?thesis
    using assms(1) unfolding sorted_wrt_map
  proof (rule sorted_wrt_mono_rel [rotated])
    fix x y assume "x \<in> set t" "y \<in> set t" "fst x < fst y"
    then show "sev_id (g x) < sev_id (g y)" using id_u64 [OF id id, of x y] assms(2) by auto
  qed
qed

lemma merged_window:
  assumes ids: "ids_wf t n" "n \<le> i64_max"
    and ks: "collect_rows (decode_stored_event env inst) (take m (filter P t)) = Inr ks"
    and ss: "collect_rows (decode_stored_event env inst) (take m (filter Q t)) = Inr ss"
  shows "collect_rows (decode_stored_event env inst) (take m (filter (\<lambda>x. P x \<or> Q x) t))
    = Inr (take m (dedup_by_id (sort_key sev_id (ks @ ss))))"
proof -
  let ?dec = "decode_stored_event env inst"
  let ?g = "\<lambda>x. projr (?dec x)"
  let ?in = "\<lambda>x. x \<in> set (take m (filter P t)) \<or> x \<in> set (take m (filter Q t))"
  let ?M = "filter ?in t"
  have dec: "?dec x = Inr (?g x)" if "?in x" for x
    using ks ss that unfolding collect_rows_Inr by blast
  have le: "fst x \<le> i64_max" if "x \<in> set t" for x using ids that by (fastforce simp: ids_wf_def)
  have "sorted_wrt (<) (map fst ?M)" using ids(1) by (auto simp: ids_wf_def sorted_wrt_map intro: sorted_wrt_filter)
  then have M: "sorted_wrt (<) (map sev_id (map ?g ?M))"
    using decoded_sorted [of ?M env inst ?g] dec le by (simp add: comp_def)
  have set_eq: "set (sort_key sev_id (ks @ ss)) = set (map ?g ?M)"
  proof -
    have "set ?M = set (take m (filter P t)) \<union> set (take m (filter Q t))" by (auto dest: in_set_takeD)
    then show ?thesis using ks ss unfolding collect_rows_Inr by (simp add: image_Un)
  qed
  have "inj_on sev_id (set (map ?g ?M))"
    using M unfolding strict_sorted_iff by (rule conjE) (simp only: distinct_map)
  then have "set (dedup_by_id (sort_key sev_id (ks @ ss))) = set (map ?g ?M)"
    "sorted_wrt (<) (map sev_id (dedup_by_id (sort_key sev_id (ks @ ss))))"
    using dedup_sorted [of "sort_key sev_id (ks @ ss)"] unfolding set_eq by auto
  then have "dedup_by_id (sort_key sev_id (ks @ ss)) = map ?g ?M" using M strict_sorted_same_set by blast
  then have "take m (dedup_by_id (sort_key sev_id (ks @ ss))) = map ?g (take m (filter (\<lambda>x. P x \<or> Q x) t))"
    by (simp only: take_map take_filter_union)
  moreover have "\<forall>x \<in> set (take m (filter (\<lambda>x. P x \<or> Q x) t)). ?dec x = Inr (?g x)"
  proof
    fix x assume "x \<in> set (take m (filter (\<lambda>x. P x \<or> Q x) t))"
    then have "x \<in> set (take m ?M)" unfolding take_filter_union .
    then have "?in x" by (auto dest: in_set_takeD)
    then show "?dec x = Inr (?g x)" by (rule dec)
  qed
  ultimately show ?thesis unfolding collect_rows_Inr by simp
qed

section \<open>Event windows\<close>

lemma select_events_filter:
  "ids_wf t n \<Longrightarrow> select_events inst p a m t =
     take m (filter (\<lambda>(eid, r). e_instance_slug r = inst \<and> p r \<and> a < eid) t)"
  by (simp add: select_events_def sort_key_fst_ids)

lemma event_window_Inr:
  assumes "event_window env inst after_id kind limit db = Inr w"
  shows "limit \<noteq> 0" "limit \<le> 4096"
    "case kind of
       None \<Rightarrow> collect_rows (decode_stored_event env inst)
         (select_events inst (\<lambda>_. True) (uint after_id) (unat limit) (events db)) = Inr (ew_events w)
     | Some k \<Rightarrow> (\<exists>ks ss. collect_rows (decode_stored_event env inst)
           (select_events inst (\<lambda>r. nocase_eq (e_event_kind r) k) (uint after_id) (unat limit) (events db)) = Inr ks
         \<and> collect_rows (decode_stored_event env inst)
           (select_events inst (\<lambda>r. nocase_eq (e_subject r) k) (uint after_id) (unat limit) (events db)) = Inr ss
         \<and> ew_events w = take (unat limit) (dedup_by_id (sort_key sev_id (ks @ ss))))"
  using assms
  by (auto simp: event_window_def Let_def try_sum_Inr not_less split: if_splits option.splits)

text \<open>C14. The two indexed queries are one query.  A window filtered by a name is put together from at
  most \<open>limit\<close> events of that kind and at most \<open>limit\<close> events with that subject, sorted, without
  neighbours of the same id, and cut at \<open>limit\<close>.  When it succeeds, its events are exactly the first
  \<open>limit\<close> events, by id, whose kind or subject is the name, each once.\<close>

theorem event_window_is_one_query:
  assumes "store_ok db" "event_seq db \<le> i64_max" "event_window env inst after_id (Some name) limit db = Inr w"
  shows "collect_rows (decode_stored_event env inst)
      (select_events inst (\<lambda>r. nocase_eq (e_event_kind r) name \<or> nocase_eq (e_subject r) name)
        (uint after_id) (unat limit) (events db)) = Inr (ew_events w)"
proof -
  let ?P = "\<lambda>f x. e_instance_slug (snd x) = inst \<and> nocase_eq (f (snd x)) name \<and> uint after_id < fst x"
  have ids: "ids_wf (events db) (event_seq db)" using assms(1) by (simp add: store_wf_def events_wf_def)
  obtain ks ss where w: "ew_events w = take (unat limit) (dedup_by_id (sort_key sev_id (ks @ ss)))"
    "collect_rows (decode_stored_event env inst) (take (unat limit) (filter (?P e_event_kind) (events db))) = Inr ks"
    "collect_rows (decode_stored_event env inst) (take (unat limit) (filter (?P e_subject) (events db))) = Inr ss"
    using event_window_Inr(3) [OF assms(3)] by (auto simp: select_events_filter [OF ids] case_prod_unfold)
  have "select_events inst (\<lambda>r. nocase_eq (e_event_kind r) name \<or> nocase_eq (e_subject r) name)
      (uint after_id) (unat limit) (events db)
    = take (unat limit) (filter (\<lambda>x. ?P e_event_kind x \<or> ?P e_subject x) (events db))"
    unfolding select_events_filter [OF ids] case_prod_unfold
    by (rule arg_cong [where f = "\<lambda>p. take (unat limit) (filter p (events db))"]) auto
  then show ?thesis using merged_window [OF ids assms(2) w(2,3)] w(1) by simp
qed

definition sample_event :: "string \<Rightarrow> string \<Rightarrow> EventRow" where
  "sample_event k subject = \<lparr>ev_instance_slug = ''h'', ev_event_kind = k, ev_subject = subject,
     ev_correlation_id = None, ev_occurred_at = 0, ev_detail = None\<rparr>"

definition sample_events :: Store where
  "sample_events = run_store_calls
     [(sample_store_env, Append_Event (sample_event ''x'' ''y'')),
      (sample_store_env, Append_Event (sample_event ''y'' ''z''))] empty_store"

lemma sample_events_ok: "store_ok (store_db sample_events)"
  unfolding sample_events_def empty_store_def by (rule wf.run_store_calls_keeps) (simp add: empty_db_wf)

lemma sample_event_window:
  "(case event_window sample_store_env ''h'' 0 (Some ''Y'') 2 (store_db sample_events) of
      Inl _ \<Rightarrow> None | Inr w \<Rightarrow> Some (map sev_id (ew_events w))) = Some [1, 2]"
  "event_seq (store_db sample_events) = 2"
  by code_simp+

theorem event_window_is_one_query_witness:
  "\<exists>w. event_window sample_store_env ''h'' 0 (Some ''Y'') 2 (store_db sample_events) = Inr w
    \<and> map sev_id (ew_events w) = [1, 2]
    \<and> collect_rows (decode_stored_event sample_store_env ''h'')
        (select_events ''h'' (\<lambda>r. nocase_eq (e_event_kind r) ''Y'' \<or> nocase_eq (e_subject r) ''Y'') 0 2
          (events (store_db sample_events))) = Inr (ew_events w)"
proof -
  obtain w where w: "event_window sample_store_env ''h'' 0 (Some ''Y'') 2 (store_db sample_events) = Inr w"
    "map sev_id (ew_events w) = [1, 2]"
    using sample_event_window(1) by (auto split: sum.splits)
  then show ?thesis
    using event_window_is_one_query [OF sample_events_ok _ w(1)] sample_event_window(2) by (simp add: i64_max_def)
qed

section \<open>Paging\<close>

lemma filter_after_last:
  fixes F :: "('a :: linorder \<times> 'b) list"
  assumes "sorted_wrt (<) (map fst F)" "k < length F"
  shows "filter (\<lambda>x. fst (F ! k) < fst x) F = drop (Suc k) F"
proof -
  have "filter (\<lambda>x. fst (F ! k) < fst x) (take (Suc k) F @ drop (Suc k) F) = drop (Suc k) F"
  proof -
    have "\<not> fst (F ! k) < fst x" if "x \<in> set (take (Suc k) F)" for x
      using that assms by (auto simp: in_set_conv_nth sorted_wrt_iff_nth_less less_Suc_eq not_less intro: less_imp_le)
    moreover have "fst (F ! k) < fst x" if "x \<in> set (drop (Suc k) F)" for x
      using that assms by (auto simp: in_set_conv_nth sorted_wrt_iff_nth_less)
    ultimately show ?thesis unfolding filter_append by (simp add: filter_empty_conv)
  qed
  then show ?thesis by simp
qed

lemma take_take_drop: "take n xs @ take m (drop (min n (length xs)) xs) = take (n + m) xs"
  by (cases "n \<le> length xs") (auto simp: take_add min_def)

text \<open>C31. Paging has no gap and no repetition.  A reader that asks for the events after a cursor, and
  then for the events after the last id it was given, sees together exactly the events it would have
  seen in one longer page.\<close>

theorem event_pages_follow:
  assumes "store_ok db" "event_seq db \<le> i64_max"
    and "events_after env inst cursor n db = Inr es1" "es1 \<noteq> []"
    and "events_after env inst (sev_id (last es1)) m db = Inr es2"
  shows "collect_rows (decode_stored_event env inst)
      (select_events inst (\<lambda>_. True) (uint cursor) (unat n + unat m) (events db)) = Inr (es1 @ es2)"
proof -
  let ?dec = "decode_stored_event env inst"
  let ?F = "filter (\<lambda>x. e_instance_slug (snd x) = inst \<and> uint cursor < fst x) (events db)"
  have ids: "ids_wf (events db) (event_seq db)" using assms(1) by (simp add: store_wf_def events_wf_def)
  have sel: "select_events inst (\<lambda>_. True) a k (events db)
      = take k (filter (\<lambda>x. e_instance_slug (snd x) = inst \<and> a < fst x) (events db))" for a k
    by (simp add: select_events_filter [OF ids] case_prod_unfold)
  have page: "collect_rows ?dec (select_events inst (\<lambda>_. True) (uint a) (unat k) (events db)) = Inr es"
    if "events_after env inst a k db = Inr es" for a k es
    using that event_window_Inr(3) by (fastforce simp: events_after_def try_sum_Inr)
  have es1: "collect_rows ?dec (take (unat n) ?F) = Inr es1" using page [OF assms(3)] by (simp add: sel)
  let ?k = "length es1 - 1"
  have len: "length es1 = min (unat n) (length ?F)" "0 < length es1"
    using es1 assms(4) unfolding collect_rows_Inr by (auto simp: min.commute)
  then have k: "?k < length ?F" "?k < unat n" by linarith+
  have last: "?dec (?F ! ?k) = Inr (last es1)"
    using es1 k assms(4) unfolding collect_rows_Inr
    by (metis (no_types, lifting) last_conv_nth length_map nth_map nth_mem nth_take diff_less len(2) zero_less_one)
  have "?F ! ?k \<in> set (events db)" using nth_mem [OF k(1)] by auto
  then have "fst (?F ! ?k) \<le> i64_max" using ids assms(2) by (fastforce simp: ids_wf_def)
  then have lid: "uint (sev_id (last es1)) = fst (?F ! ?k)"
    using decode_stored_event_id [of env inst "fst (?F ! ?k)" "snd (?F ! ?k)"] last uint_u64_try_from_i64 by auto
  have "uint cursor < fst (?F ! ?k)" using nth_mem [OF k(1)] by auto
  then have "filter (\<lambda>x. e_instance_slug (snd x) = inst \<and> fst (?F ! ?k) < fst x) (events db)
      = filter (\<lambda>x. fst (?F ! ?k) < fst x) ?F"
    by (auto intro!: filter_cong)
  also have "\<dots> = drop (length es1) ?F"
    using filter_after_last [of ?F ?k] k(1) len(2) ids
    by (auto simp: ids_wf_def sorted_wrt_map intro: sorted_wrt_filter)
  finally have es2: "collect_rows ?dec (take (unat m) (drop (length es1) ?F)) = Inr es2"
    using page [OF assms(5)] by (simp add: sel lid)
  have "collect_rows ?dec (take (unat n) ?F @ take (unat m) (drop (length es1) ?F)) = Inr (es1 @ es2)"
    using es1 es2 unfolding collect_rows_Inr by auto
  then show ?thesis by (simp add: sel len(1) take_take_drop)
qed

lemma sample_event_pages:
  "(case events_after sample_store_env ''h'' 0 1 (store_db sample_events) of Inl _ \<Rightarrow> None | Inr es \<Rightarrow> Some (map sev_id es))
    = Some [1]"
  "(case events_after sample_store_env ''h'' 1 1 (store_db sample_events) of Inl _ \<Rightarrow> None | Inr es \<Rightarrow> Some (map sev_id es))
    = Some [2]"
  by code_simp+

theorem event_pages_follow_witness:
  "\<exists>es. collect_rows (decode_stored_event sample_store_env ''h'')
      (select_events ''h'' (\<lambda>_. True) 0 2 (events (store_db sample_events))) = Inr es \<and> map sev_id es = [1, 2]"
proof -
  obtain es1 es2 where es: "events_after sample_store_env ''h'' 0 1 (store_db sample_events) = Inr es1" "map sev_id es1 = [1]"
    "events_after sample_store_env ''h'' 1 1 (store_db sample_events) = Inr es2" "map sev_id es2 = [2]"
    using sample_event_pages by (auto split: sum.splits)
  then have "es1 \<noteq> []" "sev_id (last es1) = 1" by auto
  then have "collect_rows (decode_stored_event sample_store_env ''h'')
      (select_events ''h'' (\<lambda>_. True) 0 2 (events (store_db sample_events))) = Inr (es1 @ es2)"
    using event_pages_follow [OF sample_events_ok _ es(1), of 1 es2] es(3) sample_event_window(2)
    by (simp add: i64_max_def numeral_2_eq_2)
  then show ?thesis using es by auto
qed



end
