(* ===== verification/Lifecycle_Service.thy ===== *)
theory Lifecycle_Service
  imports Store_Lifecycle
begin

text \<open>
  The lifecycle application service of \<open>velnor-control\<close> (\<open>lifecycle.rs\<close>) with its port types
  (\<open>ports.rs\<close>): validation of mutation requests, the in-memory ledger, and the durable ledger over
  the operational store with its cache.  A poisoned lock is not modelled; the \<open>resource\<close> field of
  a result is always absent and is left out.
\<close>

section \<open>Requests\<close>

datatype PortError =
    Authorization string
  | Unsupported string
  | Invalid string string
  | Unavailable string
  | Conflict string
  | Operation string

datatype MutationKind = Cordon | Uncordon | Drain | Recycle | Resume | Restart | Scale | Reconcile

record MutationRequest =
  mq_kind :: MutationKind
  mq_target :: string
  mq_reason :: string
  mq_idempotency_key :: string
  mq_expected_version :: "u64 option"
  mq_scale_to :: "u32 option"

record MutationResult =
  mr_operation_id :: string
  mr_phase :: string

definition desired_state :: "MutationKind \<Rightarrow> string" where
  "desired_state kind =
     (case kind of
        Cordon \<Rightarrow> ''cordoned''
      | Uncordon \<Rightarrow> ''ready'' | Resume \<Rightarrow> ''ready''
      | Drain \<Rightarrow> ''draining'' | Restart \<Rightarrow> ''draining''
      | Recycle \<Rightarrow> ''recycling''
      | Scale \<Rightarrow> ''scaling''
      | Reconcile \<Rightarrow> ''reconciling'')"

definition kind_name :: "MutationKind \<Rightarrow> string" where
  "kind_name kind =
     (case kind of
        Cordon \<Rightarrow> ''cordon'' | Uncordon \<Rightarrow> ''uncordon'' | Drain \<Rightarrow> ''drain'' | Recycle \<Rightarrow> ''recycle''
      | Resume \<Rightarrow> ''resume'' | Restart \<Rightarrow> ''restart'' | Scale \<Rightarrow> ''scale'' | Reconcile \<Rightarrow> ''reconcile'')"

definition supports_mutation :: "MutationKind \<Rightarrow> bool" where
  "supports_mutation kind \<longleftrightarrow> kind \<in> {Cordon, Uncordon, Drain, Resume}"

definition MAX_LIFECYCLE_TEXT_BYTES :: nat where
  "MAX_LIFECYCLE_TEXT_BYTES = 512"

definition MAX_SCALE_SLOTS :: u32 where
  "MAX_SCALE_SLOTS = 4096"

definition validate_bounded_text :: "string \<Rightarrow> string \<Rightarrow> bool \<Rightarrow> PortError + unit" where
  "validate_bounded_text field text required =
     (if (required \<and> trim_is_empty text) \<or> MAX_LIFECYCLE_TEXT_BYTES < length text
         \<or> list_ex is_control (chars_of text)
      then Inl (Invalid field ''must be non-empty, control-free, and at most 512 bytes'')
      else Inr ())"

definition validate_request :: "MutationRequest \<Rightarrow> PortError + unit" where
  "validate_request r =
     (if \<not> supports_mutation (mq_kind r) then Inl (Unsupported (kind_name (mq_kind r)))
      else
        try_sum (validate_bounded_text ''reason'' (mq_reason r) True) (\<lambda>_.
        try_sum (validate_bounded_text ''idempotency_key'' (mq_idempotency_key r) True) (\<lambda>_.
        case mq_scale_to r of
          Some n \<Rightarrow>
            if mq_kind r = Scale then
              if 1 \<le> n \<and> n \<le> MAX_SCALE_SLOTS then Inr ()
              else Inl (Invalid ''scale_to'' ''scale requires between 1 and 4096 slots'')
            else Inl (Invalid ''scale_to'' ''scale_to is only valid for scale'')
        | None \<Rightarrow>
            if mq_kind r = Scale
            then Inl (Invalid ''scale_to'' ''scale requires between 1 and 4096 slots'')
            else Inr ())))"

definition validate_target_text :: "string \<Rightarrow> PortError + unit" where
  "validate_target_text target =
     (if slug_ok target then Inr ()
      else Inl (Invalid ''target'' ''target must be a canonical instance identity''))"

definition operation_quota_exhausted :: PortError where
  "operation_quota_exhausted = Unavailable ''lifecycle operation quota exhausted''"

definition store_error :: "StoreError \<Rightarrow> PortError" where
  "store_error e =
     (if se_reason e = ''store.lifecycle.operation_quota'' then operation_quota_exhausted
      else if se_class e = ExConflict then Conflict ''durable lifecycle precondition changed''
      else Operation ''durable lifecycle write failed'')"

section \<open>The service\<close>

record LifecycleState =
  ls_instance :: string
  ls_desired :: string
  ls_observed :: string
  ls_version :: u64
  ls_desired_slots :: "u32 option"

record LifecycleService =
  next_operation :: u64
  cached_instances :: "(string, LifecycleState) table"
  operations :: "(string, MutationResult) table"
  svc_store :: "Store option"
  svc_store_instance :: "string option"
  svc_instance :: "string option"

definition new_service :: LifecycleService where
  "new_service =
     \<lparr>next_operation = 0, cached_instances = [], operations = [], svc_store = None,
      svc_store_instance = None, svc_instance = None\<rparr>"

definition validate_configured_instance :: "string \<Rightarrow> StoreError + unit" where
  "validate_configured_instance inst =
     (if slug_ok inst then Inr () else Inl (StoreError_new ExUsage ''lifecycle.instance.invalid''))"

definition with_store_and_api_instance ::
    "Store \<Rightarrow> string \<Rightarrow> string \<Rightarrow> StoreError + LifecycleService" where
  "with_store_and_api_instance store store_instance api_instance =
     try_sum (validate_configured_instance store_instance) (\<lambda>_.
     try_sum (validate_configured_instance api_instance) (\<lambda>_.
     Inr (new_service\<lparr>svc_store := Some store, svc_store_instance := Some store_instance,
                      svc_instance := Some api_instance\<rparr>)))"

definition with_store_for_instance :: "Store \<Rightarrow> string \<Rightarrow> StoreError + LifecycleService" where
  "with_store_for_instance store inst = with_store_and_api_instance store inst inst"

definition validate_target :: "LifecycleService \<Rightarrow> string \<Rightarrow> PortError + unit" where
  "validate_target svc target =
     try_sum (validate_target_text target) (\<lambda>_.
     if svc_instance svc \<noteq> None \<and> svc_instance svc \<noteq> Some target
     then Inl (Invalid ''target'' ''target must match the configured lifecycle instance'')
     else Inr ())"

definition fresh_state :: "string \<Rightarrow> LifecycleState" where
  "fresh_state inst =
     \<lparr>ls_instance = inst, ls_desired = ''ready'', ls_observed = ''ready'', ls_version = 1,
      ls_desired_slots = None\<rparr>"

definition register :: "string \<Rightarrow> LifecycleService \<Rightarrow> (PortError + LifecycleState) \<times> LifecycleService" where
  "register inst svc =
     (case validate_target svc inst of
        Inl e \<Rightarrow> (Inl e, svc)
      | Inr _ \<Rightarrow>
          (case map_of (cached_instances svc) inst of
             Some s \<Rightarrow> (Inr s, svc)
           | None \<Rightarrow>
               (Inr (fresh_state inst),
                svc\<lparr>cached_instances := tbl_insert inst (fresh_state inst) (cached_instances svc)\<rparr>)))"

definition unavailable_instance :: "string \<Rightarrow> PortError" where
  "unavailable_instance inst = Unavailable (''instance '' @ inst)"

definition state_of_row :: "string \<Rightarrow> LifecycleInstanceRow \<Rightarrow> LifecycleState" where
  "state_of_row inst row =
     \<lparr>ls_instance = inst, ls_desired = li_desired_state row, ls_observed = li_observed_state row,
      ls_version = li_resource_version row, ls_desired_slots = li_desired_slots row\<rparr>"

definition store_slug :: "LifecycleService \<Rightarrow> string \<Rightarrow> string" where
  "store_slug svc inst = (case svc_store_instance svc of Some s \<Rightarrow> s | None \<Rightarrow> inst)"

text \<open>The durable read that \<open>get\<close> and \<open>desired_fresh\<close> share.\<close>

definition read_durable :: "LifecycleService \<Rightarrow> Store \<Rightarrow> string \<Rightarrow> PortError + LifecycleState" where
  "read_durable svc store inst =
     (case lifecycle_instance (store_slug svc inst) (store_db store) of
        Inl e \<Rightarrow> Inl (store_error e)
      | Inr None \<Rightarrow> Inl (unavailable_instance inst)
      | Inr (Some row) \<Rightarrow> Inr (state_of_row inst row))"

definition get_state :: "string \<Rightarrow> LifecycleService \<Rightarrow> PortError + LifecycleState" where
  "get_state inst svc =
     try_sum (validate_target svc inst) (\<lambda>_.
       case map_of (cached_instances svc) inst of
         Some s \<Rightarrow> Inr s
       | None \<Rightarrow>
           (case svc_store svc of
              None \<Rightarrow> Inl (unavailable_instance inst)
            | Some store \<Rightarrow> read_durable svc store inst))"

definition desired_fresh :: "string \<Rightarrow> LifecycleService \<Rightarrow> (PortError + LifecycleState) \<times> LifecycleService" where
  "desired_fresh inst svc =
     (case validate_target svc inst of
        Inl e \<Rightarrow> (Inl e, svc)
      | Inr _ \<Rightarrow>
          (case svc_store svc of
             None \<Rightarrow> (get_state inst svc, svc)
           | Some store \<Rightarrow>
               (case read_durable svc store inst of
                  Inl e \<Rightarrow> (Inl e, svc)
                | Inr s \<Rightarrow>
                    (Inr s, svc\<lparr>cached_instances := tbl_upsert inst s (\<lambda>_. s) (cached_instances svc)\<rparr>))))"

text \<open>The two halves of \<open>mutate\<close>: the durable ledger and the in-memory one.\<close>

definition operation_request :: "string \<Rightarrow> Timestamp \<Rightarrow> string \<Rightarrow> MutationRequest \<Rightarrow> LifecycleOperationRequest" where
  "operation_request store_instance created_at uuid r =
     \<lparr>lr_instance_slug = store_instance, lr_kind = kind_name (mq_kind r), lr_target = mq_target r,
      lr_reason = mq_reason r, lr_idempotency_key = mq_idempotency_key r,
      lr_desired_state = desired_state (mq_kind r), lr_desired_slots = mq_scale_to r,
      lr_expected_version = mq_expected_version r, lr_operation_id = ''op-'' @ uuid,
      lr_created_at = created_at\<rparr>"

definition mutate_durable ::
    "StoreEnv \<Rightarrow> string \<Rightarrow> MutationRequest \<Rightarrow> Store \<Rightarrow> LifecycleService
      \<Rightarrow> (PortError + MutationResult) \<times> LifecycleService" where
  "mutate_durable env uuid r store svc =
     (case record_lifecycle_operation (env\<lparr>clock := (\<lambda>n. clock env (Suc n))\<rparr>)
             (operation_request (store_slug svc (mq_target r)) (clock env 0) uuid r) store of
        (Inl e, store') \<Rightarrow> (Inl (store_error e), svc\<lparr>svc_store := Some store'\<rparr>)
      | (Inr (op, fresh), store') \<Rightarrow>
          let result = \<lparr>mr_operation_id = lo_operation_id op, mr_phase = lo_phase op\<rparr>;
              svc' = svc\<lparr>svc_store := Some store'\<rparr>
          in if \<not> fresh then (Inr result, svc')
             else
               let s = \<lparr>ls_instance = mq_target r, ls_desired = desired_state (mq_kind r),
                        ls_observed = ''ready'', ls_version = lo_resource_version op,
                        ls_desired_slots = mq_scale_to r\<rparr>
               in (Inr result,
                   svc'\<lparr>next_operation := saturating_add_word (next_operation svc) 1,
                        cached_instances := tbl_upsert (mq_target r) s (\<lambda>_. s) (cached_instances svc)\<rparr>))"

definition mutate_in_memory ::
    "MutationRequest \<Rightarrow> LifecycleService \<Rightarrow> (PortError + MutationResult) \<times> LifecycleService" where
  "mutate_in_memory r svc =
     (case map_of (operations svc) (mq_idempotency_key r) of
        Some result \<Rightarrow> (Inr result, svc)
      | None \<Rightarrow>
          if MAX_LIFECYCLE_OPERATIONS_PER_INSTANCE \<le> length (operations svc)
          then (Inl operation_quota_exhausted, svc)
          else
            let s = (case map_of (cached_instances svc) (mq_target r) of
                       Some s \<Rightarrow> s | None \<Rightarrow> fresh_state (mq_target r));
                svc1 = svc\<lparr>cached_instances := tbl_upsert (mq_target r) s (\<lambda>_. s) (cached_instances svc)\<rparr>
            in if mq_expected_version r \<noteq> None \<and> mq_expected_version r \<noteq> Some (ls_version s)
               then (Inl (Conflict ''lifecycle resource version changed''), svc1)
               else
                 let s' = s\<lparr>ls_desired := desired_state (mq_kind r),
                            ls_desired_slots := coalesce (mq_scale_to r) (ls_desired_slots s),
                            ls_version := saturating_add_word (ls_version s) 1\<rparr>;
                     op = saturating_add_word (next_operation svc) 1;
                     result = \<lparr>mr_operation_id = ''op-'' @ decimal (unat op), mr_phase = ''accepted''\<rparr>
                 in (Inr result,
                     svc1\<lparr>cached_instances := tbl_upsert (mq_target r) s' (\<lambda>_. s') (cached_instances svc1),
                          next_operation := op,
                          operations := tbl_insert (mq_idempotency_key r) result (operations svc1)\<rparr>))"

definition mutate ::
    "StoreEnv \<Rightarrow> string \<Rightarrow> MutationRequest \<Rightarrow> LifecycleService
      \<Rightarrow> (PortError + MutationResult) \<times> LifecycleService" where
  "mutate env uuid r svc =
     (case try_sum (validate_request r) (\<lambda>_. validate_target svc (mq_target r)) of
        Inl e \<Rightarrow> (Inl e, svc)
      | Inr _ \<Rightarrow>
          (case svc_store svc of
             Some store \<Rightarrow> mutate_durable env uuid r store svc
           | None \<Rightarrow> mutate_in_memory r svc))"

end
