(* ===== verification/Lifecycle_Properties.thy ===== *)
theory Lifecycle_Properties
  imports Store_Samples Lifecycle_Service
begin

text \<open>
  Lifecycle intents: the resource version of an instance only grows, an accepted intent is accepted
  once, and what the lifecycle service caches of it.
\<close>

section \<open>Calls on jobs, slots and events leave the lifecycle tables alone\<close>

definition lifecycle_tables ::
    "OpDb \<Rightarrow> (string, InstanceDbRow) table \<times> (string \<times> string, LifecycleOperationDbRow) table" where
  "lifecycle_tables db = (instances db, lifecycle_operations db)"

lemma append_event_tables:
  "append_event_with_ancestry env now row a b db = Inr (eid, db') \<Longrightarrow> lifecycle_tables db' = lifecycle_tables db"
  using append_event_Inr(3) by (fastforce simp: lifecycle_tables_def insert_event_def)

lemma delete_reservation_tables:
  "delete_job_storage_reservation inst uid db = Inr (b, db') \<Longrightarrow> lifecycle_tables db' = lifecycle_tables db"
  by (auto simp: delete_job_storage_reservation_def lifecycle_tables_def split: option.splits if_splits)

lemma job_transition_tables:
  assumes "record_job_transition_in_transaction env now inst uid tr db = Inr (applied, db')"
  shows "lifecycle_tables db' = lifecycle_tables db"
  using assms
proof (cases rule: job_transition_Inr)
  case (step j src target eid db3)
  have "lifecycle_tables db3 = lifecycle_tables db"
    using append_event_tables [OF step(6)] by (simp add: lifecycle_tables_def move_job_def insert_transition_def)
  then show ?thesis using step(7) delete_reservation_tables by (auto split: if_splits)
qed simp

lemma apply_slot_tables:
  "apply_slot_transition env now i t db = Inr db' \<Longrightarrow> lifecycle_tables db' = lifecycle_tables db"
  by (auto simp: apply_slot_transition_def append_event_in_transaction_def try_sum_Inr Let_def
      lifecycle_tables_def dest!: append_event_tables)

lemma slot_transition_tables:
  assumes "record_slot_transition_in_transaction env now i t db = Inr (committed, db')"
  shows "lifecycle_tables db' = lifecycle_tables db"
  using assms by (cases rule: slot_transition_Inr) (simp_all add: apply_slot_tables)

lemma record_next_tables:
  assumes "record_next_in_transaction env i r db = Inr (committed, db')"
  shows "lifecycle_tables db' = lifecycle_tables db"
  using assms
proof (cases rule: record_next_Inr)
  case (won current n db1)
  then show ?thesis
    using slot_transition_tables [OF won(5)]
    by (simp add: lifecycle_tables_def insert_slot_request_def prune_slot_transition_requests_def Let_def)
qed simp

interpretation tables: job_steps "\<lambda>db. lifecycle_tables db = T" for T
proof (unfold_locales, goal_cases)
  case 1 then show ?case by (simp add: append_event_tables)
next
  case 2 then show ?case
    by (auto simp: insert_summary_def upsert_job_def lifecycle_tables_def Let_def split: option.splits if_splits)
next
  case 4 then show ?case by (simp add: job_transition_tables)
next
  case 5 then show ?case by (auto simp: insert_job_storage_reservation_def lifecycle_tables_def split: if_splits)
next
  case 6 then show ?case by (simp add: delete_reservation_tables)
next
  case 7 then show ?case by (simp add: slot_transition_tables)
next
  case 8 then show ?case by (simp add: record_next_tables)
qed (simp_all add: lifecycle_tables_def upsert_job_def)

section \<open>Resource versions\<close>

definition version_of :: "string \<Rightarrow> OpDb \<Rightarrow> int option" where
  "version_of inst db = map_option i_resource_version (map_of (instances db) inst)"

lemma saturating_succ:
  assumes "u64_try_from_i64 v = Some w" "v < i64_max"
  shows "uint (saturating_add_word w 1) = v + 1" "as_i64 (saturating_add_word w 1) = v + 1"
proof -
  have w: "uint w = v" using assms uint_u64_try_from_i64 [of v w] by simp
  then have "uint (w + 1) = v + 1" using uint_succ_u64 [of w] assms(2) by simp
  moreover have "unat w < 18446744073709551615"
    using assms(2) by (simp add: unat_eq_nat_uint w i64_max_def)
  ultimately show u: "uint (saturating_add_word w 1) = v + 1" by (simp add: saturating_add_word_def)
  then show "as_i64 (saturating_add_word w 1) = v + 1"
    using assms(2) uint_ge_0 [of w] unfolding as_i64_def w
    by (simp add: sint_uint signed_take_bit_int_eq_self i64_max_def)
qed

lemma version_accept_intent:
  "version_of inst (accept_intent env at r v db) =
     (if inst = lr_instance_slug r then Some (as_i64 v) else version_of inst db)"
  by (auto simp: version_of_def accept_intent_def Let_def split: option.splits)

lemma version_observe_instance:
  "version_of inst' (observe_instance env inst observed expected v db) =
     (if inst' = inst then map_option (\<lambda>_. as_i64 v) (version_of inst db) else version_of inst' db)"
  by (auto simp: version_of_def observe_instance_def option.map_comp comp_def)

lemma version_reclaim: "version_of inst (reclaim_operations a b db) = version_of inst db"
  by (simp add: version_of_def reclaim_operations_def)

lemma version_intent:
  assumes "record_lifecycle_in_transaction env r db = Inr ((op, fresh), db')"
    and "version_of inst db = Some v" "0 \<le> v" "v < i64_max"
  shows "version_of inst db' \<in> {Some v, Some (v + 1)}"
  using assms(1)
proof (cases rule: lifecycle_Inr)
  case (fresh db1)
  have "version_of a db1 = version_of a db" for a using fresh(2) version_reclaim by auto
  moreover have "as_i64 (saturating_add_word (current_version inst db) 1) = v + 1"
  proof (rule saturating_succ(2) [OF _ assms(4)])
    show "u64_try_from_i64 v = Some (current_version inst db)"
      using assms(2,3) by (auto simp: version_of_def current_version_def u64_try_from_i64_def)
  qed
  ultimately show ?thesis using assms(2) by (auto simp: fresh(7,8) version_accept_intent)
qed (use assms(2) in simp)

lemma version_observe:
  assumes "observe_in_transaction env inst observed expected db = Inr ((row, changed), db')"
    and "version_of inst' db = Some v" "0 \<le> v" "v < i64_max"
  shows "version_of inst' db' \<in> {Some v, Some (v + 1)}"
  using assms(1)
proof (cases rule: observe_Inr)
  case (confirmed current)
  have "u64_try_from_i64 v = Some expected" if "inst' = inst"
    using that confirmed(2,3) assms(2)
    by (auto simp: lifecycle_instance_def lifecycle_instance_row_def required_column_def version_of_def try_sum_Inr
        split: option.splits)
  then show ?thesis
    using assms(2) saturating_succ(2) [OF _ assms(4)] by (auto simp: confirmed(5) version_observe_instance)
qed (use assms(2) in simp)

lemma version_call:
  assumes "version_of inst (store_db S) = Some v" "0 \<le> v" "v < i64_max"
  shows "version_of inst (store_db (apply_store_call env c S)) \<in> {Some v, Some (v + 1)}"
proof (cases "lifecycle_call c")
  case False
  have "lifecycle_tables (store_db (apply_store_call env c S)) = lifecycle_tables (store_db S)"
    using tables.job_call_keeps [OF refl False] .
  then show ?thesis using assms(1) by (simp add: lifecycle_tables_def version_of_def)
next
  case True
  have commit: "version_of inst (store_db (snd (run_store (commit_of m) S))) \<in> {Some v, Some (v + 1)}"
    if "\<And>a b db. m = Inr ((a, b), db) \<Longrightarrow> version_of inst db \<in> {Some v, Some (v + 1)}"
    for m :: "(('a \<times> bool) \<times> OpDb) store_result"
    using that assms(1) by (auto simp: run_store_commit_of split: sum.splits prod.splits)
  show ?thesis
  proof (cases c)
    case (Upsert_Instance row)
    then show ?thesis
      using assms(1) by (auto simp: upsert_instance_def Let_def version_of_def split: option.splits)
  next
    case (Record_Lifecycle_Operation r)
    then show ?thesis
      unfolding Record_Lifecycle_Operation apply_store_call.simps record_lifecycle_operation_def
      by (intro commit) (rule version_intent [OF _ assms])
  next
    case (Record_Lifecycle_Observed a observed e)
    then show ?thesis
      unfolding Record_Lifecycle_Observed apply_store_call.simps record_lifecycle_observed_def
      by (intro commit) (rule version_observe [OF _ assms])
  qed (use True in simp_all)
qed

text \<open>C33. Resource versions only grow.  The version of an instance never goes back under any sequence of
  calls, and each call raises it by at most one, as long as it has not reached the largest value the
  column holds.\<close>

theorem resource_version_monotone:
  assumes "version_of inst (store_db S) = Some v" "0 \<le> v" "v + int (length cs) \<le> i64_max"
  shows "\<exists>v'. version_of inst (store_db (run_store_calls cs S)) = Some v' \<and> v \<le> v' \<and> v' \<le> v + int (length cs)"
  using assms
proof (induction cs arbitrary: S v)
  case (Cons c cs)
  let ?S = "apply_store_call (fst c) (snd c) S"
  obtain v1 where v1: "version_of inst (store_db ?S) = Some v1" "v1 \<in> {v, v + 1}"
    using version_call [OF Cons.prems(1,2), of "fst c" "snd c"] Cons.prems(3) by auto
  then show ?case using Cons.IH [OF v1(1)] Cons.prems(2,3) by fastforce
qed simp

definition sample_instance :: InstanceRow where
  "sample_instance = \<lparr>in_instance_slug = ''host-1'', in_host = ''h'', in_daemon_version = ''1'', in_slots_configured = 2,
     in_slots_busy = 0, in_updated_at = 0\<rparr>"

definition sample_intent :: "string \<Rightarrow> u64 option \<Rightarrow> LifecycleOperationRequest" where
  "sample_intent key expected = \<lparr>lr_instance_slug = ''host-1'', lr_kind = ''scale'', lr_target = ''host-1'', lr_reason = ''r'',
     lr_idempotency_key = key, lr_desired_state = ''ready'', lr_desired_slots = Some 3, lr_expected_version = expected,
     lr_operation_id = ''op-'' @ key, lr_created_at = 0\<rparr>"

definition sample_lifecycle :: Store where
  "sample_lifecycle = apply_store_call sample_store_env (Upsert_Instance sample_instance) empty_store"

theorem resource_version_monotone_witness:
  "\<exists>v'. version_of ''host-1'' (store_db (run_store_calls
      [(sample_store_env, Record_Lifecycle_Operation (sample_intent ''k1'' None))] sample_lifecycle)) = Some v' \<and> 1 \<le> v'"
proof -
  have "version_of ''host-1'' (store_db sample_lifecycle) = Some 1" by code_simp
  from resource_version_monotone [OF this, of "[(sample_store_env, Record_Lifecycle_Operation (sample_intent ''k1'' None))]"]
  show ?thesis by (auto simp: i64_max_def)
qed

section \<open>Intents are accepted once\<close>

lemma fresh_intent_stored:
  assumes "record_lifecycle_in_transaction env r db = Inr ((op, True), db')"
  shows "map_of (lifecycle_operations db') (lr_instance_slug r, lr_idempotency_key r) =
    Some \<lparr>o_operation_id = lr_operation_id r, o_kind = lr_kind r, o_target = lr_target r, o_reason = lr_reason r,
      o_desired_state = lr_desired_state r, o_resource_version = as_i64 (lo_resource_version op),
      o_phase = ''accepted'', o_created_at = rfc3339 env (clock env 1),
      o_desired_slots = map_option uint (lr_desired_slots r),
      o_expected_version = map_option uint (lr_expected_version r)\<rparr>"
  using assms
proof (cases rule: lifecycle_Inr)
  case (fresh db1)
  have "map_of (lifecycle_operations db1) (lr_instance_slug r, lr_idempotency_key r) = None"
    using fresh(2,3) by (auto simp: reclaim_operations_def map_of_eq_None_iff)
  then show ?thesis by (simp add: fresh(8) accept_intent_def Let_def)
qed simp

lemma u64_try_from_i64_as_i64:
  assumes "uint w \<le> i64_max"
  shows "u64_try_from_i64 (as_i64 w) = Some w"
proof -
  have "signed_take_bit 63 (uint w) = uint w"
    by (rule signed_take_bit_int_eq_self) (use assms in \<open>auto simp: i64_max_def intro: order_trans [OF _ uint_ge_0]\<close>)
  then show ?thesis by (simp add: u64_try_from_i64_def as_i64_def sint_uint)
qed

lemma u64_try_from_i64_uint: "u64_try_from_i64 (uint w) = Some w"
  by (simp add: u64_try_from_i64_def)

lemma optional_column_uint:
  "optional_column u32_try_from_i64 (map_option uint a) = Inr a"
  "optional_column u64_try_from_i64 (map_option uint b) = Inr b"
  by (cases a; cases b; simp add: optional_column_def transpose_map_def u64_try_from_i64_uint)+

text \<open>An intent that was just accepted is read back as it was returned.\<close>

lemma fresh_intent_reads_back:
  assumes "record_lifecycle_in_transaction env r db = Inr ((op, True), db')" "uint (lo_resource_version op) \<le> i64_max"
    and "parse_rfc3339 env' (rfc3339 env (clock env 1)) = Some (clock env 1)"
    and "lifecycle_tables db2 = lifecycle_tables db'"
  shows "lifecycle_operation_query env' (lr_instance_slug r) (lr_idempotency_key r) db2 = Inr (Some op)" "same_request op r"
proof -
  have op: "op = accepted_operation r (lo_resource_version op) (clock env 1)"
    using assms(1) by (cases rule: lifecycle_Inr) auto
  show "same_request op r" by (subst op) (simp add: same_request_def accepted_operation_def)
  have "map_of (lifecycle_operations db2) (lr_instance_slug r, lr_idempotency_key r)
      = map_of (lifecycle_operations db') (lr_instance_slug r, lr_idempotency_key r)"
    using assms(4) by (simp add: lifecycle_tables_def)
  then show "lifecycle_operation_query env' (lr_instance_slug r) (lr_idempotency_key r) db2 = Inr (Some op)"
    using fresh_intent_stored [OF assms(1)] assms(2,3)
    by (subst op) (simp add: lifecycle_operation_query_def accepted_operation_def optional_column_uint
        required_column_def u64_try_from_i64_as_i64)
qed

text \<open>C13. A lifecycle intent is accepted once.  After an intent was accepted, repeating the request
  answers with the recorded operation, as a replay and without a change, whatever calls on jobs,
  slots and events happened in between, even if the expected version has moved on.  The recorded
  version must fit its column, and the time library must read back the recorded timestamp.\<close>

theorem lifecycle_intent_applies_once:
  assumes "record_lifecycle_operation env r S = (Inr (op, True), S1)" "uint (lo_resource_version op) \<le> i64_max"
    and "parse_rfc3339 env' (rfc3339 env (clock env 1)) = Some (clock env 1)"
    and "\<forall>(e, c) \<in> set cs. \<not> lifecycle_call c" "S2 = run_store_calls cs S1"
  shows "record_lifecycle_operation env' r S2 = (Inr (op, False), S2)"
proof -
  have tx: "record_lifecycle_in_transaction env r (store_db S) = Inr ((op, True), store_db S1)"
    using assms(1) by (auto simp: record_lifecycle_operation_def run_store_commit_of split: sum.splits prod.splits)
  have "lifecycle_tables (store_db S2) = lifecycle_tables (store_db S1)"
    using tables.job_calls_keep [OF refl assms(4)] assms(5) by simp
  from fresh_intent_reads_back [OF tx assms(2,3) this] show ?thesis
    by (simp add: record_lifecycle_operation_def record_lifecycle_in_transaction_def run_store_commit_of)
qed

theorem lifecycle_intent_applies_once_witness:
  "\<exists>op S1. record_lifecycle_operation sample_store_env (sample_intent ''k1'' (Some 1)) sample_lifecycle = (Inr (op, True), S1)
    \<and> record_lifecycle_operation sample_store_env (sample_intent ''k1'' (Some 1)) S1 = (Inr (op, False), S1)"
proof -
  let ?r = "record_lifecycle_operation sample_store_env (sample_intent ''k1'' (Some 1)) sample_lifecycle"
  have "(case fst ?r of Inl _ \<Rightarrow> None | Inr (op, fresh) \<Rightarrow> Some (lo_resource_version op, fresh)) = Some (2, True)"
    by (simp add: record_lifecycle_operation_def record_lifecycle_in_transaction_def run_store_commit_of Let_def
        lifecycle_operation_query_def operation_count_def MAX_LIFECYCLE_OPERATIONS_PER_INSTANCE_def current_version_def
        sample_lifecycle_def sample_intent_def sample_instance_def upsert_instance_def empty_store_def empty_db_def
        tbl_upsert_def tbl_insert_def u64_try_from_i64_def i64_max_def saturating_add_word_def accepted_operation_def)
  then obtain op where op: "?r = (Inr (op, True), snd ?r)" "lo_resource_version op = 2"
    by (cases ?r) (auto split: sum.splits)
  have "record_lifecycle_operation sample_store_env (sample_intent ''k1'' (Some 1)) (snd ?r) = (Inr (op, False), snd ?r)"
    by (rule lifecycle_intent_applies_once [where cs = "[]", OF op(1)])
      (simp_all add: op(2) i64_max_def sample_store_env_def)
  then show ?thesis using op(1) by blast
qed

section \<open>The lifecycle service\<close>

lemma as_i64_nonneg:
  assumes "0 \<le> as_i64 w"
  shows "uint w \<le> i64_max"
proof -
  have "\<not> bit (uint w) 63" using assms by (simp add: as_i64_def sint_uint)
  then have "signed_take_bit 63 (uint w) = uint w"
    using uint_lt2p [of w] by (simp add: signed_take_bit_eq_take_bit_minus take_bit_eq_mod)
  moreover have "signed_take_bit 63 (uint w) < 2 ^ 63" by (rule signed_take_bit_int_less_exp)
  ultimately show ?thesis by (simp add: i64_max_def)
qed

lemma record_intent_cases:
  assumes "record_lifecycle_operation env r store = (Inr (op, fresh), store')"
  shows "record_lifecycle_in_transaction env r (store_db store) = Inr ((op, fresh), store_db store')"
    "store' = store\<lparr>store_db := store_db store'\<rparr>"
  using assms by (auto simp: record_lifecycle_operation_def run_store_commit_of split: sum.splits prod.splits)

lemma intent_repeats:
  assumes "record_lifecycle_operation env r store = (Inr (op, fresh), store')"
    and "\<And>at. parse_rfc3339 env (rfc3339 env at) = Some at"
    and "\<And>v. version_of (lr_instance_slug r) (store_db store') = Some v \<Longrightarrow> 0 \<le> v"
    and "env' = env\<lparr>clock := c\<rparr>" "r' = r\<lparr>lr_operation_id := oid, lr_created_at := at\<rparr>"
  shows "record_lifecycle_operation env' r' store' = (Inr (op, False), store')"
proof -
  note tx = record_intent_cases(1) [OF assms(1)]
  have "lifecycle_operation_query env (lr_instance_slug r) (lr_idempotency_key r) (store_db store') = Inr (Some op)
      \<and> same_request op r"
  proof (cases fresh)
    case True
    have "0 \<le> as_i64 (lo_resource_version op)"
      using tx
    proof (cases rule: lifecycle_Inr)
      case (fresh db1)
      then show ?thesis using assms(3) by (simp add: version_accept_intent)
    qed (use True in simp)
    then have "uint (lo_resource_version op) \<le> i64_max" by (rule as_i64_nonneg)
    moreover have "record_lifecycle_in_transaction env r (store_db store) = Inr ((op, True), store_db store')"
      using tx True by simp
    ultimately show ?thesis using fresh_intent_reads_back assms(2) by blast
  next
    case False
    show ?thesis using tx by (cases rule: lifecycle_Inr) (use False in auto)
  qed
  moreover have "lifecycle_operation_query env' = lifecycle_operation_query env"
  proof -
    have "parse_rfc3339 env' = parse_rfc3339 env" by (simp add: assms(4))
    then show ?thesis by (intro ext) (unfold lifecycle_operation_query_def, simp only:)
  qed
  ultimately show ?thesis
    by (simp add: record_lifecycle_operation_def record_lifecycle_in_transaction_def run_store_commit_of assms(5)
        same_request_def)
qed

lemma validate_target_store: "validate_target (svc\<lparr>svc_store := s\<rparr>) = validate_target svc"
  by (intro ext) (simp add: validate_target_def)

lemma mutate_Inr:
  assumes "mutate env uuid r svc = (Inr res, svc1)"
  shows "try_sum (validate_request r) (\<lambda>_. validate_target svc (mq_target r)) = Inr ()"
    "case svc_store svc of
       Some store \<Rightarrow> mutate_durable env uuid r store svc = (Inr res, svc1)
     | None \<Rightarrow> mutate_in_memory r svc = (Inr res, svc1)"
  using assms by (auto simp: mutate_def split: sum.splits option.splits)


definition sample_mutation :: MutationRequest where
  "sample_mutation = \<lparr>mq_kind = Drain, mq_target = ''host-1'', mq_reason = ''r'', mq_idempotency_key = ''k'',
     mq_expected_version = None, mq_scale_to = None\<rparr>"

lemma sample_mutation_valid:
  "validate_request sample_mutation = Inr ()" "validate_target_text (mq_target sample_mutation) = Inr ()"
  by code_simp+

lemma sample_mutation_accepted:
  "\<exists>res svc1. mutate unary_env ''u'' sample_mutation new_service = (Inr res, svc1) \<and> svc_store svc1 = None"
proof -
  have "\<exists>res svc1. mutate_in_memory sample_mutation new_service = (Inr res, svc1) \<and> svc_store svc1 = None"
    by (simp add: mutate_in_memory_def Let_def new_service_def sample_mutation_def MAX_LIFECYCLE_OPERATIONS_PER_INSTANCE_def)
  then show ?thesis
    using sample_mutation_valid by (auto simp: mutate_def validate_target_def new_service_def)
qed


section \<open>The cache of the lifecycle service\<close>

lemma accepted_scale: "validate_request r = Inr () \<Longrightarrow> mq_scale_to r = None"
  by (auto simp: validate_request_def supports_mutation_def try_sum_Inr split: if_splits option.splits)

lemma new_intent_row:
  assumes "record_lifecycle_in_transaction env r db = Inr ((op, fresh), db')"
    and "map_of (lifecycle_operations db) (lr_instance_slug r, lr_idempotency_key r) = None"
    and "map_of (instances db) (lr_instance_slug r) = Some row"
    and "0 \<le> i_resource_version row" "i_resource_version row < i64_max"
  shows "fresh" "uint (lo_resource_version op) \<le> i64_max"
    "map_of (instances db') (lr_instance_slug r) = Some (row\<lparr>i_desired_state := lr_desired_state r,
       i_resource_version := as_i64 (lo_resource_version op),
       i_desired_slots := coalesce (map_option uint (lr_desired_slots r)) (i_desired_slots row),
       i_updated_at := rfc3339 env (clock env 1)\<rparr>)"
proof -
  have "fresh \<and> uint (lo_resource_version op) \<le> i64_max \<and>
    map_of (instances db') (lr_instance_slug r) = Some (row\<lparr>i_desired_state := lr_desired_state r,
       i_resource_version := as_i64 (lo_resource_version op),
       i_desired_slots := coalesce (map_option uint (lr_desired_slots r)) (i_desired_slots row),
       i_updated_at := rfc3339 env (clock env 1)\<rparr>)"
    using assms(1)
  proof (cases rule: lifecycle_Inr)
    case (fresh db1)
    have "u64_try_from_i64 (i_resource_version row) = Some (current_version (lr_instance_slug r) db)"
      using assms(3,4) by (simp add: current_version_def u64_try_from_i64_def)
    then have "uint (lo_resource_version op) \<le> i64_max"
      using saturating_succ(1) [OF _ assms(5)] assms(5) fresh(7) by simp
    moreover have "instances db1 = instances db" using fresh(2) by (auto simp: reclaim_operations_def)
    ultimately show ?thesis using fresh(1,8) assms(3) by (simp add: accept_intent_def Let_def)
  next
    case replay
    then show ?thesis using assms(2) by (auto simp: lifecycle_operation_query_def)
  qed
  then show "fresh" "uint (lo_resource_version op) \<le> i64_max"
    "map_of (instances db') (lr_instance_slug r) = Some (row\<lparr>i_desired_state := lr_desired_state r,
       i_resource_version := as_i64 (lo_resource_version op),
       i_desired_slots := coalesce (map_option uint (lr_desired_slots r)) (i_desired_slots row),
       i_updated_at := rfc3339 env (clock env 1)\<rparr>)"
    by blast+
qed

text \<open>C35. The cached state of an instance can differ from its row.  After a new intent is accepted, the
  cached read reports the instance as observed ready and without a desired number of slots, while
  the durable read reports the observed state and the number of slots the row still has; only the
  version and the desired state agree.\<close>

theorem mutate_cache_differs_from_row:
  assumes "svc_store svc = Some store" "mutate env uuid r svc = (Inr res, svc1)"
    and "map_of (lifecycle_operations (store_db store)) (store_slug svc (mq_target r), mq_idempotency_key r) = None"
    and "map_of (instances (store_db store)) (store_slug svc (mq_target r)) = Some row"
    and "0 \<le> i_resource_version row" "i_resource_version row < i64_max" "i_desired_slots row = map_option uint d"
  shows "\<exists>s s'. get_state (mq_target r) svc1 = Inr s \<and> ls_observed s = ''ready'' \<and> ls_desired_slots s = None
    \<and> fst (desired_fresh (mq_target r) svc1) = Inr s' \<and> ls_observed s' = i_observed_state row \<and> ls_desired_slots s' = d
    \<and> ls_version s' = ls_version s \<and> ls_desired s' = ls_desired s"
proof -
  let ?shift = "env\<lparr>clock := \<lambda>n. clock env (Suc n)\<rparr>" and ?slug = "store_slug svc (mq_target r)"
  let ?q = "operation_request ?slug (clock env 0) uuid r"
  have scale: "mq_scale_to r = None" using mutate_Inr(1) [OF assms(2)] accepted_scale by (auto simp: try_sum_Inr)
  have target: "validate_target svc (mq_target r) = Inr ()"
    using mutate_Inr(1) [OF assms(2)] by (auto simp: try_sum_Inr)
  have dur: "mutate_durable env uuid r store svc = (Inr res, svc1)" using mutate_Inr(2) [OF assms(2)] assms(1) by simp
  then obtain op fresh store' where rec: "record_lifecycle_operation ?shift ?q store = (Inr (op, fresh), store')"
    by (auto simp: mutate_durable_def split: sum.splits prod.splits)
  have q: "lr_instance_slug ?q = ?slug" "lr_idempotency_key ?q = mq_idempotency_key r"
    "lr_desired_state ?q = desired_state (mq_kind r)" "lr_desired_slots ?q = None"
    by (simp_all add: operation_request_def scale)
  note new = new_intent_row [OF record_intent_cases(1) [OF rec], unfolded q, OF assms(3-6)]
  let ?s = "\<lparr>ls_instance = mq_target r, ls_desired = desired_state (mq_kind r), ls_observed = ''ready'',
    ls_version = lo_resource_version op, ls_desired_slots = None\<rparr>"
  have svc1: "svc1 = svc\<lparr>svc_store := Some store', next_operation := saturating_add_word (next_operation svc) 1,
      cached_instances := tbl_upsert (mq_target r) ?s (\<lambda>_. ?s) (cached_instances svc)\<rparr>"
    using dur new(1) by (simp add: mutate_durable_def rec Let_def scale)
  have "lifecycle_instance ?slug (store_db store') = Inr (Some \<lparr>li_instance_slug = ?slug,
      li_desired_state = desired_state (mq_kind r), li_observed_state = i_observed_state row,
      li_resource_version = lo_resource_version op, li_desired_slots = d\<rparr>)"
    using new(3) assms(7)
    by (simp add: lifecycle_instance_def lifecycle_instance_row_def required_column_def coalesce_def
        u64_try_from_i64_as_i64 [OF new(2)] optional_column_uint)
  then show ?thesis
    using target by (simp add: svc1 get_state_def desired_fresh_def read_durable_def state_of_row_def store_slug_def
        validate_target_def map_of_tbl_upsert split: option.splits)
qed

text \<open>A service over a store whose instance has been observed draining.\<close>

definition draining_service :: LifecycleService where
  "draining_service = new_service\<lparr>svc_store :=
     Some (apply_store_call sample_store_env (Record_Lifecycle_Observed ''host-1'' ''draining'' 1) sample_lifecycle)\<rparr>"

lemma draining_service_row:
  "\<exists>store row. svc_store draining_service = Some store \<and> store_slug draining_service ''host-1'' = ''host-1''
    \<and> lifecycle_operations (store_db store) = [] \<and> map_of (instances (store_db store)) ''host-1'' = Some row
    \<and> i_resource_version row = 2 \<and> i_desired_slots row = None \<and> i_observed_state row = ''draining''"
proof -
  let ?db = "store_db sample_lifecycle"
  have db: "map_of (instances ?db) ''host-1'' = Some \<lparr>i_host = ''h'', i_daemon_version = ''1'', i_slots_configured = 2,
      i_slots_busy = 0, i_updated_at = rfc3339 sample_store_env 0, i_desired_state = ''ready'',
      i_observed_state = ''ready'', i_resource_version = 1, i_desired_slots = None\<rparr>" "lifecycle_operations ?db = []"
    by (simp_all add: sample_lifecycle_def sample_instance_def upsert_instance_def empty_store_def empty_db_def Let_def)
  then have "lifecycle_instance ''host-1'' ?db = Inr (Some \<lparr>li_instance_slug = ''host-1'', li_desired_state = ''ready'',
      li_observed_state = ''ready'', li_resource_version = 1, li_desired_slots = None\<rparr>)"
    by (simp add: lifecycle_instance_def lifecycle_instance_row_def required_column_def optional_column_def transpose_map_def
        u64_try_from_i64_def i64_max_def)
  then show ?thesis
    using db by (auto simp: draining_service_def new_service_def store_slug_def record_lifecycle_observed_def
        run_store_commit_of observe_in_transaction_def observe_instance_def saturating_add_word_def as_i64_def)
qed

lemma draining_service_accepts:
  "\<exists>res svc1. mutate sample_store_env ''u'' sample_mutation draining_service = (Inr res, svc1)"
proof -
  let ?svc = draining_service and ?env = "sample_store_env\<lparr>clock := \<lambda>n. clock sample_store_env (Suc n)\<rparr>"
  obtain store row where store: "svc_store ?svc = Some store" "store_slug ?svc ''host-1'' = ''host-1''"
    "lifecycle_operations (store_db store) = []" "map_of (instances (store_db store)) ''host-1'' = Some row"
    "i_resource_version row = 2"
    using draining_service_row by blast
  let ?q = "operation_request ''host-1'' (clock sample_store_env 0) ''u'' sample_mutation"
  have "\<exists>op S. record_lifecycle_operation ?env ?q store = (Inr (op, True), S)"
    using store(3-5)
    by (simp add: record_lifecycle_operation_def record_lifecycle_in_transaction_def run_store_commit_of Let_def
        lifecycle_operation_query_def operation_count_def MAX_LIFECYCLE_OPERATIONS_PER_INSTANCE_def current_version_def
        operation_request_def sample_mutation_def u64_try_from_i64_def i64_max_def)
  then have "\<exists>res svc1. mutate_durable sample_store_env ''u'' sample_mutation store ?svc = (Inr res, svc1)"
    using store(2) by (auto simp: mutate_durable_def Let_def sample_mutation_def)
  moreover have "svc_instance ?svc = None" by (simp add: draining_service_def new_service_def)
  ultimately show ?thesis using sample_mutation_valid store(1) by (auto simp: mutate_def validate_target_def)
qed

theorem mutate_cache_differs_from_row_witness:
  "\<exists>res svc1 s s'. mutate sample_store_env ''u'' sample_mutation draining_service = (Inr res, svc1)
    \<and> get_state ''host-1'' svc1 = Inr s \<and> ls_observed s = ''ready''
    \<and> fst (desired_fresh ''host-1'' svc1) = Inr s' \<and> ls_observed s' = ''draining''"
proof -
  obtain store row where store: "svc_store draining_service = Some store" "store_slug draining_service ''host-1'' = ''host-1''"
    "lifecycle_operations (store_db store) = []" "map_of (instances (store_db store)) ''host-1'' = Some row"
    "i_resource_version row = 2" "i_desired_slots row = None" "i_observed_state row = ''draining''"
    using draining_service_row by blast
  obtain res svc1 where m: "mutate sample_store_env ''u'' sample_mutation draining_service = (Inr res, svc1)"
    using draining_service_accepts by blast
  have "mq_target sample_mutation = ''host-1''" by (simp add: sample_mutation_def)
  then show ?thesis
    using mutate_cache_differs_from_row [OF store(1) m, of row None] m store(2-7) by (auto simp: i64_max_def)
qed

end
