(* ===== verification/Admission_Properties.thy ===== *)
theory Admission_Properties
  imports Store_Samples
begin

text \<open>
  The admission budget.  Every admitted job claims a fixed amount of storage until it ends; a job is
  admitted only when the database, its write-ahead log and all claims fit the configured limits.
\<close>

lemma checked_add_u64_Some:
  "checked_add_u64 a b = Some c \<longleftrightarrow> uint a + uint b < 2 ^ 64 \<and> c = a + b"
  by (auto simp: checked_add_u64_def)

lemma checked_add_u64_uint: "checked_add_u64 a b = Some c \<Longrightarrow> uint c = uint a + uint b"
  by (simp add: checked_add_u64_Some uint_plus_simple_iff [symmetric] word_le_nat_alt uint_word_ariths)

lemma admitted_budget:
  assumes "physical_budget_status_with_reservation env budget additional db = Inr st" "admits_job st"
    and "database_bytes env = Inr (d, w)" "0 \<le> reserved_bytes db" "reserved_bytes db \<le> i64_max"
  shows "max_database_bytes budget \<noteq> 0 \<Longrightarrow>
      uint d + uint w + (reserved_bytes db + uint additional) \<le> uint (max_database_bytes budget)"
    and "\<exists>f. free_bytes env = Some f \<and> uint (min_free_bytes budget) + (reserved_bytes db + uint additional) \<le> uint f"
proof -
  note unfolded = assms(1) [unfolded physical_budget_status_with_reservation_def Let_def assms(3)]
  obtain reserved where r: "storage_reservation_bytes db = Inr reserved" using unfolded
    by (cases "storage_reservation_bytes db") simp_all
  obtain claimed where claimed: "checked_add_u64 reserved additional = Some claimed" using unfolded r
    by (cases "checked_add_u64 reserved additional") simp_all
  obtain b where b: "checked_add_u64 d w = Some b" using unfolded r claimed
    by (cases "checked_add_u64 d w") simp_all
  obtain projected where projected: "checked_add_u64 b claimed = Some projected" using unfolded r claimed b
    by (cases "checked_add_u64 b claimed") simp_all
  obtain free where free: "checked_add_u64 (min_free_bytes budget) claimed = Some free" using unfolded r claimed b projected
    by (cases "checked_add_u64 (min_free_bytes budget) claimed") simp_all
  have st: "st = evaluate_admission_physical_budget projected (free_bytes env) (budget\<lparr>min_free_bytes := free\<rparr>)"
    using unfolded r claimed b projected free by simp
  have "reserved = word_of_int (reserved_bytes db)" using r by (simp add: storage_reservation_bytes_def split: if_splits)
  then have "uint reserved = reserved_bytes db"
    using assms(4,5) by (simp add: uint_word_of_int take_bit_int_eq_self i64_max_def)
  then have sums: "uint claimed = reserved_bytes db + uint additional" "uint projected = uint d + uint w + uint claimed"
    "uint free = uint (min_free_bytes budget) + uint claimed"
    using claimed b projected free by (simp_all add: checked_add_u64_uint)
  show "max_database_bytes budget \<noteq> 0 \<Longrightarrow>
      uint d + uint w + (reserved_bytes db + uint additional) \<le> uint (max_database_bytes budget)"
    and "\<exists>f. free_bytes env = Some f \<and> uint (min_free_bytes budget) + (reserved_bytes db + uint additional) \<le> uint f"
    using assms(2) st sums
    by (auto simp: admits_job_def evaluate_admission_physical_budget_def not_less word_le_def
        split: option.splits if_splits)
qed

lemma insert_summary_reserved: "insert_summary env now s db = Inr db' \<Longrightarrow> reserved_bytes db' = reserved_bytes db"
  by (auto simp: insert_summary_def Let_def upsert_job_def split: option.splits if_splits)

lemma append_event_reserved:
  "append_event_with_ancestry env now row a b db = Inr (eid, db') \<Longrightarrow> reserved_bytes db' = reserved_bytes db"
  by (auto simp: append_event_with_ancestry_def try_sum_Inr Let_def insert_event_def split: option.splits)

lemma job_transition_reserved:
  assumes "record_job_transition_in_transaction env now inst uid tr db = Inr (applied, db')" "store_wf c db"
  shows "reserved_bytes db' \<le> reserved_bytes db"
  using assms(1)
proof (cases rule: job_transition_Inr)
  case (step j src target eid db3)
  have wf3: "store_wf c db3"
    using append_event_wf [OF step(6)] move_job_wf insert_transition_wf [OF assms(2) step(3)] by blast
  have "reserved_bytes db3 = reserved_bytes db"
    using append_event_reserved [OF step(6)] by (simp add: move_job_def insert_transition_def)
  moreover have "reserved_bytes db' \<le> reserved_bytes db3" if "delete_job_storage_reservation inst uid db3 = Inr (b, db')" for b
  proof (cases "map_of (job_storage_reservations db3) (inst, uid)")
    case (Some v)
    have "v_reserved_bytes v = JOB_STORAGE_RESERVATION_BYTES"
      using map_of_in_set [OF Some] wf3 by (auto simp: store_wf_def reservations_wf_def)
    then show ?thesis
      using that Some by (auto simp: delete_job_storage_reservation_def JOB_STORAGE_RESERVATION_BYTES_def split: if_splits)
  qed (use that in \<open>simp add: delete_job_storage_reservation_def\<close>)
  ultimately show ?thesis using step(7) by (auto split: if_splits)
qed simp

lemma reserved_claim:
  assumes "admission_reservation_bytes inst uid db = Inr additional"
    and "(if additional \<noteq> 0 then insert_job_storage_reservation env now inst uid db1 else Inr db1) = Inr db2"
  shows "reserved_bytes db2 = reserved_bytes db1 + uint additional"
  using assms
  by (auto simp: admission_reservation_bytes_def try_sum_Inr insert_job_storage_reservation_def
      JOB_STORAGE_RESERVATION_BYTES_def split: if_splits)

lemma admitted_job_reserved:
  assumes "store_wf c (store_db S)"
    and "persist_summary_and_transition_with_budget env s inst uid tr budget S = (Inr st, S')" "admits_job st"
  shows "\<exists>additional. physical_budget_status_with_reservation env budget additional (store_db S) = Inr st
    \<and> reserved_bytes (store_db S') \<le> reserved_bytes (store_db S) + uint additional"
proof -
  let ?db = "store_db S" and ?replay = "transition_token_exists (store_db S) inst uid (tr_token tr)"
  have id: "js_instance_slug s = inst" "js_job_uid s = uid"
    using assms(2) by (auto simp: persist_summary_and_transition_with_budget_def split: if_splits)
  note unfolded = assms(2) [unfolded persist_summary_and_transition_with_budget_def Let_def id, simplified]
  obtain additional where add: "(if ?replay then Inr 0 else admission_reservation_bytes inst uid ?db) = Inr additional"
    using unfolded by (cases "if ?replay then Inr 0 else admission_reservation_bytes inst uid ?db")
      (simp_all add: run_store_def)
  obtain st' where status: "physical_budget_status_with_reservation env budget additional ?db = Inr st'"
    using unfolded add by (cases "physical_budget_status_with_reservation env budget additional ?db")
      (simp_all add: run_store_def)
  have adm: "admits_job st'"
    using unfolded add status assms(3) by (auto simp: run_store_def split: if_splits)
  then obtain db1 db2 b where db: "(if ?replay then Inr ?db else insert_summary env (clock env 0) s ?db) = Inr db1"
    "(if additional \<noteq> 0 then insert_job_storage_reservation env (clock env 1) inst uid db1 else Inr db1) = Inr db2"
    "record_job_transition_in_transaction env (clock env 2) inst uid tr db2 = Inr (b, store_db S')" "st = st'"
    using unfolded add status by (auto simp: run_store_commit_of try_sum_Inr plain_Inr split: sum.splits prod.splits)
  have "reserved_bytes db2 = reserved_bytes ?db + uint additional"
  proof (cases ?replay)
    case True
    then show ?thesis using add db(1,2) by simp
  next
    case False
    then have "insert_summary env (clock env 0) s ?db = Inr db1" using db(1) by simp
    then have "reserved_bytes db1 = reserved_bytes ?db" by (rule insert_summary_reserved)
    moreover have "admission_reservation_bytes inst uid ?db = Inr additional" using add False by simp
    ultimately show ?thesis using reserved_claim [OF _ db(2)] by metis
  qed
  moreover have "store_wf c db1" using db(1) assms(1) insert_summary_wf by (auto split: if_splits)
  then have "store_wf c db2" using db(2) insert_reservation_wf by (auto split: if_splits)
  ultimately show ?thesis using job_transition_reserved [OF db(3)] status db(4) by auto
qed

text \<open>C37. Admitted jobs fit the budget.  In a well-formed store, when a job is admitted, the database, its
  write-ahead log and the claims of all unfinished jobs, the new one included, are within the
  configured size, and the free space covers the reserve and the claims; when a job is not admitted
  the store is unchanged.  No sum wraps around.\<close>

theorem admission_fits_budget:
  assumes "store_ok (store_db S)" "reserved_bytes (store_db S) \<le> i64_max" "database_bytes env = Inr (d, w)"
    and "persist_summary_and_transition_with_budget env s inst uid tr budget S = (Inr st, S')"
  shows "if admits_job st
    then (max_database_bytes budget \<noteq> 0 \<longrightarrow>
            uint d + uint w + reserved_bytes (store_db S') \<le> uint (max_database_bytes budget))
         \<and> (\<exists>f. free_bytes env = Some f \<and> uint (min_free_bytes budget) + reserved_bytes (store_db S') \<le> uint f)
    else S' = S"
proof (cases "admits_job st")
  case True
  obtain additional where a: "physical_budget_status_with_reservation env budget additional (store_db S) = Inr st"
    "reserved_bytes (store_db S') \<le> reserved_bytes (store_db S) + uint additional"
    using admitted_job_reserved [OF assms(1,4) True] by blast
  have "0 \<le> reserved_bytes (store_db S)"
    using assms(1) by (simp add: store_wf_def reservations_wf_def JOB_STORAGE_RESERVATION_BYTES_def)
  then show ?thesis
    using admitted_budget [OF a(1) True assms(3) _ assms(2)] a(2) True by fastforce
next
  case False
  then show ?thesis
    using assms(4) by (auto simp: persist_summary_and_transition_with_budget_def Let_def run_store_def commit_of_def try_sum_Inr
        split: if_splits sum.splits tx.splits prod.splits)
qed

definition sample_budget :: RetentionMaintenanceBudget where
  "sample_budget = \<lparr>max_database_bytes = 300000, min_free_bytes = 1000, max_checkpoint_attempts = 1, max_vacuum_pages = 1\<rparr>"

theorem admission_fits_budget_witness:
  "\<exists>S'. persist_summary_and_transition_with_budget sample_store_env sample_summary ''host-1'' ''job-1''
        (sample_transition ''tok'' JobAcquired) sample_budget empty_store = (Inr WithinBudget, S')
    \<and> reserved_bytes (store_db S') \<le> 300000"
proof -
  let ?r = "persist_summary_and_transition_with_budget sample_store_env sample_summary ''host-1'' ''job-1''
        (sample_transition ''tok'' JobAcquired) sample_budget empty_store"
  have "fst ?r = Inr WithinBudget" by code_simp
  then have r: "?r = (Inr WithinBudget, snd ?r)" by (cases ?r) simp
  have ok: "store_ok (store_db empty_store)" "reserved_bytes (store_db empty_store) \<le> i64_max"
    by (simp_all add: empty_store_def empty_db_wf) (simp add: empty_db_def i64_max_def)
  have "database_bytes sample_store_env = Inr (0, 0)" by (simp add: sample_store_env_def)
  from admission_fits_budget [OF ok this r] show ?thesis
    using r by (auto simp: admits_job_def sample_budget_def)
qed

end
