(* ===== verification/Rust_Float.thy ===== *)
theory Rust_Float
  imports Rust_Text
begin

text \<open>
  The part of \<open>f64\<close> the code uses.  Every finite double is a multiple of the smallest subnormal
  number, so a finite value is a sign and a number of units of \<open>2 ^ -1074\<close>; negative zero has the
  sign set and no units.  Reading decimal text rounds to the nearest double, ties to even, as
  \<open>f64::from_str\<close> does; printing with a precision rounds the exact value, ties to even, as
  \<open>format!\<close> does.

  Text is a list of characters here, and a character is its Unicode scalar value.
\<close>

type_synonym rtext = "int list"

definition lit :: "string \<Rightarrow> rtext" where
  "lit s = map byte_of s"

section \<open>Values\<close>

datatype f64 = NaN | Infinite bool | Finite bool nat

definition is_nan :: "f64 \<Rightarrow> bool" where
  "is_nan x = (x = NaN)"

definition unit_exponent :: nat where
  "unit_exponent = 1074"

definition f64_zero :: f64 where
  "f64_zero = Finite False 0"

definition f64_of_int :: "int \<Rightarrow> f64" where
  "f64_of_int i = Finite (i < 0) (nat \<bar>i\<bar> * 2 ^ unit_exponent)"

text \<open>The signed number of units; infinities are not among them.\<close>

fun units :: "f64 \<Rightarrow> int" where
  "units (Finite neg u) = (if neg then - int u else int u)"
| "units _ = 0"

fun f64_less :: "f64 \<Rightarrow> f64 \<Rightarrow> bool" where
  "f64_less NaN _ = False"
| "f64_less _ NaN = False"
| "f64_less (Infinite a) (Infinite b) = (a \<and> \<not> b)"
| "f64_less (Infinite a) (Finite _ _) = a"
| "f64_less (Finite _ _) (Infinite b) = (\<not> b)"
| "f64_less (Finite a u) (Finite b v) = (units (Finite a u) < units (Finite b v))"

fun f64_eq :: "f64 \<Rightarrow> f64 \<Rightarrow> bool" where
  "f64_eq (Infinite a) (Infinite b) = (a = b)"
| "f64_eq (Finite a u) (Finite b v) = (units (Finite a u) = units (Finite b v))"
| "f64_eq _ _ = False"

section \<open>Rounding\<close>

fun bit_length :: "nat \<Rightarrow> nat" where
  "bit_length n = (if n = 0 then 0 else Suc (bit_length (n div 2)))"

declare bit_length.simps [simp del]

text \<open>\<open>n / d\<close> to the nearest integer, ties to even.\<close>

definition round_div :: "nat \<Rightarrow> nat \<Rightarrow> nat" where
  "round_div n d =
     (let q = n div d; r = n mod d
      in if d < 2 * r \<or> (2 * r = d \<and> odd q) then Suc q else q)"

text \<open>The double nearest to \<open>num / den\<close>: 53 significant bits, or as many as the units leave.\<close>

definition f64_round :: "bool \<Rightarrow> nat \<Rightarrow> nat \<Rightarrow> f64" where
  "f64_round neg num den =
     (let n = num * 2 ^ unit_exponent;
          s = bit_length (n div den) - 53;
          u = round_div n (den * 2 ^ s) * 2 ^ s
      in if 2 ^ (unit_exponent + 1024) \<le> u then Infinite neg else Finite neg u)"

section \<open>Reading\<close>

definition is_digit :: "int \<Rightarrow> bool" where
  "is_digit c = (48 \<le> c \<and> c \<le> 57)"

definition digits_value :: "rtext \<Rightarrow> nat" where
  "digits_value ds = foldl (\<lambda>n c. n * 10 + nat (c - 48)) 0 ds"

definition lower_char :: "int \<Rightarrow> int" where
  "lower_char c = (if 65 \<le> c \<and> c \<le> 90 then c + 32 else c)"

text \<open>\<open>eq_ignore_ascii_case\<close>.\<close>

definition eq_ignore_ascii_case :: "rtext \<Rightarrow> rtext \<Rightarrow> bool" where
  "eq_ignore_ascii_case a b = (map lower_char a = map lower_char b)"

definition split_sign :: "rtext \<Rightarrow> bool \<times> rtext" where
  "split_sign s =
     (case s of
        c # cs \<Rightarrow> if c = 45 then (True, cs) else if c = 43 then (False, cs) else (False, s)
      | [] \<Rightarrow> (False, []))"

definition read_exponent :: "rtext \<Rightarrow> int option" where
  "read_exponent s =
     (case s of
        [] \<Rightarrow> Some 0
      | c # cs \<Rightarrow>
          if c \<noteq> 101 \<and> c \<noteq> 69 then None
          else case split_sign cs of (neg, ds) \<Rightarrow>
            if ds = [] \<or> \<not> list_all is_digit ds then None
            else Some (if neg then - int (digits_value ds) else int (digits_value ds)))"

text \<open>\<open>f64::from_str\<close>.\<close>

definition f64_from_str :: "rtext \<Rightarrow> f64 option" where
  "f64_from_str s =
     (case split_sign s of (neg, body) \<Rightarrow>
        if eq_ignore_ascii_case body (lit ''inf'') \<or> eq_ignore_ascii_case body (lit ''infinity'')
        then Some (Infinite neg)
        else if eq_ignore_ascii_case body (lit ''nan'') then Some NaN
        else
          let whole = takeWhile is_digit body;
              rest = dropWhile is_digit body;
              fraction = (if rest \<noteq> [] \<and> hd rest = 46 then takeWhile is_digit (tl rest) else []);
              tail = (if rest \<noteq> [] \<and> hd rest = 46 then dropWhile is_digit (tl rest) else rest)
          in if whole = [] \<and> fraction = [] then None
             else case read_exponent tail of
                 None \<Rightarrow> None
               | Some e \<Rightarrow>
                   let shift = e - int (length fraction);
                       n = digits_value (whole @ fraction)
                   in Some (if 0 \<le> shift then f64_round neg (n * 10 ^ nat shift) 1
                            else f64_round neg n (10 ^ nat (- shift))))"

section \<open>Printing\<close>

definition dec :: "nat \<Rightarrow> rtext" where
  "dec n = lit (decimal n)"

text \<open>\<open>\<lfloor>log10\<rfloor>\<close> of a positive number of units; the smallest double is about \<open>5e-324\<close>.\<close>

definition decimal_exponent :: "nat \<Rightarrow> int" where
  "decimal_exponent u =
     (if 2 ^ unit_exponent \<le> u then int (length (decimal (u div 2 ^ unit_exponent))) - 1
      else case find (\<lambda>k. 2 ^ unit_exponent \<le> u * 10 ^ k) [1..<325] of
             Some k \<Rightarrow> - int k
           | None \<Rightarrow> - 324)"

text \<open>\<open>value * 10 ^ k\<close> rounded to an integer.\<close>

definition scaled :: "nat \<Rightarrow> int \<Rightarrow> nat" where
  "scaled u k =
     (if 0 \<le> k then round_div (u * 10 ^ nat k) (2 ^ unit_exponent)
      else round_div u (10 ^ nat (- k) * 2 ^ unit_exponent))"

text \<open>\<open>{:.*e}\<close>: the decimal digits with \<open>precision\<close> digits after the first, and the exponent.\<close>

definition scientific :: "nat \<Rightarrow> nat \<Rightarrow> rtext \<times> int" where
  "scientific precision u =
     (let e = decimal_exponent u;
          n = scaled u (int precision - e)
      in if 10 ^ Suc precision \<le> n then (dec (n div 10), e + 1) else (dec n, e))"

text \<open>\<open>{:.decimals$}\<close> of the absolute value.\<close>

definition fixed :: "nat \<Rightarrow> nat \<Rightarrow> rtext" where
  "fixed decimals u =
     (let n = scaled u (int decimals);
          frac = dec (n mod 10 ^ decimals)
      in if decimals = 0 then dec n
         else dec (n div 10 ^ decimals) @ 46 # replicate (decimals - length frac) 48 @ frac)"

end
