(* ===== verification/Expr_Value.thy ===== *)
theory Expr_Value
  imports Rust_Float
begin

text \<open>
  The values of workflow expressions (\<open>expression/value.rs\<close>) and the ordinal comparisons of
  \<open>context_value.rs\<close> they use.

  Arrays and objects are reference counted in the code and compared by identity, so each carries the
  address of its allocation.  The upper-case table of the \<open>icu_casemap\<close> crate is the parameter
  \<open>upper\<close>.
\<close>

section \<open>Ordinal comparison\<close>

datatype Ordering = Less | Equal | Greater

definition simple_ordinal_uppercase :: "(int \<Rightarrow> int) \<Rightarrow> int \<Rightarrow> int" where
  "simple_ordinal_uppercase upper c = (if c = 305 \<or> c = 383 then c else upper c)"

fun ordinal_ignore_case_cmp :: "(int \<Rightarrow> int) \<Rightarrow> rtext \<Rightarrow> rtext \<Rightarrow> Ordering" where
  "ordinal_ignore_case_cmp upper [] [] = Equal"
| "ordinal_ignore_case_cmp upper [] (_ # _) = Less"
| "ordinal_ignore_case_cmp upper (_ # _) [] = Greater"
| "ordinal_ignore_case_cmp upper (a # as) (b # bs) =
     (let x = simple_ordinal_uppercase upper a; y = simple_ordinal_uppercase upper b
      in if x < y then Less else if y < x then Greater else ordinal_ignore_case_cmp upper as bs)"

definition ordinal_ignore_case_eq :: "(int \<Rightarrow> int) \<Rightarrow> rtext \<Rightarrow> rtext \<Rightarrow> bool" where
  "ordinal_ignore_case_eq upper a b = (ordinal_ignore_case_cmp upper a b = Equal)"

definition ordinal_ignore_case_contains :: "(int \<Rightarrow> int) \<Rightarrow> rtext \<Rightarrow> rtext \<Rightarrow> bool" where
  "ordinal_ignore_case_contains upper haystack needle =
     (needle = [] \<or>
      (let h = map (simple_ordinal_uppercase upper) haystack;
           n = map (simple_ordinal_uppercase upper) needle
       in length n \<le> length h \<and> list_ex (\<lambda>i. take (length n) (drop i h) = n) [0..<length h - length n + 1]))"

definition ordinal_ignore_case_starts_with :: "(int \<Rightarrow> int) \<Rightarrow> rtext \<Rightarrow> rtext \<Rightarrow> bool" where
  "ordinal_ignore_case_starts_with upper haystack pre =
     (let h = map (simple_ordinal_uppercase upper) haystack;
          p = map (simple_ordinal_uppercase upper) pre
      in length p \<le> length h \<and> take (length p) h = p)"

definition ordinal_ignore_case_ends_with :: "(int \<Rightarrow> int) \<Rightarrow> rtext \<Rightarrow> rtext \<Rightarrow> bool" where
  "ordinal_ignore_case_ends_with upper haystack suf =
     (let h = map (simple_ordinal_uppercase upper) haystack;
          s = map (simple_ordinal_uppercase upper) suf
      in length s \<le> length h \<and> drop (length h - length s) h = s)"

section \<open>Values\<close>

datatype ValueKind = KArray | KBoolean | KNull | KNumber | KObject | KString

primrec ValueKind_as_str :: "ValueKind \<Rightarrow> rtext" where
  "ValueKind_as_str KArray = lit ''Array''"
| "ValueKind_as_str KBoolean = lit ''Boolean''"
| "ValueKind_as_str KNull = lit ''Null''"
| "ValueKind_as_str KNumber = lit ''Number''"
| "ValueKind_as_str KObject = lit ''Object''"
| "ValueKind_as_str KString = lit ''String''"

text \<open>\<open>VArray addr filtered items\<close> and \<open>VObject addr case_sensitive entries\<close>.\<close>

datatype Value =
    VNull
  | VBoolean bool
  | VNumber f64
  | VString rtext
  | VArray nat bool "Value list"
  | VObject nat bool "(rtext \<times> Value) list"

definition object_get :: "(int \<Rightarrow> int) \<Rightarrow> bool \<Rightarrow> (rtext \<times> Value) list \<Rightarrow> rtext \<Rightarrow> Value option" where
  "object_get upper case_sensitive entries key =
     map_option snd (find (\<lambda>(name, _).
       if case_sensitive then name = key else ordinal_ignore_case_eq upper name key) entries)"

primrec kind :: "Value \<Rightarrow> ValueKind" where
  "kind VNull = KNull"
| "kind (VBoolean _) = KBoolean"
| "kind (VNumber _) = KNumber"
| "kind (VString _) = KString"
| "kind (VArray _ _ _) = KArray"
| "kind (VObject _ _ _) = KObject"

primrec is_primitive :: "Value \<Rightarrow> bool" where
  "is_primitive VNull = True"
| "is_primitive (VBoolean _) = True"
| "is_primitive (VNumber _) = True"
| "is_primitive (VString _) = True"
| "is_primitive (VArray _ _ _) = False"
| "is_primitive (VObject _ _ _) = False"

primrec is_falsy :: "Value \<Rightarrow> bool" where
  "is_falsy VNull = True"
| "is_falsy (VBoolean b) = (\<not> b)"
| "is_falsy (VNumber x) = (f64_eq x f64_zero \<or> is_nan x)"
| "is_falsy (VString s) = (s = [])"
| "is_falsy (VArray _ _ _) = False"
| "is_falsy (VObject _ _ _) = False"

definition is_truthy :: "Value \<Rightarrow> bool" where
  "is_truthy v = (\<not> is_falsy v)"

section \<open>Numbers\<close>

text \<open>\<open>str::trim\<close> on characters.\<close>

definition trim_chars :: "rtext \<Rightarrow> rtext" where
  "trim_chars s = rev (dropWhile is_whitespace (rev (dropWhile is_whitespace s)))"

text \<open>The mantissa loop: the digits and one decimal point, the number of digits, and the rest.\<close>

fun scan_mantissa :: "rtext \<Rightarrow> bool \<Rightarrow> nat \<Rightarrow> nat \<times> rtext" where
  "scan_mantissa [] seen_point n = (n, [])"
| "scan_mantissa (c # cs) seen_point n =
     (if is_digit c then scan_mantissa cs seen_point (Suc n)
      else if c = 46 \<and> \<not> seen_point then scan_mantissa cs True n
      else (n, c # cs))"

definition skip_sign :: "rtext \<Rightarrow> rtext" where
  "skip_sign s = (case s of c # cs \<Rightarrow> if c = 43 \<or> c = 45 then cs else s | [] \<Rightarrow> [])"

definition is_dotnet_double :: "rtext \<Rightarrow> bool" where
  "is_dotnet_double s =
     (case scan_mantissa (skip_sign s) False 0 of (digits, rest) \<Rightarrow>
        if digits = 0 then False
        else case rest of
            [] \<Rightarrow> True
          | c # cs \<Rightarrow>
              if c \<noteq> 101 \<and> c \<noteq> 69 then False
              else let e = skip_sign cs in e \<noteq> [] \<and> list_all is_digit e)"

definition is_hexdigit :: "int \<Rightarrow> bool" where
  "is_hexdigit c = (is_digit c \<or> (65 \<le> c \<and> c \<le> 70) \<or> (97 \<le> c \<and> c \<le> 102))"

definition hex_value :: "int \<Rightarrow> nat" where
  "hex_value c = nat (if is_digit c then c - 48 else lower_char c - 87)"

text \<open>\<open>i32::from_str_radix\<close> on digits of the radix: values above \<open>i32::MAX\<close> are errors.\<close>

definition radix_number :: "nat \<Rightarrow> rtext \<Rightarrow> f64" where
  "radix_number radix ds =
     (let n = foldl (\<lambda>n c. n * radix + hex_value c) 0 ds
      in if n \<le> 2147483647 then f64_of_int (int n) else NaN)"

definition parse_number :: "rtext \<Rightarrow> f64" where
  "parse_number raw =
     (let s = trim_chars raw
      in if s = [] then f64_zero
         else case (if is_dotnet_double s then f64_from_str s else None) of
             Some x \<Rightarrow> x
           | None \<Rightarrow>
               if 2 < length s \<and> take 2 s = lit ''0x'' \<and> list_all is_hexdigit (drop 2 s)
               then radix_number 16 (drop 2 s)
               else if 2 < length s \<and> take 2 s = lit ''0o'' \<and> list_all (\<lambda>c. 48 \<le> c \<and> c \<le> 55) (drop 2 s)
               then radix_number 8 (drop 2 s)
               else if s = lit ''Infinity'' then Infinite False
               else if s = lit ''-Infinity'' then Infinite True
               else NaN)"

definition trim_trailing_zeros :: "rtext \<Rightarrow> rtext" where
  "trim_trailing_zeros s =
     (if 46 \<notin> set s then s
      else rev (dropWhile (\<lambda>c. c = 46) (dropWhile (\<lambda>c. c = 48) (rev s))))"

fun format_number :: "f64 \<Rightarrow> rtext" where
  "format_number NaN = lit ''NaN''"
| "format_number (Infinite neg) = (if neg then lit ''-Infinity'' else lit ''Infinity'')"
| "format_number (Finite neg u) =
     (let sign = (if neg then lit ''-'' else [])
      in if u = 0 then sign @ lit ''0''
         else case scientific 14 u of (digits, e) \<Rightarrow>
           if e \<le> -5 \<or> 15 \<le> e then
             let mantissa = trim_trailing_zeros (sign @ take 1 digits @ 46 # drop 1 digits);
                 ex = dec (nat \<bar>e\<bar>)
             in mantissa @ lit ''E'' @ (if e < 0 then lit ''-'' else lit ''+'')
                @ replicate (2 - length ex) 48 @ ex
           else trim_trailing_zeros (sign @ fixed (nat (max 0 (14 - e))) u))"

section \<open>Conversions and comparisons\<close>

primrec convert_to_string :: "Value \<Rightarrow> rtext" where
  "convert_to_string VNull = []"
| "convert_to_string (VBoolean b) = (if b then lit ''true'' else lit ''false'')"
| "convert_to_string (VNumber x) = format_number x"
| "convert_to_string (VString s) = s"
| "convert_to_string (VArray _ _ _) = ValueKind_as_str KArray"
| "convert_to_string (VObject _ _ _) = ValueKind_as_str KObject"

primrec convert_to_number :: "Value \<Rightarrow> f64" where
  "convert_to_number VNull = f64_zero"
| "convert_to_number (VBoolean b) = (if b then f64_of_int 1 else f64_zero)"
| "convert_to_number (VNumber x) = x"
| "convert_to_number (VString s) = parse_number s"
| "convert_to_number (VArray _ _ _) = NaN"
| "convert_to_number (VObject _ _ _) = NaN"

definition simple_kind :: "Value \<Rightarrow> bool" where
  "simple_kind v = (kind v \<in> {KBoolean, KNull})"

function coerce_types :: "Value \<Rightarrow> Value \<Rightarrow> Value \<times> Value" where
  "coerce_types l r =
     (if kind l = kind r then (l, r)
      else if kind l = KNumber \<and> kind r = KString then (l, VNumber (convert_to_number r))
      else if kind l = KString \<and> kind r = KNumber then (VNumber (convert_to_number l), r)
      else if simple_kind l then coerce_types (VNumber (convert_to_number l)) r
      else if simple_kind r then coerce_types l (VNumber (convert_to_number r))
      else (l, r))"
  by pat_completeness auto
termination
  by (relation "measure (\<lambda>(l, r). of_bool (simple_kind l) + of_bool (simple_kind r))")
    (auto simp: simple_kind_def)

declare coerce_types.simps [simp del]

definition abstract_equal :: "(int \<Rightarrow> int) \<Rightarrow> Value \<Rightarrow> Value \<Rightarrow> bool" where
  "abstract_equal upper left right =
     (case coerce_types left right of
        (VNull, VNull) \<Rightarrow> True
      | (VNumber x, VNumber y) \<Rightarrow> if is_nan x \<or> is_nan y then False else f64_eq x y
      | (VString x, VString y) \<Rightarrow> ordinal_ignore_case_eq upper x y
      | (VBoolean x, VBoolean y) \<Rightarrow> x = y
      | (VObject x _ _, VObject y _ _) \<Rightarrow> x = y
      | (VArray x _ _, VArray y _ _) \<Rightarrow> x = y
      | _ \<Rightarrow> False)"

definition abstract_greater_than :: "(int \<Rightarrow> int) \<Rightarrow> Value \<Rightarrow> Value \<Rightarrow> bool" where
  "abstract_greater_than upper left right =
     (case coerce_types left right of
        (VNumber x, VNumber y) \<Rightarrow> if is_nan x \<or> is_nan y then False else f64_less y x
      | (VString x, VString y) \<Rightarrow> ordinal_ignore_case_cmp upper x y = Greater
      | (VBoolean x, VBoolean y) \<Rightarrow> x \<and> \<not> y
      | _ \<Rightarrow> False)"

definition abstract_less_than :: "(int \<Rightarrow> int) \<Rightarrow> Value \<Rightarrow> Value \<Rightarrow> bool" where
  "abstract_less_than upper left right =
     (case coerce_types left right of
        (VNumber x, VNumber y) \<Rightarrow> if is_nan x \<or> is_nan y then False else f64_less x y
      | (VString x, VString y) \<Rightarrow> ordinal_ignore_case_cmp upper x y = Less
      | (VBoolean x, VBoolean y) \<Rightarrow> \<not> x \<and> y
      | _ \<Rightarrow> False)"

definition abstract_not_equal :: "(int \<Rightarrow> int) \<Rightarrow> Value \<Rightarrow> Value \<Rightarrow> bool" where
  "abstract_not_equal upper l r = (\<not> abstract_equal upper l r)"

definition abstract_greater_than_or_equal :: "(int \<Rightarrow> int) \<Rightarrow> Value \<Rightarrow> Value \<Rightarrow> bool" where
  "abstract_greater_than_or_equal upper l r = (abstract_equal upper l r \<or> abstract_greater_than upper l r)"

definition abstract_less_than_or_equal :: "(int \<Rightarrow> int) \<Rightarrow> Value \<Rightarrow> Value \<Rightarrow> bool" where
  "abstract_less_than_or_equal upper l r = (abstract_equal upper l r \<or> abstract_less_than upper l r)"

end
