(* ===== verification/Expr_Lexer.thy ===== *)
theory Expr_Lexer
  imports Expr_Value
begin

text \<open>
  The lexical analyzer of workflow expressions (\<open>expression/lexer.rs\<close>).  A lexer holds the whole
  text, an index into it, the last token and the stack of unclosed brackets (the head of the list is
  the top of the stack); every reading function returns the token and the lexer after it.
\<close>

section \<open>Tokens\<close>

datatype TokenKind =
    TkStartGroup | TkStartIndex | TkStartParameters | TkEndGroup | TkEndIndex | TkEndParameters
  | TkSeparator | TkDereference | TkWildcard | TkLogicalOperator
  | TkNull | TkBoolean | TkNumber | TkString | TkPropertyName | TkFunction | TkNamedValue
  | TkUnexpected

datatype Associativity = AssocNone | LeftToRight | RightToLeft

record Token =
  tk_kind :: TokenKind
  tk_raw :: rtext
  tk_index :: nat
  tk_parsed :: "Value option"

definition is_operator :: "Token \<Rightarrow> bool" where
  "is_operator t =
     (tk_kind t \<in> {TkStartGroup, TkStartIndex, TkStartParameters, TkEndGroup, TkEndIndex, TkEndParameters,
                   TkSeparator, TkDereference, TkLogicalOperator})"

definition associativity :: "Token \<Rightarrow> Associativity" where
  "associativity t =
     (if tk_kind t = TkStartGroup then AssocNone
      else if tk_kind t = TkLogicalOperator \<and> tk_raw t = lit ''!'' then RightToLeft
      else if is_operator t then LeftToRight else AssocNone)"

definition precedence :: "Token \<Rightarrow> int" where
  "precedence t =
     (case tk_kind t of
        TkStartGroup \<Rightarrow> 20
      | TkStartIndex \<Rightarrow> 19 | TkStartParameters \<Rightarrow> 19 | TkDereference \<Rightarrow> 19
      | TkLogicalOperator \<Rightarrow>
          (if tk_raw t = lit ''!'' then 16
           else if tk_raw t \<in> {lit ''>'', lit ''>='', lit ''<'', lit ''<=''} then 11
           else if tk_raw t \<in> {lit ''=='', lit ''!=''} then 10
           else if tk_raw t = lit ''&&'' then 6
           else if tk_raw t = lit ''||'' then 5
           else 0)
      | TkEndGroup \<Rightarrow> 1 | TkEndIndex \<Rightarrow> 1 | TkEndParameters \<Rightarrow> 1 | TkSeparator \<Rightarrow> 1
      | _ \<Rightarrow> 0)"

definition binary_operators :: "rtext list" where
  "binary_operators = map lit [''>'', ''>='', ''<'', ''<='', ''=='', ''!='', ''&&'', ''||'']"

definition operand_count :: "Token \<Rightarrow> nat" where
  "operand_count t =
     (case tk_kind t of
        TkStartIndex \<Rightarrow> 2 | TkDereference \<Rightarrow> 2
      | TkLogicalOperator \<Rightarrow>
          (if tk_raw t = lit ''!'' then 1
           else if tk_raw t \<in> set binary_operators then 2 else 0)
      | _ \<Rightarrow> 0)"

section \<open>Characters\<close>

definition is_alphabetic :: "int \<Rightarrow> bool" where
  "is_alphabetic c = ((65 \<le> c \<and> c \<le> 90) \<or> (97 \<le> c \<and> c \<le> 122))"

definition is_legal_keyword :: "rtext \<Rightarrow> bool" where
  "is_legal_keyword s =
     (case s of
        [] \<Rightarrow> False
      | c # cs \<Rightarrow> (is_alphabetic c \<or> c = 95)
          \<and> list_all (\<lambda>c. is_alphabetic c \<or> is_digit c \<or> c = 95 \<or> c = 45) cs)"

definition is_token_boundary :: "int \<Rightarrow> bool" where
  "is_token_boundary c = (c \<in> set (lit ''([)],.!><=&|'') \<or> is_whitespace c)"

section \<open>The analyzer\<close>

record LexicalAnalyzer =
  lx_expression :: rtext
  lx_index :: nat
  lx_last_token :: "Token option"
  lx_unclosed_tokens :: "Token list"

definition lexer_new :: "rtext \<Rightarrow> LexicalAnalyzer" where
  "lexer_new e = \<lparr>lx_expression = e, lx_index = 0, lx_last_token = None, lx_unclosed_tokens = []\<rparr>"

definition has_unclosed_tokens :: "LexicalAnalyzer \<Rightarrow> bool" where
  "has_unclosed_tokens L = (lx_unclosed_tokens L \<noteq> [])"

definition peek_unclosed :: "LexicalAnalyzer \<Rightarrow> TokenKind option" where
  "peek_unclosed L = (case lx_unclosed_tokens L of [] \<Rightarrow> None | t # _ \<Rightarrow> Some (tk_kind t))"

definition char_at :: "LexicalAnalyzer \<Rightarrow> nat \<Rightarrow> int option" where
  "char_at L i = (if i < length (lx_expression L) then Some (lx_expression L ! i) else None)"

definition substring :: "LexicalAnalyzer \<Rightarrow> nat \<Rightarrow> nat \<Rightarrow> rtext" where
  "substring L start end = take (end - start) (drop start (lx_expression L))"

definition last_kind :: "LexicalAnalyzer \<Rightarrow> TokenKind option" where
  "last_kind L = map_option tk_kind (lx_last_token L)"

text \<open>The index where a loop \<open>while char_at(i).is_some_and(p) { i += 1 }\<close> stops.\<close>

definition scan_while :: "(int \<Rightarrow> bool) \<Rightarrow> LexicalAnalyzer \<Rightarrow> nat \<Rightarrow> nat" where
  "scan_while p L i = i + length (takeWhile p (drop i (lx_expression L)))"

definition check_last_token :: "LexicalAnalyzer \<Rightarrow> TokenKind option list \<Rightarrow> bool" where
  "check_last_token L allowed = (last_kind L \<in> set allowed)"

definition AFTER_OPERAND :: "TokenKind option list" where
  "AFTER_OPERAND = map Some [TkEndGroup, TkEndParameters, TkEndIndex, TkWildcard, TkNull, TkBoolean,
     TkNumber, TkString, TkPropertyName, TkNamedValue]"

definition BEFORE_OPERAND :: "TokenKind option list" where
  "BEFORE_OPERAND = None # map Some [TkSeparator, TkStartGroup, TkStartParameters, TkStartIndex, TkLogicalOperator]"

definition indexable :: "TokenKind option list" where
  "indexable = map Some [TkEndGroup, TkEndParameters, TkEndIndex, TkWildcard, TkPropertyName, TkNamedValue]"

text \<open>The table of which token may follow which.\<close>

definition legal_token :: "LexicalAnalyzer \<Rightarrow> TokenKind \<Rightarrow> rtext \<Rightarrow> bool" where
  "legal_token L k raw =
     (case k of
        TkStartGroup \<Rightarrow> check_last_token L BEFORE_OPERAND
      | TkStartIndex \<Rightarrow> check_last_token L indexable
      | TkStartParameters \<Rightarrow> check_last_token L [Some TkFunction]
      | TkEndGroup \<Rightarrow> check_last_token L AFTER_OPERAND
      | TkEndIndex \<Rightarrow> check_last_token L AFTER_OPERAND
      | TkEndParameters \<Rightarrow> check_last_token L [Some TkStartParameters] \<or> check_last_token L AFTER_OPERAND
      | TkSeparator \<Rightarrow> check_last_token L AFTER_OPERAND
      | TkDereference \<Rightarrow> check_last_token L indexable
      | TkWildcard \<Rightarrow> check_last_token L [Some TkStartIndex, Some TkDereference]
      | TkLogicalOperator \<Rightarrow>
          if raw = lit ''!'' then check_last_token L BEFORE_OPERAND else check_last_token L AFTER_OPERAND
      | TkPropertyName \<Rightarrow> check_last_token L [Some TkDereference]
      | TkUnexpected \<Rightarrow> False
      | _ \<Rightarrow> check_last_token L (None # map Some [TkSeparator, TkStartIndex, TkStartGroup, TkStartParameters,
               TkLogicalOperator]))"

definition unexpected :: "rtext \<Rightarrow> nat \<Rightarrow> Token" where
  "unexpected raw i = \<lparr>tk_kind = TkUnexpected, tk_raw = raw, tk_index = i, tk_parsed = None\<rparr>"

definition close_bracket :: "LexicalAnalyzer \<Rightarrow> TokenKind \<Rightarrow> Token \<Rightarrow> Token \<times> LexicalAnalyzer" where
  "close_bracket L expected t =
     (if peek_unclosed L \<noteq> Some expected then (unexpected (tk_raw t) (tk_index t), L)
      else (t, L\<lparr>lx_unclosed_tokens := tl (lx_unclosed_tokens L)\<rparr>))"

definition create_token ::
    "LexicalAnalyzer \<Rightarrow> TokenKind \<Rightarrow> rtext \<Rightarrow> nat \<Rightarrow> Value option \<Rightarrow> Token \<times> LexicalAnalyzer" where
  "create_token L k raw i parsed =
     (if \<not> legal_token L k raw then (unexpected raw i, L)
      else
        let t = \<lparr>tk_kind = k, tk_raw = raw, tk_index = i, tk_parsed = parsed\<rparr>
        in case k of
             TkStartGroup \<Rightarrow> (t, L\<lparr>lx_unclosed_tokens := t # lx_unclosed_tokens L\<rparr>)
           | TkStartIndex \<Rightarrow> (t, L\<lparr>lx_unclosed_tokens := t # lx_unclosed_tokens L\<rparr>)
           | TkStartParameters \<Rightarrow> (t, L\<lparr>lx_unclosed_tokens := t # lx_unclosed_tokens L\<rparr>)
           | TkEndGroup \<Rightarrow> close_bracket L TkStartGroup t
           | TkEndIndex \<Rightarrow> close_bracket L TkStartIndex t
           | TkEndParameters \<Rightarrow> close_bracket L TkStartParameters t
           | TkSeparator \<Rightarrow>
               if peek_unclosed L \<noteq> Some TkStartParameters then (unexpected raw i, L) else (t, L)
           | _ \<Rightarrow> (t, L))"

section \<open>Reading tokens\<close>

definition single_token :: "LexicalAnalyzer \<Rightarrow> TokenKind \<Rightarrow> int \<Rightarrow> Token \<times> LexicalAnalyzer" where
  "single_token L k c = create_token (L\<lparr>lx_index := Suc (lx_index L)\<rparr>) k [c] (lx_index L) None"

definition read_number_token :: "LexicalAnalyzer \<Rightarrow> Token \<times> LexicalAnalyzer" where
  "read_number_token L =
     (let start = lx_index L;
          stop = scan_while (\<lambda>c. \<not> is_token_boundary c \<or> c = 46) L (Suc start);
          L1 = L\<lparr>lx_index := stop\<rparr>;
          raw = substring L start stop;
          parsed = parse_number raw
      in if is_nan parsed then create_token L1 TkUnexpected raw start None
         else create_token L1 TkNumber raw start (Some (VNumber parsed)))"

definition read_keyword_token :: "LexicalAnalyzer \<Rightarrow> Token \<times> LexicalAnalyzer" where
  "read_keyword_token L =
     (let start = lx_index L;
          stop = scan_while (\<lambda>c. \<not> is_token_boundary c) L (Suc start);
          L1 = L\<lparr>lx_index := stop\<rparr>;
          raw = substring L start stop
      in if \<not> is_legal_keyword raw then create_token L1 TkUnexpected raw start None
         else if last_kind L = Some TkDereference then create_token L1 TkPropertyName raw start None
         else if raw = lit ''null'' then create_token L1 TkNull raw start (Some VNull)
         else if raw = lit ''true'' then create_token L1 TkBoolean raw start (Some (VBoolean True))
         else if raw = lit ''false'' then create_token L1 TkBoolean raw start (Some (VBoolean False))
         else if raw = lit ''NaN'' then create_token L1 TkNumber raw start (Some (VNumber NaN))
         else if raw = lit ''Infinity'' then create_token L1 TkNumber raw start (Some (VNumber (Infinite False)))
         else
           let ahead = scan_while is_whitespace L stop
           in create_token L1 (if char_at L ahead = Some 40 then TkFunction else TkNamedValue) raw start None)"

text \<open>The loop over the body of a string literal: its value, the number of characters read and
  whether it was closed.\<close>

fun string_body :: "rtext \<Rightarrow> rtext \<times> nat \<times> bool" where
  "string_body [] = ([], 0, False)"
| "string_body (c # cs) =
     (if c = 39 then
        (case cs of
           d # ds \<Rightarrow> if d = 39 then (case string_body ds of (v, n, closed) \<Rightarrow> (c # v, n + 2, closed))
                    else ([], 1, True)
         | [] \<Rightarrow> ([], 1, True))
      else case string_body cs of (v, n, closed) \<Rightarrow> (c # v, n + 1, closed))"

definition read_string_token :: "LexicalAnalyzer \<Rightarrow> Token \<times> LexicalAnalyzer" where
  "read_string_token L =
     (let start = lx_index L
      in case string_body (drop (Suc start) (lx_expression L)) of (text, n, closed) \<Rightarrow>
           let stop = Suc start + n;
               L1 = L\<lparr>lx_index := stop\<rparr>;
               raw = substring L start stop
           in if closed then create_token L1 TkString raw start (Some (VString text))
              else create_token L1 TkUnexpected raw start None)"

definition read_operator :: "LexicalAnalyzer \<Rightarrow> Token \<times> LexicalAnalyzer" where
  "read_operator L =
     (let start = lx_index L;
          two = substring L start (start + 2);
          one = substring L start (start + 1)
      in if Suc start < length (lx_expression L) \<and> two \<in> set (map lit [''!='', ''>='', ''<='', ''=='', ''&&'', ''||''])
         then create_token (L\<lparr>lx_index := start + 2\<rparr>) TkLogicalOperator two start None
         else if one \<in> set (map lit [''!'', ''>'', ''<''])
         then create_token (L\<lparr>lx_index := start + 1\<rparr>) TkLogicalOperator one start None
         else
           let stop = scan_while (\<lambda>c. \<not> is_token_boundary c) L (start + 1)
           in create_token (L\<lparr>lx_index := stop\<rparr>) TkUnexpected (substring L start stop) start None)"

definition starts_number :: "LexicalAnalyzer \<Rightarrow> bool" where
  "starts_number L =
     (last_kind L \<in> {None, Some TkSeparator, Some TkStartGroup, Some TkStartIndex, Some TkStartParameters,
                     Some TkLogicalOperator})"

definition read_token :: "LexicalAnalyzer \<Rightarrow> int \<Rightarrow> Token \<times> LexicalAnalyzer" where
  "read_token L c =
     (if c = 40 then single_token L (if last_kind L = Some TkFunction then TkStartParameters else TkStartGroup) c
      else if c = 91 then single_token L TkStartIndex c
      else if c = 41 then
        single_token L (if peek_unclosed L = Some TkStartParameters then TkEndParameters else TkEndGroup) c
      else if c = 93 then single_token L TkEndIndex c
      else if c = 44 then single_token L TkSeparator c
      else if c = 42 then single_token L TkWildcard c
      else if c = 39 then read_string_token L
      else if c \<in> set (lit ''!><=&|'') then read_operator L
      else if c = 46 then if starts_number L then read_number_token L else single_token L TkDereference c
      else if c = 45 \<or> c = 43 \<or> is_digit c then read_number_token L
      else read_keyword_token L)"

definition next_token :: "LexicalAnalyzer \<Rightarrow> Token option \<times> LexicalAnalyzer" where
  "next_token L =
     (let L0 = L\<lparr>lx_index := scan_while is_whitespace L (lx_index L)\<rparr>
      in case char_at L0 (lx_index L0) of
           None \<Rightarrow> (None, L0)
         | Some c \<Rightarrow>
             (case read_token L0 c of (t, L1) \<Rightarrow> (Some t, L1\<lparr>lx_last_token := Some t\<rparr>)))"

end
