(* ===== verification/Expr_Parser.thy ===== *)
theory Expr_Parser
  imports Expr_Lexer
begin

text \<open>
  The parser of workflow expressions (\<open>expression/parser.rs\<close> and the tree and error types of
  \<open>expression/mod.rs\<close>): a shunting-yard over the tokens of the lexer.  The two stacks are lists whose
  head is the top.  A place where the code would panic is the failure \<open>Panic\<close>.
\<close>

section \<open>Trees and errors\<close>

datatype BinaryOperator =
  OpEqual | OpNotEqual | OpGreaterThan | OpGreaterThanOrEqual | OpLessThan | OpLessThanOrEqual

datatype Node =
    NLiteral Value
  | NWildcard
  | NNamedValue rtext
  | NIndex Node Node
  | NNot Node
  | NAnd "Node list"
  | NOr "Node list"
  | NBinary BinaryOperator Node Node
  | NFunction rtext "Node list"

primrec children :: "Node \<Rightarrow> Node list" where
  "children (NLiteral _) = []"
| "children NWildcard = []"
| "children (NNamedValue _) = []"
| "children (NIndex l r) = [l, r]"
| "children (NNot n) = [n]"
| "children (NAnd ns) = ns"
| "children (NOr ns) = ns"
| "children (NBinary _ l r) = [l, r]"
| "children (NFunction _ args) = args"

datatype ParseErrorKind =
    ExceededMaxDepth | ExceededMaxLength | TooFewParameters | TooManyParameters | EvenParameters
  | UnexpectedEndOfExpression | UnexpectedSymbol | UnrecognizedFunction | UnrecognizedNamedValue | Internal

definition MAX_DEPTH :: nat where
  "MAX_DEPTH = 50"

definition MAX_LENGTH :: nat where
  "MAX_LENGTH = 21000"

definition description :: "ParseErrorKind \<Rightarrow> rtext" where
  "description k =
     (case k of
        ExceededMaxDepth \<Rightarrow> lit ''Exceeded max expression depth '' @ dec MAX_DEPTH
      | ExceededMaxLength \<Rightarrow> lit ''Exceeded max expression length '' @ dec MAX_LENGTH
      | TooFewParameters \<Rightarrow> lit ''Too few parameters supplied''
      | TooManyParameters \<Rightarrow> lit ''Too many parameters supplied''
      | EvenParameters \<Rightarrow> lit ''Even number of parameters supplied, requires an odd number of parameters''
      | UnexpectedEndOfExpression \<Rightarrow> lit ''Unexpected end of expression''
      | UnexpectedSymbol \<Rightarrow> lit ''Unexpected symbol''
      | UnrecognizedFunction \<Rightarrow> lit ''Unrecognized function''
      | UnrecognizedNamedValue \<Rightarrow> lit ''Unrecognized named-value''
      | Internal \<Rightarrow> lit ''Invalid expression'')"

record ParseError =
  pe_kind :: ParseErrorKind
  pe_message :: rtext

datatype 'e failure = Err 'e | Panic

type_synonym 'a parsed = "ParseError failure + 'a"

definition with_token :: "ParseErrorKind \<Rightarrow> Token \<Rightarrow> rtext \<Rightarrow> 'a parsed" where
  "with_token k t e = Inl (Err \<lparr>pe_kind = k,
     pe_message = description k @ lit '': '' @ [39] @ tk_raw t @ [39] @ lit ''. Located at position '' @ dec (tk_index t + 1)
       @ lit '' within expression: '' @ e\<rparr>)"

definition without_token :: "ParseErrorKind \<Rightarrow> rtext \<Rightarrow> 'a parsed" where
  "without_token k e = Inl (Err \<lparr>pe_kind = k, pe_message = description k\<rparr>)"

definition internal :: "rtext \<Rightarrow> rtext \<Rightarrow> 'a parsed" where
  "internal e detail = Inl (Err \<lparr>pe_kind = Internal,
     pe_message = lit ''Invalid expression: '' @ detail @ lit ''. Expression: '' @ e\<rparr>)"

text \<open>The derived \<open>Debug\<close> text of a token kind.\<close>

definition TokenKind_debug :: "TokenKind \<Rightarrow> rtext" where
  "TokenKind_debug k = lit (case k of
       TkStartGroup \<Rightarrow> ''StartGroup'' | TkStartIndex \<Rightarrow> ''StartIndex'' | TkStartParameters \<Rightarrow> ''StartParameters''
     | TkEndGroup \<Rightarrow> ''EndGroup'' | TkEndIndex \<Rightarrow> ''EndIndex'' | TkEndParameters \<Rightarrow> ''EndParameters''
     | TkSeparator \<Rightarrow> ''Separator'' | TkDereference \<Rightarrow> ''Dereference'' | TkWildcard \<Rightarrow> ''Wildcard''
     | TkLogicalOperator \<Rightarrow> ''LogicalOperator'' | TkNull \<Rightarrow> ''Null'' | TkBoolean \<Rightarrow> ''Boolean''
     | TkNumber \<Rightarrow> ''Number'' | TkString \<Rightarrow> ''String'' | TkPropertyName \<Rightarrow> ''PropertyName''
     | TkFunction \<Rightarrow> ''Function'' | TkNamedValue \<Rightarrow> ''NamedValue'' | TkUnexpected \<Rightarrow> ''Unexpected'')"

section \<open>The environment of a parse\<close>

definition WELL_KNOWN_FUNCTIONS :: "(rtext \<times> nat \<times> nat) list" where
  "WELL_KNOWN_FUNCTIONS =
     [(lit ''case'', 3, 255), (lit ''contains'', 2, 2), (lit ''endsWith'', 2, 2), (lit ''format'', 1, 255),
      (lit ''join'', 1, 2), (lit ''startsWith'', 2, 2), (lit ''toJson'', 1, 1), (lit ''fromJson'', 1, 1)]"

record ParseEnvironment =
  is_named_value :: "rtext \<Rightarrow> bool"
  function_arity :: "rtext \<Rightarrow> (nat \<times> nat) option"

definition lookup_function :: "ParseEnvironment \<Rightarrow> rtext \<Rightarrow> (rtext \<times> nat \<times> nat) option" where
  "lookup_function env name =
     (case find (\<lambda>(known, _). eq_ignore_ascii_case known name) WELL_KNOWN_FUNCTIONS of
        Some f \<Rightarrow> Some f
      | None \<Rightarrow> map_option (\<lambda>(lo, hi). ([], lo, hi)) (function_arity env name))"

record ParseContext =
  pc_expression :: rtext
  pc_lexer :: LexicalAnalyzer
  pc_operands :: "Node list"
  pc_operators :: "Token list"
  pc_last_token :: "Token option"
  pc_env :: ParseEnvironment

section \<open>The stacks\<close>

definition pop_operands :: "ParseContext \<Rightarrow> nat \<Rightarrow> (Node list \<times> ParseContext) parsed" where
  "pop_operands c n =
     (if n \<le> length (pc_operands c)
      then Inr (rev (take n (pc_operands c)), c\<lparr>pc_operands := drop n (pc_operands c)\<rparr>)
      else internal (pc_expression c) (lit ''operand stack underflow''))"

definition pop_operator :: "ParseContext \<Rightarrow> TokenKind \<Rightarrow> (Token \<times> ParseContext) parsed" where
  "pop_operator c expected =
     (case pc_operators c of
        [] \<Rightarrow> internal (pc_expression c) (lit ''operator stack underflow'')
      | t # ts \<Rightarrow>
          if tk_kind t \<noteq> expected
          then internal (pc_expression c) (lit ''expected operator '' @ TokenKind_debug expected @ lit '' to be popped, found ''
                 @ TokenKind_debug (tk_kind t))
          else Inr (t, c\<lparr>pc_operators := ts\<rparr>))"

definition push_node :: "ParseContext \<Rightarrow> Node \<Rightarrow> ParseContext" where
  "push_node c n = c\<lparr>pc_operands := n # pc_operands c\<rparr>"

text \<open>An index node from two operands; the \<open>expect\<close> calls panic on fewer.\<close>

definition index_node :: "ParseContext \<Rightarrow> Node list \<Rightarrow> ParseContext parsed" where
  "index_node c operands =
     (case operands of l # r # _ \<Rightarrow> Inr (push_node c (NIndex l r)) | _ \<Rightarrow> Inl Panic)"

definition flush_top_end_index :: "ParseContext \<Rightarrow> ParseContext parsed" where
  "flush_top_end_index c =
     try_sum (pop_operator c TkEndIndex) (\<lambda>(_, c1).
     try_sum (pop_operator c1 TkStartIndex) (\<lambda>(t, c2).
     try_sum (pop_operands c2 (operand_count t)) (\<lambda>(operands, c3).
     index_node c3 operands)))"

definition flush_top_end_group :: "ParseContext \<Rightarrow> ParseContext parsed" where
  "flush_top_end_group c =
     try_sum (pop_operator c TkEndGroup) (\<lambda>(_, c1).
     try_sum (pop_operator c1 TkStartGroup) (\<lambda>(_, c2). Inr c2))"

text \<open>The parameters of a call: none after an opening bracket, otherwise one more than the
  separators on the stack.\<close>

definition pop_parameters :: "ParseContext \<Rightarrow> (Node list \<times> ParseContext) parsed" where
  "pop_parameters c =
     (if map_option tk_kind (pc_last_token c) = Some TkStartParameters then Inr ([], c)
      else
        let n = length (takeWhile (\<lambda>t. tk_kind t = TkSeparator) (pc_operators c))
        in pop_operands (c\<lparr>pc_operators := drop n (pc_operators c)\<rparr>) (n + 1))"

definition check_arity :: "ParseContext \<Rightarrow> rtext \<Rightarrow> nat \<Rightarrow> Token \<Rightarrow> unit parsed" where
  "check_arity c name n start =
     (case lookup_function (pc_env c) name of
        None \<Rightarrow> with_token UnrecognizedFunction start (pc_expression c)
      | Some (_, lo, hi) \<Rightarrow>
          if n < lo then with_token TooFewParameters start (pc_expression c)
          else if hi < n then with_token TooManyParameters start (pc_expression c)
          else if eq_ignore_ascii_case name (lit ''case'') \<and> even n
          then with_token EvenParameters start (pc_expression c)
          else Inr ())"

definition flush_top_end_parameters :: "ParseContext \<Rightarrow> ParseContext parsed" where
  "flush_top_end_parameters c =
     try_sum (pop_operator c TkEndParameters) (\<lambda>(_, c1).
     try_sum (pop_parameters c1) (\<lambda>(parameters, c2).
     case pc_operands c2 of
       NFunction name args # nodes \<Rightarrow>
         try_sum (pop_operator (c2\<lparr>pc_operands := NFunction name (args @ parameters) # nodes\<rparr>) TkStartParameters)
           (\<lambda>(start, c3).
         try_sum (check_arity c3 name (length (args @ parameters)) start) (\<lambda>_. Inr c3))
     | _ \<Rightarrow> internal (pc_expression c2) (lit ''expected a function node on the operand stack'')))"

definition binary_operator :: "rtext \<Rightarrow> BinaryOperator option" where
  "binary_operator raw =
     (if raw = lit ''=='' then Some OpEqual
      else if raw = lit ''!='' then Some OpNotEqual
      else if raw = lit ''>'' then Some OpGreaterThan
      else if raw = lit ''>='' then Some OpGreaterThanOrEqual
      else if raw = lit ''<'' then Some OpLessThan
      else if raw = lit ''<='' then Some OpLessThanOrEqual
      else None)"

text \<open>Nested conjunctions become one node, and so do nested disjunctions.\<close>

definition flatten :: "bool \<Rightarrow> Node list \<Rightarrow> Node list" where
  "flatten is_and operands =
     concat (map (\<lambda>n. case n of
         NAnd nested \<Rightarrow> if is_and then nested else [n]
       | NOr nested \<Rightarrow> if is_and then [n] else nested
       | _ \<Rightarrow> [n]) operands)"

definition logical_node :: "ParseContext \<Rightarrow> rtext \<Rightarrow> Node list \<Rightarrow> ParseContext parsed" where
  "logical_node c raw operands =
     (if raw = lit ''!'' then (case operands of n # _ \<Rightarrow> Inr (push_node c (NNot n)) | [] \<Rightarrow> Inl Panic)
      else if raw = lit ''&&'' then Inr (push_node c (NAnd (flatten True operands)))
      else if raw = lit ''||'' then Inr (push_node c (NOr (flatten False operands)))
      else case binary_operator raw of
          None \<Rightarrow> internal (pc_expression c) (lit ''unexpected logical operator '' @ [39] @ raw @ [39])
        | Some b \<Rightarrow> (case operands of l # r # _ \<Rightarrow> Inr (push_node c (NBinary b l r)) | _ \<Rightarrow> Inl Panic))"

definition flush_top_operator :: "ParseContext \<Rightarrow> ParseContext parsed" where
  "flush_top_operator c =
     (case pc_operators c of
        [] \<Rightarrow> internal (pc_expression c) (lit ''operator stack underflow'')
      | t # ts \<Rightarrow>
          if tk_kind t = TkEndIndex then flush_top_end_index c
          else if tk_kind t = TkEndGroup then flush_top_end_group c
          else if tk_kind t = TkEndParameters then flush_top_end_parameters c
          else
            try_sum (pop_operands (c\<lparr>pc_operators := ts\<rparr>) (operand_count t)) (\<lambda>(operands, c1).
              case tk_kind t of
                TkLogicalOperator \<Rightarrow> logical_node c1 (tk_raw t) operands
              | TkDereference \<Rightarrow> index_node c1 operands
              | TkStartIndex \<Rightarrow> index_node c1 operands
              | other \<Rightarrow> internal (pc_expression c1) (lit ''unexpected operator kind '' @ TokenKind_debug other)))"

section \<open>Flushing shrinks the operator stack\<close>

lemma try_sum_Inr_prod:
  "try_sum m (\<lambda>(a, b). f a b) = Inr x \<longleftrightarrow> (\<exists>a b. m = Inr (a, b) \<and> f a b = Inr x)"
  by (cases m) auto

lemma not_Inr [simp]:
  "with_token k t e \<noteq> Inr a" "without_token k e \<noteq> Inr a" "internal e d \<noteq> Inr a"
  by (simp_all add: with_token_def without_token_def internal_def)

lemma pop_operands_Inr:
  "pop_operands c n = Inr (ns, c1) \<longleftrightarrow>
     n \<le> length (pc_operands c) \<and> ns = rev (take n (pc_operands c)) \<and> c1 = c\<lparr>pc_operands := drop n (pc_operands c)\<rparr>"
  by (auto simp: pop_operands_def)

lemma pop_operator_Inr:
  "pop_operator c k = Inr (t, c1) \<longleftrightarrow>
     (\<exists>ts. pc_operators c = t # ts \<and> tk_kind t = k \<and> c1 = c\<lparr>pc_operators := ts\<rparr>)"
  by (auto simp: pop_operator_def split: list.splits)

lemma index_node_Inr:
  "index_node c ns = Inr c1 \<longleftrightarrow> (\<exists>l r rest. ns = l # r # rest \<and> c1 = push_node c (NIndex l r))"
  by (auto simp: index_node_def split: list.splits)

lemma push_node_sel [simp]:
  "pc_operators (push_node c n) = pc_operators c" "pc_operands (push_node c n) = n # pc_operands c"
  "pc_lexer (push_node c n) = pc_lexer c" "pc_expression (push_node c n) = pc_expression c"
  "pc_last_token (push_node c n) = pc_last_token c" "pc_env (push_node c n) = pc_env c"
  by (simp_all add: push_node_def)

lemma logical_node_keeps:
  "logical_node c raw ns = Inr c1 \<Longrightarrow> \<exists>n. c1 = push_node c n"
  by (auto simp: logical_node_def split: if_splits list.splits option.splits)

text \<open>The part of a context that the stack operations leave alone.\<close>

definition frame :: "ParseContext \<Rightarrow> rtext \<times> LexicalAnalyzer \<times> Token option \<times> ParseEnvironment" where
  "frame c = (pc_expression c, pc_lexer c, pc_last_token c, pc_env c)"

lemma frame_simps [simp]:
  "frame (c\<lparr>pc_operators := ops\<rparr>) = frame c" "frame (c\<lparr>pc_operands := nodes\<rparr>) = frame c"
  "frame (push_node c n) = frame c"
  by (simp_all add: frame_def)

lemma frameD:
  "frame c1 = frame c \<Longrightarrow> pc_expression c1 = pc_expression c \<and> pc_lexer c1 = pc_lexer c
     \<and> pc_last_token c1 = pc_last_token c \<and> pc_env c1 = pc_env c"
  by (simp add: frame_def)

lemma pop_parameters_keeps:
  assumes "pop_parameters c = Inr (ns, c1)"
  shows "length (pc_operators c1) \<le> length (pc_operators c)" "frame c1 = frame c"
  using assms by (auto simp: pop_parameters_def Let_def pop_operands_Inr split: if_splits)

lemma flush_top_end_parameters_Inr:
  assumes "flush_top_end_parameters c = Inr c1"
  obtains t ops ps c2 name args nodes start c3 where
    "pc_operators c = t # ops" "tk_kind t = TkEndParameters"
    "pop_parameters (c\<lparr>pc_operators := ops\<rparr>) = Inr (ps, c2)" "pc_operands c2 = NFunction name args # nodes"
    "pc_operators c2 = start # c3" "tk_kind start = TkStartParameters"
    "check_arity c1 name (length (args @ ps)) start = Inr ()"
    "c1 = c2\<lparr>pc_operands := NFunction name (args @ ps) # nodes, pc_operators := c3\<rparr>"
proof -
  obtain t c' ps c2 where c2: "pop_operator c TkEndParameters = Inr (t, c')" "pop_parameters c' = Inr (ps, c2)"
    "(case pc_operands c2 of
       NFunction name args # nodes \<Rightarrow>
         try_sum (pop_operator (c2\<lparr>pc_operands := NFunction name (args @ ps) # nodes\<rparr>) TkStartParameters)
           (\<lambda>(start, c3). try_sum (check_arity c3 name (length (args @ ps)) start) (\<lambda>_. Inr c3))
     | _ \<Rightarrow> internal (pc_expression c2) (lit ''expected a function node on the operand stack'')) = Inr c1"
    using assms unfolding flush_top_end_parameters_def try_sum_Inr_prod by blast
  obtain name args nodes where nodes: "pc_operands c2 = NFunction name args # nodes"
    using c2(3) by (auto split: list.splits Node.splits)
  obtain start c3 where start: "pop_operator (c2\<lparr>pc_operands := NFunction name (args @ ps) # nodes\<rparr>) TkStartParameters = Inr (start, c3)"
    "try_sum (check_arity c3 name (length (args @ ps)) start) (\<lambda>_. Inr c3) = Inr c1"
    using c2(3) by (auto simp: nodes try_sum_Inr_prod)
  then have "c3 = c1" "check_arity c1 name (length (args @ ps)) start = Inr ()" by (auto simp: try_sum_Inr)
  then show ?thesis using that c2(1,2) nodes start(1) by (auto simp: pop_operator_Inr)
qed

lemma flush_top_end_parameters_keeps:
  assumes "flush_top_end_parameters c = Inr c1"
  shows "length (pc_operators c1) < length (pc_operators c)" "frame c1 = frame c"
proof -
  from assms show "length (pc_operators c1) < length (pc_operators c)"
    by (cases rule: flush_top_end_parameters_Inr) (auto dest: pop_parameters_keeps(1))
  from assms show "frame c1 = frame c"
    by (cases rule: flush_top_end_parameters_Inr) (auto dest: pop_parameters_keeps(2))
qed

lemma flush_top_operator_keeps:
  assumes "flush_top_operator c = Inr c1"
  shows "length (pc_operators c1) < length (pc_operators c)" "frame c1 = frame c"
  using assms flush_top_end_parameters_keeps [of c c1]
  by (auto simp: flush_top_operator_def flush_top_end_index_def flush_top_end_group_def try_sum_Inr_prod
      pop_operator_Inr pop_operands_Inr index_node_Inr dest!: logical_node_keeps
      split: list.splits if_splits TokenKind.splits)

section \<open>Pushing tokens\<close>

function flush_while :: "int \<Rightarrow> ParseContext \<Rightarrow> ParseContext parsed" where
  "flush_while p c =
     (case pc_operators c of
        [] \<Rightarrow> Inr c
      | t # _ \<Rightarrow>
          if p \<le> precedence t
             \<and> tk_kind t \<notin> {TkStartGroup, TkStartIndex, TkStartParameters, TkSeparator}
          then (case flush_top_operator c of Inl e \<Rightarrow> Inl e | Inr c1 \<Rightarrow> flush_while p c1)
          else Inr c)"
  by pat_completeness auto
termination
  by (relation "measure (\<lambda>(p, c). length (pc_operators c))") (auto dest: flush_top_operator_keeps(1))

declare flush_while.simps [simp del]

definition push_operator :: "ParseContext \<Rightarrow> Token \<Rightarrow> ParseContext parsed" where
  "push_operator c t =
     try_sum (if associativity t = LeftToRight then flush_while (precedence t) c else Inr c) (\<lambda>c1.
       let c2 = c1\<lparr>pc_operators := t # pc_operators c1\<rparr>
       in if tk_kind t \<in> {TkEndGroup, TkEndIndex, TkEndParameters} then flush_top_operator c2 else Inr c2)"

definition push_operand :: "ParseContext \<Rightarrow> Token \<Rightarrow> ParseContext parsed" where
  "push_operand c t =
     (case tk_kind t of
        TkFunction \<Rightarrow>
          (case lookup_function (pc_env c) (tk_raw t) of
             None \<Rightarrow> with_token UnrecognizedFunction t (pc_expression c)
           | Some (canonical, _) \<Rightarrow>
               Inr (push_node c (NFunction (if canonical = [] then tk_raw t else canonical) [])))
      | TkNamedValue \<Rightarrow>
          if \<not> is_named_value (pc_env c) (tk_raw t)
          then with_token UnrecognizedNamedValue t (pc_expression c)
          else Inr (push_node c (NNamedValue (tk_raw t)))
      | TkWildcard \<Rightarrow> Inr (push_node c NWildcard)
      | TkPropertyName \<Rightarrow> Inr (push_node c (NLiteral (VString (tk_raw t))))
      | other \<Rightarrow>
          if other \<in> {TkNull, TkBoolean, TkNumber, TkString}
          then Inr (push_node c (NLiteral (case tk_parsed t of Some v \<Rightarrow> v | None \<Rightarrow> VNull)))
          else internal (pc_expression c) (lit ''token kind '' @ TokenKind_debug other @ lit '' is not an operand''))"

section \<open>Parsing\<close>

function check_max_depth :: "rtext \<Rightarrow> Node \<Rightarrow> nat \<Rightarrow> unit parsed" where
  "check_max_depth e n depth =
     (if MAX_DEPTH < depth then without_token ExceededMaxDepth e
      else fold (\<lambda>child r. case r of Inl x \<Rightarrow> Inl x | Inr _ \<Rightarrow> check_max_depth e child (depth + 1))
             (children n) (Inr ()))"
  by pat_completeness auto
termination by (relation "measure (\<lambda>(e, n, d). Suc MAX_DEPTH - d)") auto

declare check_max_depth.simps [simp del]

lemma create_token_keeps:
  "lx_index (snd (create_token L k raw i p)) = lx_index L" "lx_expression (snd (create_token L k raw i p)) = lx_expression L"
  by (simp_all add: create_token_def close_bracket_def Let_def split: TokenKind.splits)

definition advances :: "LexicalAnalyzer \<Rightarrow> Token \<times> LexicalAnalyzer \<Rightarrow> bool" where
  "advances L r \<longleftrightarrow> lx_index L < lx_index (snd r) \<and> lx_expression (snd r) = lx_expression L"

lemma create_token_advances: "lx_index L < i \<Longrightarrow> advances L (create_token (L\<lparr>lx_index := i\<rparr>) k raw j p)"
  by (simp add: advances_def create_token_keeps)

lemma scan_while_ge: "i \<le> scan_while p L i"
  by (simp add: scan_while_def)

lemma read_advances:
  "advances L (single_token L k c)" "advances L (read_number_token L)" "advances L (read_string_token L)"
  "advances L (read_keyword_token L)" "advances L (read_operator L)"
proof -
  have s: "i < scan_while p L (Suc i)" for i p using scan_while_ge [of "Suc i" p L] by simp
  show "advances L (single_token L k c)" unfolding single_token_def by (rule create_token_advances) simp
  show "advances L (read_number_token L)"
    unfolding read_number_token_def Let_def if_distrib [of "advances L"]
    by (intro if_bool_eq_conj [THEN iffD2] conjI impI create_token_advances s)
  show "advances L (read_string_token L)"
    unfolding read_string_token_def Let_def case_prod_beta by (auto intro!: create_token_advances)
  show "advances L (read_keyword_token L)"
    unfolding read_keyword_token_def Let_def if_distrib [of "advances L"]
    by (intro if_bool_eq_conj [THEN iffD2] conjI impI create_token_advances s)
  show "advances L (read_operator L)"
    unfolding read_operator_def Let_def if_distrib [of "advances L"] Suc_eq_plus1 [symmetric]
    by (intro if_bool_eq_conj [THEN iffD2] conjI impI create_token_advances s) simp_all
qed

lemma read_token_advances: "advances L (read_token L c)"
  unfolding read_token_def if_distrib [of "advances L"]
  by (intro if_bool_eq_conj [THEN iffD2] conjI impI read_advances)

lemma next_token_advances:
  assumes "next_token L = (Some t, L1)"
  shows "lx_index L < lx_index L1" "lx_index L < length (lx_expression L)" "lx_expression L1 = lx_expression L"
proof -
  let ?L0 = "L\<lparr>lx_index := scan_while is_whitespace L (lx_index L)\<rparr>"
  obtain c where c: "char_at ?L0 (lx_index ?L0) = Some c"
    using assms by (auto simp: next_token_def Let_def split: option.splits)
  then have "advances ?L0 (read_token ?L0 c)" "L1 = snd (read_token ?L0 c)\<lparr>lx_last_token := Some t\<rparr>"
    using assms read_token_advances by (auto simp: next_token_def Let_def split: prod.splits)
  then show "lx_index L < lx_index L1" "lx_index L < length (lx_expression L)" "lx_expression L1 = lx_expression L"
    using c scan_while_ge [of "lx_index L" is_whitespace L]
    by (auto simp: advances_def char_at_def split: if_splits)
qed

lemma flush_while_keeps: "flush_while p c = Inr c1 \<Longrightarrow> frame c1 = frame c"
proof (induction p c rule: flush_while.induct)
  case (1 p c)
  show ?case
    using 1 flush_top_operator_keeps(2)
    by (subst (asm) (2) flush_while.simps) (fastforce split: list.splits if_splits sum.splits)
qed

lemma push_keeps:
  "push_operator c t = Inr c1 \<Longrightarrow> frame c1 = frame c" "push_operand c t = Inr c1 \<Longrightarrow> frame c1 = frame c"
proof -
  assume "push_operator c t = Inr c1"
  then show "frame c1 = frame c"
    using flush_while_keeps [of "precedence t" c] flush_top_operator_keeps(2)
    by (fastforce simp: push_operator_def try_sum_Inr Let_def split: if_splits)
next
  assume "push_operand c t = Inr c1"
  then show "frame c1 = frame c"
    by (auto simp: push_operand_def split: TokenKind.splits option.splits if_splits)
qed

definition push_token :: "ParseContext \<Rightarrow> Token \<Rightarrow> ParseContext parsed" where
  "push_token c t =
     (if tk_kind t = TkUnexpected then with_token UnexpectedSymbol t (pc_expression c)
      else if is_operator t then push_operator c t
      else push_operand c t)"

lemma push_token_keeps: "push_token c t = Inr c1 \<Longrightarrow> frame c1 = frame c"
  by (auto simp: push_token_def dest: push_keeps split: if_splits)

lemma push_token_decreases:
  assumes "next_token (pc_lexer c) = (Some t, L)" "push_token (c\<lparr>pc_lexer := L\<rparr>) t = Inr c1"
  shows "length (lx_expression (pc_lexer c1)) - lx_index (pc_lexer c1)
    < length (lx_expression (pc_lexer c)) - lx_index (pc_lexer c)"
  using next_token_advances [OF assms(1)] frameD [OF push_token_keeps [OF assms(2)]] by auto

function parse_tokens :: "ParseContext \<Rightarrow> ParseContext parsed" where
  "parse_tokens c =
     (case next_token (pc_lexer c) of
        (None, L) \<Rightarrow> Inr (c\<lparr>pc_lexer := L\<rparr>)
      | (Some t, L) \<Rightarrow>
          (case push_token (c\<lparr>pc_lexer := L\<rparr>) t of
             Inl e \<Rightarrow> Inl e
           | Inr c1 \<Rightarrow> parse_tokens (c1\<lparr>pc_last_token := Some t\<rparr>)))"
  by pat_completeness auto
termination
  by (relation "measure (\<lambda>c. length (lx_expression (pc_lexer c)) - lx_index (pc_lexer c))")
    (auto dest!: push_token_decreases sym [of "(_, _)"])

declare parse_tokens.simps [simp del]

function flush_all :: "ParseContext \<Rightarrow> ParseContext parsed" where
  "flush_all c =
     (if pc_operators c = [] then Inr c
      else case flush_top_operator c of Inl e \<Rightarrow> Inl e | Inr c1 \<Rightarrow> flush_all c1)"
  by pat_completeness auto
termination
  by (relation "measure (\<lambda>c. length (pc_operators c))") (auto dest: flush_top_operator_keeps(1))

declare flush_all.simps [simp del]

definition unexpected_last_token :: "Token \<Rightarrow> bool" where
  "unexpected_last_token t =
     (if tk_kind t \<in> {TkEndGroup, TkEndIndex, TkEndParameters} then False
      else if tk_kind t = TkFunction then True
      else is_operator t)"

definition parse :: "rtext \<Rightarrow> ParseEnvironment \<Rightarrow> Node option parsed" where
  "parse e env =
     (if MAX_LENGTH < length e then without_token ExceededMaxLength e
      else
        try_sum (parse_tokens \<lparr>pc_expression = e, pc_lexer = lexer_new e, pc_operands = [], pc_operators = [],
                               pc_last_token = None, pc_env = env\<rparr>) (\<lambda>c.
        case pc_last_token c of
          None \<Rightarrow> Inr None
        | Some t \<Rightarrow>
            if pc_operators c \<noteq> [] \<and> (unexpected_last_token t \<or> has_unclosed_tokens (pc_lexer c))
            then with_token UnexpectedEndOfExpression t e
            else try_sum (flush_all c) (\<lambda>c1.
              if length (pc_operands c1) \<noteq> 1 then with_token UnexpectedEndOfExpression t e
              else
                let n = hd (pc_operands c1)
                in try_sum (check_max_depth e n 1) (\<lambda>_. Inr (Some n)))))"

end
