(* ===== verification/Expr_Stacks.thy ===== *)
theory Expr_Stacks
  imports Expr_Parser
begin

text \<open>
  The shunting-yard keeps its two stacks in step.  \<open>pend\<close> says that the stacks are those of a parse
  that waits for its next operand; the table of the lexer, which token may follow which, makes every
  reachable state of the parser one of three shapes, and on those no stack underflows and no
  \<open>expect\<close> fails.
\<close>

section \<open>Trees the parser builds\<close>

text \<open>Every call has a number of arguments its function accepts, a \<open>case\<close> has an odd one, and a
  conjunction or disjunction has operands.\<close>

fun node_ok :: "ParseEnvironment \<Rightarrow> Node \<Rightarrow> bool" where
  "node_ok env (NLiteral _) = True"
| "node_ok env NWildcard = True"
| "node_ok env (NNamedValue _) = True"
| "node_ok env (NIndex l r) = (node_ok env l \<and> node_ok env r)"
| "node_ok env (NNot n) = node_ok env n"
| "node_ok env (NAnd ns) = (ns \<noteq> [] \<and> list_all (node_ok env) ns)"
| "node_ok env (NOr ns) = (ns \<noteq> [] \<and> list_all (node_ok env) ns)"
| "node_ok env (NBinary _ l r) = (node_ok env l \<and> node_ok env r)"
| "node_ok env (NFunction name args) =
     (list_all (node_ok env) args
      \<and> (\<exists>c lo hi. lookup_function env name = Some (c, lo, hi) \<and> lo \<le> length args \<and> length args \<le> hi)
      \<and> \<not> (eq_ignore_ascii_case name (lit ''case'') \<and> even (length args)))"

lemma flatten_ok: "list_all (node_ok env) ns \<Longrightarrow> list_all (node_ok env) (flatten b ns)"
  by (induction ns) (auto simp: flatten_def split: Node.splits)

lemma flatten_nonempty: "node_ok env n \<Longrightarrow> flatten b (n # ns) \<noteq> []"
  by (auto simp: flatten_def split: Node.splits)

section \<open>Waiting for an operand\<close>

inductive pend :: "ParseEnvironment \<Rightarrow> Token list \<Rightarrow> Node list \<Rightarrow> bool" for env where
  start: "pend env [] []"
| group: "tk_kind t = TkStartGroup \<Longrightarrow> pend env ops ns \<Longrightarrow> pend env (t # ops) ns"
| negate: "tk_kind t = TkLogicalOperator \<Longrightarrow> tk_raw t = lit ''!'' \<Longrightarrow> pend env ops ns \<Longrightarrow> pend env (t # ops) ns"
| binary: "tk_kind t = TkLogicalOperator \<Longrightarrow> tk_raw t \<in> set binary_operators \<Longrightarrow> node_ok env n
    \<Longrightarrow> pend env ops ns \<Longrightarrow> pend env (t # ops) (n # ns)"
| index: "tk_kind t \<in> {TkStartIndex, TkDereference} \<Longrightarrow> node_ok env n
    \<Longrightarrow> pend env ops ns \<Longrightarrow> pend env (t # ops) (n # ns)"
| call: "tk_kind t = TkStartParameters \<Longrightarrow> pend env ops ns \<Longrightarrow> pend env (t # ops) (NFunction name [] # ns)"
| argument: "tk_kind t = TkSeparator \<Longrightarrow> node_ok env n \<Longrightarrow> ops \<noteq> []
    \<Longrightarrow> tk_kind (hd ops) \<in> {TkStartParameters, TkSeparator}
    \<Longrightarrow> pend env ops ns \<Longrightarrow> pend env (t # ops) (n # ns)"

inductive_cases pend_NilE: "pend env [] ns"

definition opens_bracket :: "TokenKind \<Rightarrow> bool" where
  "opens_bracket k = (k \<in> {TkStartGroup, TkStartIndex, TkStartParameters})"

definition open_kinds :: "Token list \<Rightarrow> TokenKind list" where
  "open_kinds ops = filter opens_bracket (map tk_kind ops)"

text \<open>An operand has just been completed.\<close>

definition complete :: "ParseContext \<Rightarrow> bool" where
  "complete c = (\<exists>n ns. pc_operands c = n # ns \<and> node_ok (pc_env c) n \<and> pend (pc_env c) (pc_operators c) ns)"

lemma lit_eq_iff [simp]: "lit a = lit b \<longleftrightarrow> a = b"
proof -
  have "inj byte_of" by (rule injI) (simp add: byte_of_nat)
  then show ?thesis by (simp add: lit_def inj_map_eq_map)
qed

lemma binary_operator_precedence:
  assumes "tk_kind t = TkLogicalOperator" "tk_raw t \<in> set binary_operators"
  shows "operand_count t = 2" "1 \<le> precedence t" "tk_raw t \<noteq> lit ''!''"
  using assms by (auto simp: operand_count_def precedence_def binary_operators_def)

lemma logical_node_binary:
  assumes "raw \<in> set binary_operators" "list_all (node_ok env) [l, r]"
  shows "\<exists>n. logical_node c raw [l, r] = Inr (push_node c n) \<and> node_ok env n"
  using assms flatten_ok [OF assms(2)] flatten_nonempty [of env l _ "[r]"]
  by (auto simp: logical_node_def binary_operators_def binary_operator_def)

lemma flush_complete:
  assumes "complete c" "pc_operators c = t # ops" "tk_kind t \<in> {TkLogicalOperator, TkDereference}"
  shows "\<exists>c1. flush_top_operator c = Inr c1 \<and> complete c1 \<and> pc_operators c1 = ops"
proof -
  obtain n ns where n: "pc_operands c = n # ns" "node_ok (pc_env c) n" "pend (pc_env c) (t # ops) ns"
    using assms(1,2) by (auto simp: complete_def)
  from n(3) show ?thesis
  proof cases
    case negate
    then show ?thesis
      using n assms(2) by (simp add: flush_top_operator_def operand_count_def pop_operands_def logical_node_def complete_def push_node_def)
  next
    case (binary l ls)
    obtain m where "logical_node (c\<lparr>pc_operators := ops, pc_operands := ls\<rparr>) (tk_raw t) [l, n]
        = Inr (push_node (c\<lparr>pc_operators := ops, pc_operands := ls\<rparr>) m)" "node_ok (pc_env c) m"
      using logical_node_binary [OF binary(3), of "pc_env c" l n] binary(4) n(2) by auto
    then show ?thesis
      using binary n assms(2) binary_operator_precedence(1) [of t]
      by (simp add: flush_top_operator_def pop_operands_def complete_def push_node_def)
  next
    case (index l ls)
    then show ?thesis
      using n assms(2,3)
      by (auto simp: flush_top_operator_def operand_count_def pop_operands_def index_node_def complete_def push_node_def)
  qed (use assms(3) in auto)
qed

lemma pend_top:
  assumes "pend env (t # ops) ns" "tk_kind t \<notin> {TkStartGroup, TkStartIndex, TkStartParameters, TkSeparator}"
  shows "tk_kind t \<in> {TkLogicalOperator, TkDereference} \<and> 1 \<le> precedence t"
  using assms(1)
proof cases
  case negate
  then show ?thesis by (simp add: precedence_def)
next
  case binary
  then show ?thesis using binary_operator_precedence(2) by simp
next
  case index
  then show ?thesis using assms(2) by (auto simp: precedence_def)
qed (use assms(2) in auto)

text \<open>A flush before an operator of a given precedence succeeds, and before a closing bracket or a
  separator it goes down to the last bracket or separator.\<close>

lemma flush_while_complete:
  assumes "complete c"
  shows "\<exists>c1. flush_while p c = Inr c1 \<and> complete c1 \<and> open_kinds (pc_operators c1) = open_kinds (pc_operators c)
    \<and> (p \<le> 1 \<longrightarrow> pc_operators c1 = []
         \<or> tk_kind (hd (pc_operators c1)) \<in> {TkStartGroup, TkStartIndex, TkStartParameters, TkSeparator})"
  using assms
proof (induction p c rule: flush_while.induct)
  case (1 p c)
  show ?case
  proof (cases "\<exists>t ops. pc_operators c = t # ops \<and> p \<le> precedence t
      \<and> tk_kind t \<notin> {TkStartGroup, TkStartIndex, TkStartParameters, TkSeparator}")
    case True
    then obtain t ops where t: "pc_operators c = t # ops" "p \<le> precedence t"
      "tk_kind t \<notin> {TkStartGroup, TkStartIndex, TkStartParameters, TkSeparator}" by blast
    have k: "tk_kind t \<in> {TkLogicalOperator, TkDereference}"
      using "1.prems" t pend_top by (auto simp: complete_def)
    obtain c1 where c1: "flush_top_operator c = Inr c1" "complete c1" "pc_operators c1 = ops"
      using flush_complete [OF "1.prems" t(1) k] by blast
    have "open_kinds (pc_operators c) = open_kinds ops" using t(1) k by (auto simp: open_kinds_def opens_bracket_def)
    then show ?thesis
      using "1.IH" [OF t(1) _ c1(1,2)] t c1 by (subst flush_while.simps) simp
  next
    case False
    then have "flush_while p c = Inr c" by (subst flush_while.simps) (auto split: list.splits)
    moreover have "pc_operators c = [] \<or> tk_kind (hd (pc_operators c)) \<in> {TkStartGroup, TkStartIndex, TkStartParameters, TkSeparator}"
      if "p \<le> 1"
    proof (cases "pc_operators c")
      case (Cons t ops)
      then show ?thesis using False "1.prems" that pend_top [of "pc_env c" t ops] by (force simp: complete_def)
    qed simp
    ultimately show ?thesis using "1.prems" by blast
  qed
qed

section \<open>Closing brackets\<close>

lemma pend_call:
  assumes "pend env ops ns" "ops \<noteq> []" "tk_kind (hd ops) \<in> {TkStartParameters, TkSeparator}"
  shows "\<exists>seps sp rest args name ms. ops = seps @ sp # rest \<and> list_all (\<lambda>t. tk_kind t = TkSeparator) seps
    \<and> tk_kind sp = TkStartParameters \<and> ns = args @ NFunction name [] # ms \<and> length args = length seps
    \<and> list_all (node_ok env) args \<and> pend env rest ms"
  using assms
proof (induction rule: pend.induct)
  case (call t ops ns name)
  then show ?case by (intro exI [of _ "[]"]) auto
next
  case (argument t n ops ns)
  then obtain seps sp rest args name ms where "ops = seps @ sp # rest" "list_all (\<lambda>t. tk_kind t = TkSeparator) seps"
    "tk_kind sp = TkStartParameters" "ns = args @ NFunction name [] # ms" "length args = length seps"
    "list_all (node_ok env) args" "pend env rest ms"
    using argument.IH [OF argument.hyps(3,4)] by blast
  then show ?case
    using argument.hyps(1,2)
    by (intro exI [of _ "t # seps"] exI [of _ sp] exI [of _ rest] exI [of _ "n # args"] exI [of _ name] exI [of _ ms]) simp
qed auto

lemma open_kinds_call:
  assumes "pend env ops ns" "ops \<noteq> []" "tk_kind (hd ops) \<in> {TkStartParameters, TkSeparator}"
  shows "\<exists>ks. open_kinds ops = TkStartParameters # ks"
proof -
  obtain seps sp rest where "ops = seps @ sp # rest" "list_all (\<lambda>t. tk_kind t = TkSeparator) seps"
    "tk_kind sp = TkStartParameters"
    using pend_call [OF assms] by blast
  moreover from this(2) have "filter opens_bracket (map tk_kind seps) = []"
    by (auto simp: filter_empty_conv list_all_iff opens_bracket_def)
  ultimately show ?thesis by (auto simp: open_kinds_def opens_bracket_def)
qed

text \<open>After a flush the bracket on top is the one the lexer has open.\<close>

lemma top_open:
  assumes "complete c" "open_kinds (pc_operators c) = k # ks"
    and "pc_operators c = [] \<or> tk_kind (hd (pc_operators c)) \<in> {TkStartGroup, TkStartIndex, TkStartParameters, TkSeparator}"
  shows "pc_operators c \<noteq> []"
    "k \<in> {TkStartGroup, TkStartIndex} \<Longrightarrow> tk_kind (hd (pc_operators c)) = k"
    "k = TkStartParameters \<Longrightarrow> tk_kind (hd (pc_operators c)) \<in> {TkStartParameters, TkSeparator}"
proof -
  obtain n ns where p: "pend (pc_env c) (pc_operators c) ns" using assms(1) by (auto simp: complete_def)
  show ne: "pc_operators c \<noteq> []" using assms(2) by (auto simp: open_kinds_def)
  then obtain t ops where t: "pc_operators c = t # ops" by (cases "pc_operators c") auto
  have sep: "k = TkStartParameters" if "tk_kind t \<in> {TkStartParameters, TkSeparator}"
    using open_kinds_call [OF p ne] that assms(2) t by auto
  show "tk_kind (hd (pc_operators c)) = k" if "k \<in> {TkStartGroup, TkStartIndex}"
    using assms(2,3) t that sep by (auto simp: open_kinds_def opens_bracket_def)
  show "tk_kind (hd (pc_operators c)) \<in> {TkStartParameters, TkSeparator}" if "k = TkStartParameters"
    using assms(2,3) t that by (auto simp: open_kinds_def opens_bracket_def)
qed

lemma close_group:
  assumes "complete c" "pc_operators c = g # ops" "tk_kind g = TkStartGroup" "tk_kind t = TkEndGroup"
  shows "\<exists>c1. flush_top_operator (c\<lparr>pc_operators := t # pc_operators c\<rparr>) = Inr c1 \<and> complete c1 \<and> pc_operators c1 = ops"
proof -
  obtain n ns where n: "pc_operands c = n # ns" "node_ok (pc_env c) n" "pend (pc_env c) (g # ops) ns"
    using assms(1,2) by (auto simp: complete_def)
  from n(3) assms(3) have "pend (pc_env c) ops ns" by cases auto
  then show ?thesis
    using assms n by (simp add: flush_top_operator_def flush_top_end_group_def pop_operator_def complete_def)
qed

lemma close_index:
  assumes "complete c" "pc_operators c = g # ops" "tk_kind g = TkStartIndex" "tk_kind t = TkEndIndex"
  shows "\<exists>c1. flush_top_operator (c\<lparr>pc_operators := t # pc_operators c\<rparr>) = Inr c1 \<and> complete c1 \<and> pc_operators c1 = ops"
proof -
  obtain n ns where n: "pc_operands c = n # ns" "node_ok (pc_env c) n" "pend (pc_env c) (g # ops) ns"
    using assms(1,2) by (auto simp: complete_def)
  from n(3) assms(3) obtain l ms where "ns = l # ms" "node_ok (pc_env c) l" "pend (pc_env c) ops ms" by cases auto
  then show ?thesis
    using assms n by (simp add: flush_top_operator_def flush_top_end_index_def pop_operator_def pop_operands_def
        operand_count_def index_node_def complete_def)
qed

text \<open>A failure the user caused: an error that is not \<open>Internal\<close>.\<close>

definition user_error :: "'a parsed \<Rightarrow> bool" where
  "user_error r = (\<exists>e. r = Inl (Err e) \<and> pe_kind e \<noteq> Internal)"

lemma check_arity_cases:
  assumes "list_all (node_ok (pc_env c)) args"
  shows "user_error (check_arity c name (length args) t) \<or>
    check_arity c name (length args) t = Inr () \<and> node_ok (pc_env c) (NFunction name args)"
  using assms by (auto simp: check_arity_def user_error_def with_token_def not_less split: option.splits)

lemma close_call_stacks:
  assumes "pop_parameters (c\<lparr>pc_operators := ops\<rparr>) = Inr (ps, c\<lparr>pc_operators := sp # rest, pc_operands := NFunction name [] # ns\<rparr>)"
    and "tk_kind t = TkEndParameters" "tk_kind sp = TkStartParameters"
    and "list_all (node_ok (pc_env c)) ps" "pend (pc_env c) rest ns"
  shows "user_error (flush_top_operator (c\<lparr>pc_operators := t # ops\<rparr>)) \<or>
    (\<exists>c1. flush_top_operator (c\<lparr>pc_operators := t # ops\<rparr>) = Inr c1 \<and> complete c1 \<and> pc_operators c1 = rest)"
proof -
  let ?c1 = "c\<lparr>pc_operands := NFunction name ps # ns, pc_operators := rest\<rparr>"
  have "flush_top_operator (c\<lparr>pc_operators := t # ops\<rparr>) =
      try_sum (check_arity ?c1 name (length ps) sp) (\<lambda>_. Inr ?c1)"
    using assms(1-3) by (simp add: flush_top_operator_def flush_top_end_parameters_def pop_operator_def)
  then show ?thesis
    using check_arity_cases [of ?c1 ps name sp] assms(4,5) by (auto simp: user_error_def complete_def)
qed

lemma close_empty_call:
  assumes "pend (pc_env c) (sp # rest) (pc_operands c)" "pc_operators c = sp # rest" "tk_kind sp = TkStartParameters"
    and "tk_kind t = TkEndParameters" "map_option tk_kind (pc_last_token c) = Some TkStartParameters"
  shows "user_error (flush_top_operator (c\<lparr>pc_operators := t # pc_operators c\<rparr>)) \<or>
    (\<exists>c1. flush_top_operator (c\<lparr>pc_operators := t # pc_operators c\<rparr>) = Inr c1 \<and> complete c1 \<and> pc_operators c1 = rest)"
proof -
  from assms(1,3) obtain name ns where n: "pc_operands c = NFunction name [] # ns" "pend (pc_env c) rest ns"
    by cases auto
  then have same: "c\<lparr>pc_operators := sp # rest, pc_operands := NFunction name [] # ns\<rparr> = c"
    using assms(2) by (metis ParseContext.update_convs(3,4) ParseContext.surjective)
  show ?thesis
    using close_call_stacks [where c = c and ops = "sp # rest" and ps = "[]" and sp = sp and rest = rest and name = name and ns = ns and t = t] assms(2-5) n same
    by (simp add: pop_parameters_def)
qed

lemma close_call:
  assumes "complete c" "pc_operators c \<noteq> []" "tk_kind (hd (pc_operators c)) \<in> {TkStartParameters, TkSeparator}"
    and "tk_kind t = TkEndParameters" "map_option tk_kind (pc_last_token c) \<noteq> Some TkStartParameters"
    and "open_kinds (pc_operators c) = TkStartParameters # ks"
  shows "user_error (flush_top_operator (c\<lparr>pc_operators := t # pc_operators c\<rparr>)) \<or>
    (\<exists>c1. flush_top_operator (c\<lparr>pc_operators := t # pc_operators c\<rparr>) = Inr c1 \<and> complete c1 \<and> open_kinds (pc_operators c1) = ks)"
proof -
  obtain n ns where n: "pc_operands c = n # ns" "node_ok (pc_env c) n" "pend (pc_env c) (pc_operators c) ns"
    using assms(1) by (auto simp: complete_def)
  obtain seps sp rest args name ms where s: "pc_operators c = seps @ sp # rest" "list_all (\<lambda>t. tk_kind t = TkSeparator) seps"
    "tk_kind sp = TkStartParameters" "ns = args @ NFunction name [] # ms" "length args = length seps"
    "list_all (node_ok (pc_env c)) args" "pend (pc_env c) rest ms"
    using pend_call [OF n(3) assms(2,3)] by blast
  have len: "length (takeWhile (\<lambda>t. tk_kind t = TkSeparator) (pc_operators c)) = length seps"
    using s(1-3) by (simp add: takeWhile_append list_all_iff)
  have "pop_parameters (c\<lparr>pc_operators := pc_operators c\<rparr>)
      = Inr (rev (n # args), c\<lparr>pc_operators := sp # rest, pc_operands := NFunction name [] # ms\<rparr>)"
    using assms(5) n(1) s(1,4,5) len by (simp add: pop_parameters_def Let_def pop_operands_def)
  moreover have "list_all (node_ok (pc_env c)) (rev (n # args))" using n(2) s(6) by simp
  ultimately have "user_error (flush_top_operator (c\<lparr>pc_operators := t # pc_operators c\<rparr>)) \<or>
    (\<exists>c1. flush_top_operator (c\<lparr>pc_operators := t # pc_operators c\<rparr>) = Inr c1 \<and> complete c1 \<and> pc_operators c1 = rest)"
    using close_call_stacks assms(4) s(3,7) by blast
  moreover have "filter opens_bracket (map tk_kind seps) = []"
    using s(2) by (auto simp: filter_empty_conv list_all_iff opens_bracket_def)
  then have "open_kinds rest = ks"
    using assms(6) s(1,3) by (simp add: open_kinds_def opens_bracket_def)
  ultimately show ?thesis by auto
qed

section \<open>What the lexer guarantees\<close>

definition matching :: "TokenKind \<Rightarrow> TokenKind" where
  "matching k = (if k = TkEndGroup then TkStartGroup else if k = TkEndIndex then TkStartIndex else TkStartParameters)"

definition closes_bracket :: "TokenKind \<Rightarrow> bool" where
  "closes_bracket k = (k \<in> {TkEndGroup, TkEndIndex, TkEndParameters})"

text \<open>The lexer after a legal token of a kind: the brackets, and where it stands.\<close>

definition token_step :: "LexicalAnalyzer \<Rightarrow> Token \<Rightarrow> LexicalAnalyzer \<Rightarrow> bool" where
  "token_step L t L1 \<longleftrightarrow>
     legal_token L (tk_kind t) (tk_raw t)
     \<and> (if opens_bracket (tk_kind t) then lx_unclosed_tokens L1 = t # lx_unclosed_tokens L
        else if closes_bracket (tk_kind t) then
          (\<exists>u. lx_unclosed_tokens L = u # lx_unclosed_tokens L1 \<and> tk_kind u = matching (tk_kind t))
        else lx_unclosed_tokens L1 = lx_unclosed_tokens L
          \<and> (tk_kind t = TkSeparator \<longrightarrow> peek_unclosed L = Some TkStartParameters))"

lemma create_token_step:
  assumes "create_token L k raw i p = (t, L1)" "tk_kind t \<noteq> TkUnexpected"
  shows "tk_kind t = k \<and> tk_raw t = raw \<and> token_step L t L1"
proof -
  have legal: "legal_token L k raw" using assms by (auto simp: create_token_def unexpected_def split: if_splits)
  have close: "close_bracket L m u = (t, L1) \<Longrightarrow> t = u \<and> (\<exists>b. lx_unclosed_tokens L = b # lx_unclosed_tokens L1 \<and> tk_kind b = m)" for m u
    using assms(2) by (auto simp: close_bracket_def unexpected_def peek_unclosed_def split: if_splits list.splits)
  show ?thesis
    using assms legal
    by (cases k) (auto simp: create_token_def token_step_def opens_bracket_def closes_bracket_def matching_def Let_def
      unexpected_def dest!: close split: if_splits)
qed

definition logical_raw :: "rtext \<Rightarrow> bool" where
  "logical_raw raw = (raw = lit ''!'' \<or> raw \<in> set binary_operators)"

text \<open>Every reading function ends in \<open>create_token\<close> at a later index.\<close>

definition reads :: "LexicalAnalyzer \<Rightarrow> Token \<times> LexicalAnalyzer \<Rightarrow> bool" where
  "reads L r \<longleftrightarrow> (\<exists>k raw i p j. r = create_token (L\<lparr>lx_index := j\<rparr>) k raw i p
     \<and> (k = TkLogicalOperator \<longrightarrow> logical_raw raw)
     \<and> (k = TkFunction \<longrightarrow> char_at L (scan_while is_whitespace L j) = Some 40))"

lemma readsI:
  "(k = TkLogicalOperator \<longrightarrow> logical_raw raw) \<Longrightarrow> (k = TkFunction \<longrightarrow> char_at L (scan_while is_whitespace L j) = Some 40)
     \<Longrightarrow> reads L (create_token (L\<lparr>lx_index := j\<rparr>) k raw i p)"
  unfolding reads_def by blast

lemma reads_if: "(P \<Longrightarrow> reads L a) \<Longrightarrow> (\<not> P \<Longrightarrow> reads L b) \<Longrightarrow> reads L (if P then a else b)"
  by simp

lemma single_token_reads: "k \<notin> {TkLogicalOperator, TkFunction} \<Longrightarrow> reads L (single_token L k c)"
  unfolding single_token_def by (rule readsI) auto

lemma read_reads:
  "reads L (read_number_token L)" "reads L (read_string_token L)" "reads L (read_keyword_token L)" "reads L (read_operator L)"
proof -
  show "reads L (read_number_token L)"
    unfolding read_number_token_def Let_def by (intro reads_if readsI) simp_all
  show "reads L (read_string_token L)"
    unfolding read_string_token_def Let_def case_prod_beta by (intro reads_if readsI) simp_all
  show "reads L (read_keyword_token L)"
    unfolding read_keyword_token_def Let_def by (intro reads_if readsI) simp_all
  show "reads L (read_operator L)"
    unfolding read_operator_def Let_def
    by (intro reads_if readsI) (simp_all add: logical_raw_def binary_operators_def, blast+)
qed

lemma read_token_reads: "reads L (read_token L c)"
  unfolding read_token_def by (intro reads_if read_reads single_token_reads) auto

definition bracket_ahead :: "LexicalAnalyzer \<Rightarrow> bool" where
  "bracket_ahead L = (char_at L (scan_while is_whitespace L (lx_index L)) = Some 40)"

lemma lexer_index_irrelevant [simp]:
  "last_kind (L\<lparr>lx_index := j\<rparr>) = last_kind L" "peek_unclosed (L\<lparr>lx_index := j\<rparr>) = peek_unclosed L"
  "char_at (L\<lparr>lx_index := j\<rparr>) = char_at L" "scan_while p (L\<lparr>lx_index := j\<rparr>) = scan_while p L"
  "legal_token (L\<lparr>lx_index := j\<rparr>) = legal_token L" "token_step (L\<lparr>lx_index := j\<rparr>) t L1 = token_step L t L1"
proof -
  show last: "last_kind (L\<lparr>lx_index := j\<rparr>) = last_kind L" by (simp add: last_kind_def)
  show peek: "peek_unclosed (L\<lparr>lx_index := j\<rparr>) = peek_unclosed L" by (simp add: peek_unclosed_def)
  show "char_at (L\<lparr>lx_index := j\<rparr>) = char_at L" "scan_while p (L\<lparr>lx_index := j\<rparr>) = scan_while p L"
    by (simp_all add: fun_eq_iff char_at_def scan_while_def)
  have check: "check_last_token (L\<lparr>lx_index := j\<rparr>) = check_last_token L" by (simp add: fun_eq_iff check_last_token_def last)
  show legal: "legal_token (L\<lparr>lx_index := j\<rparr>) = legal_token L"
    unfolding fun_eq_iff legal_token_def check by simp
  show "token_step (L\<lparr>lx_index := j\<rparr>) t L1 = token_step L t L1" by (simp add: token_step_def legal peek)
qed

lemma next_token_Some:
  assumes "next_token L = (Some t, L1)"
  obtains c L' where "char_at L (scan_while is_whitespace L (lx_index L)) = Some c"
    "read_token (L\<lparr>lx_index := scan_while is_whitespace L (lx_index L)\<rparr>) c = (t, L')" "L1 = L'\<lparr>lx_last_token := Some t\<rparr>"
  using assms by (auto simp: next_token_def Let_def split: option.splits prod.splits)

lemma token_step_last [simp]: "token_step L t (L1\<lparr>lx_last_token := x\<rparr>) = token_step L t L1"
  by (simp add: token_step_def)

lemma next_token_step:
  assumes "next_token L = (Some t, L1)" "tk_kind t \<noteq> TkUnexpected"
  shows "token_step L t L1" "lx_last_token L1 = Some t" "tk_kind t = TkLogicalOperator \<Longrightarrow> logical_raw (tk_raw t)"
    "tk_kind t = TkFunction \<Longrightarrow> bracket_ahead L1"
proof -
  let ?L0 = "L\<lparr>lx_index := scan_while is_whitespace L (lx_index L)\<rparr>"
  obtain c L' where c: "read_token ?L0 c = (t, L')" "L1 = L'\<lparr>lx_last_token := Some t\<rparr>"
    using assms(1) by (rule next_token_Some)
  obtain k raw i p j where r: "(t, L') = create_token (?L0\<lparr>lx_index := j\<rparr>) k raw i p"
    "k = TkLogicalOperator \<longrightarrow> logical_raw raw" "k = TkFunction \<longrightarrow> char_at ?L0 (scan_while is_whitespace ?L0 j) = Some 40"
    using read_token_reads [of ?L0 c] c(1) by (auto simp: reads_def)
  have step: "tk_kind t = k" "tk_raw t = raw" "token_step (?L0\<lparr>lx_index := j\<rparr>) t L'"
    using create_token_step [OF r(1) [symmetric] assms(2)] by auto
  have L': "lx_index L' = j" "lx_expression L' = lx_expression L"
    using create_token_keeps [of "?L0\<lparr>lx_index := j\<rparr>" k raw i p] unfolding r(1) [symmetric] by simp_all
  show "token_step L t L1" using step(3) c(2) by simp
  show "lx_last_token L1 = Some t" using c(2) by simp
  show "tk_kind t = TkLogicalOperator \<Longrightarrow> logical_raw (tk_raw t)" using step r(2) by simp
  show "tk_kind t = TkFunction \<Longrightarrow> bracket_ahead L1"
    using step(1) r(3) c(2) L' by (simp add: bracket_ahead_def char_at_def scan_while_def split: if_splits)
qed

lemma bracket_follows:
  assumes "bracket_ahead L" "last_kind L = Some TkFunction"
  shows "\<exists>t L1. next_token L = (Some t, L1) \<and> tk_kind t = TkStartParameters"
  using assms
  by (simp add: bracket_ahead_def next_token_def Let_def read_token_def single_token_def create_token_def legal_token_def
      check_last_token_def)

section \<open>The states of the parser\<close>

definition before_kinds :: "TokenKind set" where
  "before_kinds = {TkSeparator, TkStartGroup, TkStartParameters, TkStartIndex, TkLogicalOperator, TkDereference}"

text \<open>The last token tells the shape of the stacks: nothing read yet or an operator waits for an
  operand, a function name waits for its bracket, and otherwise an operand is complete.\<close>

definition parser_state :: "ParseContext \<Rightarrow> bool" where
  "parser_state c \<longleftrightarrow>
     lx_last_token (pc_lexer c) = pc_last_token c
     \<and> open_kinds (pc_operators c) = map tk_kind (lx_unclosed_tokens (pc_lexer c))
     \<and> (case pc_last_token c of
          None \<Rightarrow> pc_operators c = [] \<and> pc_operands c = []
        | Some t \<Rightarrow>
            if tk_kind t \<in> before_kinds
            then (\<exists>ops. pc_operators c = t # ops) \<and> pend (pc_env c) (pc_operators c) (pc_operands c)
            else if tk_kind t = TkFunction
            then bracket_ahead (pc_lexer c)
              \<and> (\<exists>name ns. pc_operands c = NFunction name [] # ns \<and> pend (pc_env c) (pc_operators c) ns)
              \<and> (\<forall>u ops. pc_operators c = u # ops \<longrightarrow> tk_kind u \<noteq> TkDereference)
            else complete c)"

definition good_step :: "ParseContext \<Rightarrow> Token \<Rightarrow> bool" where
  "good_step c t \<longleftrightarrow> user_error (push_token c t)
     \<or> (\<exists>c1. push_token c t = Inr c1 \<and> parser_state (c1\<lparr>pc_last_token := Some t\<rparr>))"

lemma complete_lexer [simp]:
  "complete (c\<lparr>pc_lexer := L\<rparr>) = complete c" "complete (c\<lparr>pc_last_token := x\<rparr>) = complete c"
  by (simp_all add: complete_def)

lemma state_before:
  assumes "parser_state c" "last_kind (pc_lexer c) \<in> insert None (Some ` before_kinds)"
  shows "pend (pc_env c) (pc_operators c) (pc_operands c)"
    "\<And>u ops. pc_operators c = u # ops \<Longrightarrow> last_kind (pc_lexer c) = Some (tk_kind u)"
  using assms by (auto simp: parser_state_def last_kind_def intro: pend.start split: option.splits if_splits)

lemma state_after:
  assumes "parser_state c" "last_kind (pc_lexer c) \<in> set AFTER_OPERAND"
  shows "complete c"
  using assms by (auto simp: parser_state_def last_kind_def AFTER_OPERAND_def before_kinds_def split: option.splits if_splits)

lemma kind_sets:
  "set BEFORE_OPERAND \<subseteq> insert None (Some ` before_kinds)" "set indexable \<subseteq> set AFTER_OPERAND"
  by (auto simp: BEFORE_OPERAND_def before_kinds_def indexable_def AFTER_OPERAND_def)

text \<open>The facts about a token that was read in a state of the parser.\<close>

definition read_in :: "ParseContext \<Rightarrow> Token \<Rightarrow> LexicalAnalyzer \<Rightarrow> bool" where
  "read_in c t L \<longleftrightarrow> parser_state c \<and> token_step (pc_lexer c) t L \<and> lx_last_token L = Some t
     \<and> (tk_kind t = TkLogicalOperator \<longrightarrow> logical_raw (tk_raw t)) \<and> (tk_kind t = TkFunction \<longrightarrow> bracket_ahead L)"

lemma read_inI:
  "parser_state c \<Longrightarrow> next_token (pc_lexer c) = (Some t, L) \<Longrightarrow> tk_kind t \<noteq> TkUnexpected \<Longrightarrow> read_in c t L"
  using next_token_step by (simp add: read_in_def)

definition operand_kinds :: "TokenKind set" where
  "operand_kinds = {TkNull, TkBoolean, TkNumber, TkString, TkPropertyName, TkFunction, TkNamedValue, TkWildcard}"

lemma operand_step:
  assumes "read_in c t L" "tk_kind t \<in> operand_kinds"
  shows "good_step (c\<lparr>pc_lexer := L\<rparr>) t"
proof -
  have kinds: "last_kind (pc_lexer c) \<in> insert None (Some ` before_kinds)"
    "tk_kind t = TkFunction \<longrightarrow> last_kind (pc_lexer c) \<noteq> Some TkDereference"
    using assms by (auto simp: read_in_def token_step_def legal_token_def check_last_token_def before_kinds_def operand_kinds_def)
  have st: "parser_state c" using assms(1) by (simp add: read_in_def)
  note pend = state_before(1) [OF st kinds(1)] and top = state_before(2) [OF st kinds(1)]
  have L: "lx_last_token L = Some t" "lx_unclosed_tokens L = lx_unclosed_tokens (pc_lexer c)" "tk_kind t = TkFunction \<longrightarrow> bracket_ahead L"
    "open_kinds (pc_operators c) = map tk_kind (lx_unclosed_tokens (pc_lexer c))"
    using assms by (auto simp: read_in_def token_step_def operand_kinds_def opens_bracket_def closes_bracket_def parser_state_def)
  have push: "push_token (c\<lparr>pc_lexer := L\<rparr>) t = push_operand (c\<lparr>pc_lexer := L\<rparr>) t"
    using assms(2) by (auto simp: push_token_def is_operator_def operand_kinds_def)
  show ?thesis
  proof (cases "tk_kind t = TkFunction")
    case True
    then show ?thesis
      using pend top kinds(2) L by (auto simp: good_step_def push push_operand_def user_error_def with_token_def parser_state_def
          before_kinds_def split: option.splits)
  next
    case False
    have "user_error (push_operand (c\<lparr>pc_lexer := L\<rparr>) t) \<or>
      (\<exists>n. push_operand (c\<lparr>pc_lexer := L\<rparr>) t = Inr (push_node (c\<lparr>pc_lexer := L\<rparr>) n) \<and> node_ok (pc_env c) n)"
      using assms(2) False by (auto simp: push_operand_def user_error_def with_token_def operand_kinds_def)
    moreover have "tk_kind t \<notin> before_kinds" using assms(2) by (auto simp: operand_kinds_def before_kinds_def)
    ultimately show ?thesis
      using False pend L by (auto simp: good_step_def push parser_state_def complete_def)
  qed
qed

lemma prefix_step:
  assumes "read_in c t L" "tk_kind t = TkStartGroup \<or> tk_kind t = TkLogicalOperator \<and> tk_raw t = lit ''!''"
  shows "good_step (c\<lparr>pc_lexer := L\<rparr>) t"
proof -
  have st: "parser_state c" and kinds: "last_kind (pc_lexer c) \<in> insert None (Some ` before_kinds)"
    using assms kind_sets(1) by (auto simp: read_in_def token_step_def legal_token_def check_last_token_def)
  note pend = state_before(1) [OF st kinds]
  have "push_token (c\<lparr>pc_lexer := L\<rparr>) t = Inr (c\<lparr>pc_lexer := L, pc_operators := t # pc_operators c\<rparr>)"
    using assms(2) by (auto simp: push_token_def is_operator_def push_operator_def associativity_def)
  moreover have "pend (pc_env c) (t # pc_operators c) (pc_operands c)"
    using assms(2) pend by (auto intro: pend.group pend.negate)
  moreover have "open_kinds (t # pc_operators c) = map tk_kind (lx_unclosed_tokens L)" "lx_last_token L = Some t"
    using assms st by (auto simp: read_in_def token_step_def parser_state_def open_kinds_def opens_bracket_def closes_bracket_def)
  ultimately show ?thesis using assms(2) by (auto simp: good_step_def parser_state_def before_kinds_def)
qed

lemma precedence_logical: "tk_kind t = TkLogicalOperator \<Longrightarrow> precedence t \<le> 16"
  by (simp add: precedence_def)

lemma open_call_step:
  assumes "read_in c t L" "tk_kind t = TkStartParameters"
  shows "good_step (c\<lparr>pc_lexer := L\<rparr>) t"
proof -
  have st: "parser_state c" and last: "last_kind (pc_lexer c) = Some TkFunction"
    using assms by (auto simp: read_in_def token_step_def legal_token_def check_last_token_def)
  obtain name ns where n: "pc_operands c = NFunction name [] # ns" "pend (pc_env c) (pc_operators c) ns"
    "\<forall>u ops. pc_operators c = u # ops \<longrightarrow> tk_kind u \<noteq> TkDereference"
    using st last by (auto simp: parser_state_def last_kind_def before_kinds_def split: option.splits if_splits)
  have "flush_while 19 (c\<lparr>pc_lexer := L\<rparr>) = Inr (c\<lparr>pc_lexer := L\<rparr>)"
  proof (cases "pc_operators c")
    case (Cons u ops)
    have "\<not> (19 \<le> precedence u \<and> tk_kind u \<notin> {TkStartGroup, TkStartIndex, TkStartParameters, TkSeparator})"
      using pend_top [of "pc_env c" u ops ns] n(2,3) Cons precedence_logical [of u] by fastforce
    then show ?thesis using Cons by (subst flush_while.simps) auto
  qed (subst flush_while.simps, simp)
  then have "push_token (c\<lparr>pc_lexer := L\<rparr>) t = Inr (c\<lparr>pc_lexer := L, pc_operators := t # pc_operators c\<rparr>)"
    using assms(2) by (simp add: push_token_def is_operator_def push_operator_def associativity_def precedence_def)
  moreover have "pend (pc_env c) (t # pc_operators c) (pc_operands c)"
    using n(1,2) assms(2) by (auto intro: pend.call)
  moreover have "open_kinds (t # pc_operators c) = map tk_kind (lx_unclosed_tokens L)" "lx_last_token L = Some t"
    using assms st by (auto simp: read_in_def token_step_def parser_state_def open_kinds_def opens_bracket_def)
  ultimately show ?thesis using assms(2) by (auto simp: good_step_def parser_state_def before_kinds_def)
qed

text \<open>Operators and separators after an operand.\<close>

lemma infix_step:
  assumes "read_in c t L"
    and "tk_kind t \<in> {TkStartIndex, TkDereference, TkSeparator} \<or> tk_kind t = TkLogicalOperator \<and> tk_raw t \<noteq> lit ''!''"
  shows "good_step (c\<lparr>pc_lexer := L\<rparr>) t"
proof -
  have st: "parser_state c" and last: "last_kind (pc_lexer c) \<in> set AFTER_OPERAND"
    using assms kind_sets(2) by (auto simp: read_in_def token_step_def legal_token_def check_last_token_def)
  have "complete (c\<lparr>pc_lexer := L\<rparr>)" using state_after [OF st last] by simp
  from flush_while_complete [OF this, of "precedence t"] obtain c1 where
    c1: "flush_while (precedence t) (c\<lparr>pc_lexer := L\<rparr>) = Inr c1" "complete c1"
    "open_kinds (pc_operators c1) = open_kinds (pc_operators c)"
    "precedence t \<le> 1 \<longrightarrow> pc_operators c1 = []
       \<or> tk_kind (hd (pc_operators c1)) \<in> {TkStartGroup, TkStartIndex, TkStartParameters, TkSeparator}" by auto
  have fr: "pc_lexer c1 = L" "pc_env c1 = pc_env c" using frameD [OF flush_while_keeps [OF c1(1)]] by simp_all
  obtain n ns where n: "pc_operands c1 = n # ns" "node_ok (pc_env c) n" "pend (pc_env c) (pc_operators c1) ns"
    using c1(2) fr by (auto simp: complete_def)
  have sync: "open_kinds (pc_operators c) = map tk_kind (lx_unclosed_tokens (pc_lexer c))" "lx_last_token L = Some t"
    "open_kinds (t # pc_operators c1) = map tk_kind (lx_unclosed_tokens L)"
    using assms st c1(3)
    by (auto simp: read_in_def token_step_def parser_state_def open_kinds_def opens_bracket_def closes_bracket_def)
  have "pend (pc_env c) (t # pc_operators c1) (n # ns)"
  proof (cases "tk_kind t = TkSeparator")
    case True
    have "peek_unclosed (pc_lexer c) = Some TkStartParameters"
      using assms(1) True by (auto simp: read_in_def token_step_def opens_bracket_def closes_bracket_def)
    then obtain ks where "open_kinds (pc_operators c1) = TkStartParameters # ks"
      using c1(3) sync(1) by (auto simp: peek_unclosed_def split: list.splits)
    then show ?thesis
      using top_open [OF c1(2)] c1(4) True n by (intro pend.argument) (auto simp: precedence_def)
  next
    case False
    then show ?thesis
      using assms n by (auto simp: read_in_def logical_raw_def intro: pend.binary pend.index)
  qed
  moreover have "push_token (c\<lparr>pc_lexer := L\<rparr>) t = Inr (c1\<lparr>pc_operators := t # pc_operators c1\<rparr>)"
    using assms(2) c1(1) by (auto simp: push_token_def is_operator_def push_operator_def associativity_def Let_def)
  ultimately show ?thesis
    using assms(2) fr n(1) sync(2,3) by (auto simp: good_step_def parser_state_def before_kinds_def)
qed

lemma closed_state:
  assumes "user_error (flush_top_operator c2) \<or>
      (\<exists>c3. flush_top_operator c2 = Inr c3 \<and> complete c3 \<and> open_kinds (pc_operators c3) = map tk_kind (lx_unclosed_tokens L))"
    and "pc_lexer c2 = L" "lx_last_token L = Some t" "closes_bracket (tk_kind t)" "push_token c t = flush_top_operator c2"
  shows "good_step c t"
  using assms
proof (elim disjE exE conjE)
  fix c3
  assume c3: "flush_top_operator c2 = Inr c3" "complete c3" "open_kinds (pc_operators c3) = map tk_kind (lx_unclosed_tokens L)"
  have "pc_lexer c3 = L" using frameD [OF flush_top_operator_keeps(2) [OF c3(1)]] assms(2) by simp
  then show ?thesis
    using assms(3-5) c3 by (auto simp: good_step_def parser_state_def closes_bracket_def before_kinds_def)
qed (simp add: good_step_def)

lemma push_closing:
  assumes "closes_bracket (tk_kind t)"
  shows "push_token c t = try_sum (flush_while 1 c) (\<lambda>c1. flush_top_operator (c1\<lparr>pc_operators := t # pc_operators c1\<rparr>))"
proof -
  have "precedence t = 1" "associativity t = LeftToRight" "is_operator t"
    using assms by (auto simp: closes_bracket_def precedence_def associativity_def is_operator_def)
  then show ?thesis using assms by (auto simp: push_token_def push_operator_def closes_bracket_def Let_def)
qed

lemma read_in_closing:
  assumes "read_in c t L" "closes_bracket (tk_kind t)"
  shows "open_kinds (pc_operators c) = matching (tk_kind t) # map tk_kind (lx_unclosed_tokens L)"
    "parser_state c" "lx_last_token L = Some t"
  using assms by (auto simp: read_in_def token_step_def opens_bracket_def closes_bracket_def parser_state_def)

text \<open>A bracket that closes a call without arguments.\<close>

lemma close_empty_step:
  assumes "read_in c t L" "closes_bracket (tk_kind t)" "last_kind (pc_lexer c) = Some TkStartParameters"
  shows "good_step (c\<lparr>pc_lexer := L\<rparr>) t"
proof -
  let ?c = "c\<lparr>pc_lexer := L\<rparr>"
  note st = read_in_closing [OF assms(1,2)]
  have t: "tk_kind t = TkEndParameters"
    using assms by (auto simp: read_in_def token_step_def legal_token_def check_last_token_def closes_bracket_def AFTER_OPERAND_def)
  obtain sp ops where sp: "pc_operators c = sp # ops" "tk_kind sp = TkStartParameters" "pc_last_token c = Some sp"
    "pend (pc_env c) (sp # ops) (pc_operands c)"
    using st(2) assms(3) by (auto simp: parser_state_def last_kind_def before_kinds_def split: option.splits if_splits)
  have "flush_while 1 ?c = Inr ?c" using sp by (subst flush_while.simps) simp
  then have "push_token ?c t = flush_top_operator (?c\<lparr>pc_operators := t # pc_operators ?c\<rparr>)"
    using push_closing [OF assms(2), of ?c] by simp
  moreover have "open_kinds ops = map tk_kind (lx_unclosed_tokens L)"
    using st(1) sp(1,2) by (simp add: open_kinds_def opens_bracket_def)
  ultimately show ?thesis
    using close_empty_call [of ?c sp ops t] sp t by (intro closed_state [OF _ _ st(3) assms(2)]) auto
qed

text \<open>A bracket that closes after an operand, once the operators above its opening are flushed.\<close>

lemma close_flushed:
  assumes "complete c" "closes_bracket (tk_kind t)" "open_kinds (pc_operators c) = matching (tk_kind t) # ks"
    and "pc_operators c = [] \<or> tk_kind (hd (pc_operators c)) \<in> {TkStartGroup, TkStartIndex, TkStartParameters, TkSeparator}"
    and "map_option tk_kind (pc_last_token c) \<noteq> Some TkStartParameters"
  shows "user_error (flush_top_operator (c\<lparr>pc_operators := t # pc_operators c\<rparr>)) \<or>
    (\<exists>c1. flush_top_operator (c\<lparr>pc_operators := t # pc_operators c\<rparr>) = Inr c1 \<and> complete c1 \<and> open_kinds (pc_operators c1) = ks)"
proof -
  note top = top_open [OF assms(1,3,4)]
  obtain g ops where g: "pc_operators c = g # ops" using top(1) by (cases "pc_operators c") auto
  show ?thesis
  proof (cases "tk_kind t = TkEndParameters")
    case True
    then show ?thesis
      using close_call [OF assms(1) top(1) _ True assms(5)] assms(3) top(3) by (simp add: matching_def)
  next
    case False
    then have m: "tk_kind g = matching (tk_kind t)" "matching (tk_kind t) \<in> {TkStartGroup, TkStartIndex}"
      using top(2) g assms(2) by (auto simp: matching_def closes_bracket_def)
    then have "open_kinds ops = ks" using assms(3) g by (auto simp: open_kinds_def opens_bracket_def)
    then show ?thesis
      using close_group [OF assms(1) g] close_index [OF assms(1) g] m assms(2) False
      by (auto simp: matching_def closes_bracket_def split: if_splits)
  qed
qed

lemma close_step:
  assumes "read_in c t L" "closes_bracket (tk_kind t)"
  shows "good_step (c\<lparr>pc_lexer := L\<rparr>) t"
proof (cases "last_kind (pc_lexer c) = Some TkStartParameters")
  case True
  then show ?thesis using close_empty_step assms by blast
next
  case False
  let ?c = "c\<lparr>pc_lexer := L\<rparr>"
  note st = read_in_closing [OF assms]
  have "complete ?c"
    using assms False state_after [OF st(2)]
    by (auto simp: read_in_def token_step_def legal_token_def check_last_token_def closes_bracket_def)
  from flush_while_complete [OF this, of 1] obtain c1 where c1: "flush_while 1 ?c = Inr c1" "complete c1"
    "open_kinds (pc_operators c1) = open_kinds (pc_operators c)"
    "pc_operators c1 = [] \<or> tk_kind (hd (pc_operators c1)) \<in> {TkStartGroup, TkStartIndex, TkStartParameters, TkSeparator}"
    by auto
  have fr: "pc_lexer c1 = L" "pc_last_token c1 = pc_last_token c" using frameD [OF flush_while_keeps [OF c1(1)]] by simp_all
  have "map_option tk_kind (pc_last_token c1) \<noteq> Some TkStartParameters"
    using False st(2) fr(2) by (simp add: parser_state_def last_kind_def)
  from close_flushed [OF c1(2) assms(2) c1(3) [unfolded st(1)] c1(4) this] show ?thesis
    using push_closing [OF assms(2), of ?c] c1(1) fr by (intro closed_state [OF _ _ st(3) assms(2)]) auto
qed

lemma token_good_step:
  assumes "parser_state c" "next_token (pc_lexer c) = (Some t, L)"
  shows "good_step (c\<lparr>pc_lexer := L\<rparr>) t"
proof (cases "tk_kind t = TkUnexpected")
  case True
  then show ?thesis by (simp add: good_step_def push_token_def user_error_def with_token_def)
next
  case False
  note r = read_inI [OF assms False]
  show ?thesis
    using operand_step [OF r] prefix_step [OF r] open_call_step [OF r] infix_step [OF r] close_step [OF r] False
    by (cases "tk_kind t") (auto simp: operand_kinds_def closes_bracket_def)
qed

section \<open>The whole parse\<close>

lemma parser_state_done:
  assumes "parser_state c" "next_token (pc_lexer c) = (None, L)"
  shows "parser_state (c\<lparr>pc_lexer := L\<rparr>)" "last_kind L \<noteq> Some TkFunction"
proof -
  have f: "last_kind (pc_lexer c) \<noteq> Some TkFunction"
    using assms bracket_follows [of "pc_lexer c"]
    by (auto simp: parser_state_def last_kind_def before_kinds_def split: option.splits)
  have L: "L = (pc_lexer c)\<lparr>lx_index := scan_while is_whitespace (pc_lexer c) (lx_index (pc_lexer c))\<rparr>"
    using assms(2) by (auto simp: next_token_def Let_def split: option.splits prod.splits)
  then show "last_kind L \<noteq> Some TkFunction" using f by simp
  show "parser_state (c\<lparr>pc_lexer := L\<rparr>)"
    using assms(1) f L by (auto simp: parser_state_def last_kind_def split: option.splits)
qed

lemma parse_tokens_state:
  "parser_state c \<Longrightarrow> user_error (parse_tokens c) \<or>
     (\<exists>c1. parse_tokens c = Inr c1 \<and> parser_state c1 \<and> pc_env c1 = pc_env c \<and> last_kind (pc_lexer c1) \<noteq> Some TkFunction)"
proof (induction c rule: parse_tokens.induct)
  case (1 c)
  show ?case
  proof (cases "next_token (pc_lexer c)")
    case (Pair o' L)
    show ?thesis
    proof (cases o')
      case None
      then show ?thesis
        using parser_state_done [OF "1.prems"] Pair by (simp add: parse_tokens.simps [of c])
    next
      case (Some t)
      have nt: "next_token (pc_lexer c) = (Some t, L)" using Pair Some by simp
      from token_good_step [OF "1.prems" this] consider
          "user_error (push_token (c\<lparr>pc_lexer := L\<rparr>) t)"
        | c1 where "push_token (c\<lparr>pc_lexer := L\<rparr>) t = Inr c1" "parser_state (c1\<lparr>pc_last_token := Some t\<rparr>)"
        by (auto simp: good_step_def)
      then show ?thesis
      proof cases
        case 1
        then show ?thesis using nt by (auto simp: parse_tokens.simps [of c] user_error_def)
      next
        case 2
        then show ?thesis
          using "1.IH" [OF nt [symmetric] refl 2(1)] nt frameD [OF push_token_keeps [OF 2(1)]]
          by (auto simp: parse_tokens.simps [of c] user_error_def)
      qed
    qed
  qed
qed

lemma flush_all_complete:
  "complete c \<Longrightarrow> open_kinds (pc_operators c) = [] \<Longrightarrow>
     \<exists>c1 n. flush_all c = Inr c1 \<and> pc_operands c1 = [n] \<and> node_ok (pc_env c) n"
proof (induction c rule: flush_all.induct)
  case (1 c)
  show ?case
  proof (cases "pc_operators c")
    case Nil
    then show ?thesis using "1.prems"(1) by (auto simp: flush_all.simps [of c] complete_def elim: pend_NilE)
  next
    case (Cons t ops)
    obtain n ns where p: "pend (pc_env c) (t # ops) ns" using "1.prems"(1) Cons by (auto simp: complete_def)
    have "tk_kind t \<notin> {TkStartParameters, TkSeparator}"
      using open_kinds_call [OF p] "1.prems"(2) Cons by auto
    then have "tk_kind t \<in> {TkLogicalOperator, TkDereference}"
      using pend_top [OF p] "1.prems"(2) Cons by (auto simp: open_kinds_def opens_bracket_def split: if_splits)
    from flush_complete [OF "1.prems"(1) Cons this] obtain c1 where
      c1: "flush_top_operator c = Inr c1" "complete c1" "pc_operators c1 = ops" by blast
    have "open_kinds (pc_operators c1) = []"
      using "1.prems"(2) Cons c1(3) by (auto simp: open_kinds_def split: if_splits)
    then show ?thesis
      using "1.IH" [OF _ c1(1,2)] Cons c1(1) frameD [OF flush_top_operator_keeps(2) [OF c1(1)]]
      by (simp add: flush_all.simps [of c])
  qed
qed

text \<open>The depth of a tree, and the check of it.\<close>

fun depth :: "Node \<Rightarrow> nat" where
  "depth (NIndex l r) = Suc (max (depth l) (depth r))"
| "depth (NNot n) = Suc (depth n)"
| "depth (NAnd ns) = Suc (Max (insert 0 (set (map depth ns))))"
| "depth (NOr ns) = Suc (Max (insert 0 (set (map depth ns))))"
| "depth (NBinary _ l r) = Suc (max (depth l) (depth r))"
| "depth (NFunction _ args) = Suc (Max (insert 0 (set (map depth args))))"
| "depth _ = 1"

lemma depth_children: "depth n = Suc (Max (insert 0 (set (map depth (children n)))))"
  by (cases n) auto

lemma fold_checks:
  "fold (\<lambda>x r. case r of Inl e \<Rightarrow> Inl e | Inr _ \<Rightarrow> f x) xs (Inl e) = (Inl e :: 'e + unit)"
  by (induction xs) auto

lemma fold_checks_cases:
  "fold (\<lambda>x r. case r of Inl e \<Rightarrow> Inl e | Inr _ \<Rightarrow> f x) xs (Inr ()) = (Inr () :: 'e + unit) \<longleftrightarrow> (\<forall>x \<in> set xs. f x = Inr ())"
proof (induction xs)
  case (Cons x xs)
  then show ?case by (cases "f x") (simp_all add: fold_checks)
qed simp

lemma fold_checks_error:
  "fold (\<lambda>x r. case r of Inl e \<Rightarrow> Inl e | Inr _ \<Rightarrow> f x) xs (Inr ()) = (Inl e :: 'e + unit) \<Longrightarrow> \<exists>x \<in> set xs. f x = Inl e"
proof (induction xs)
  case (Cons x xs)
  then show ?case by (cases "f x") (auto simp: fold_checks)
qed simp

lemma check_max_depth_iff: "check_max_depth e n d = Inr () \<longleftrightarrow> depth n + d \<le> Suc MAX_DEPTH"
proof (induction e n d rule: check_max_depth.induct)
  case (1 e n d)
  show ?case
  proof (cases "MAX_DEPTH < d")
    case True
    then show ?thesis using depth_children [of n] by (simp add: check_max_depth.simps [of e n d])
  next
    case False
    then have "check_max_depth e n d = Inr () \<longleftrightarrow> (\<forall>m \<in> set (children n). check_max_depth e m (d + 1) = Inr ())"
      by (simp add: check_max_depth.simps [of e n d] fold_checks_cases)
    also have "\<dots> \<longleftrightarrow> (\<forall>m \<in> set (children n). depth m + (d + 1) \<le> Suc MAX_DEPTH)"
      using "1.IH" [OF False] by auto
    also have "\<dots> \<longleftrightarrow> depth n + d \<le> Suc MAX_DEPTH"
      using False by (auto simp: depth_children [of n] Max_le_iff simp flip: le_diff_conv2)
    finally show ?thesis .
  qed
qed

lemma check_max_depth_error: "check_max_depth e n d = Inl f \<Longrightarrow> user_error (check_max_depth e n d)"
proof (induction e n d rule: check_max_depth.induct)
  case (1 e n d)
  then show ?case
    by (auto simp: check_max_depth.simps [of e n d] user_error_def without_token_def dest!: fold_checks_error split: if_splits)
qed

lemma parse_tokens_last:
  "parse_tokens c = Inr c1 \<Longrightarrow> pc_last_token c \<noteq> None \<or> fst (next_token (pc_lexer c)) \<noteq> None \<Longrightarrow> pc_last_token c1 \<noteq> None"
proof (induction c rule: parse_tokens.induct)
  case (1 c)
  obtain o' L where nt: "next_token (pc_lexer c) = (o', L)" by fastforce
  show ?case
  proof (cases o')
    case None
    then show ?thesis using "1.prems" nt by (auto simp: parse_tokens.simps [of c])
  next
    case (Some t)
    then obtain c2 where "push_token (c\<lparr>pc_lexer := L\<rparr>) t = Inr c2"
      and "parse_tokens (c2\<lparr>pc_last_token := Some t\<rparr>) = Inr c1"
      using "1.prems"(1) nt by (auto simp: parse_tokens.simps [of c] split: sum.splits)
    then show ?thesis using "1.IH" [OF nt [symmetric] Some] by simp
  qed
qed

lemma next_token_None:
  "fst (next_token L) = None \<longleftrightarrow> list_all is_whitespace (drop (lx_index L) (lx_expression L))"
proof -
  let ?xs = "drop (lx_index L) (lx_expression L)"
  have "fst (next_token L) = None \<longleftrightarrow> length (lx_expression L) \<le> lx_index L + length (takeWhile is_whitespace ?xs)"
    by (auto simp: next_token_def Let_def char_at_def scan_while_def split: prod.splits)
  also have "\<dots> \<longleftrightarrow> length ?xs \<le> length (takeWhile is_whitespace ?xs)" by auto
  also have "\<dots> \<longleftrightarrow> takeWhile is_whitespace ?xs = ?xs"
    by (metis le_refl length_takeWhile_le le_antisym takeWhile_eq_take take_all)
  finally show ?thesis by (simp add: takeWhile_eq_all_conv list_all_iff)
qed

lemma parse_finish:
  assumes "parser_state c" "last_kind (pc_lexer c) \<noteq> Some TkFunction" "pc_last_token c = Some t"
    and "\<not> (pc_operators c \<noteq> [] \<and> (unexpected_last_token t \<or> has_unclosed_tokens (pc_lexer c)))"
  shows "\<exists>c1 n. flush_all c = Inr c1 \<and> pc_operands c1 = [n] \<and> node_ok (pc_env c) n"
proof (rule flush_all_complete)
  have "tk_kind t \<notin> before_kinds"
    using assms(1,3,4) by (auto simp: parser_state_def before_kinds_def unexpected_last_token_def is_operator_def split: if_splits)
  moreover have "tk_kind t \<noteq> TkFunction" using assms(1-3) by (auto simp: parser_state_def last_kind_def)
  ultimately show "complete c" using assms(1,3) by (simp add: parser_state_def)
  show "open_kinds (pc_operators c) = []"
    using assms(1,4) by (auto simp: parser_state_def has_unclosed_tokens_def open_kinds_def)
qed

lemma parse_outcome:
  "(\<exists>err. parse e env = Inl (Err err) \<and> pe_kind err \<noteq> Internal)
   \<or> (parse e env = Inr None \<and> list_all is_whitespace e)
   \<or> (\<exists>n. parse e env = Inr (Some n) \<and> node_ok env n \<and> depth n \<le> MAX_DEPTH)"
proof (cases "MAX_LENGTH < length e")
  case True
  then show ?thesis by (simp add: parse_def without_token_def)
next
  case False
  let ?c = "\<lparr>pc_expression = e, pc_lexer = lexer_new e, pc_operands = [], pc_operators = [],
             pc_last_token = None, pc_env = env\<rparr>"
  have "parser_state ?c" by (simp add: parser_state_def lexer_new_def open_kinds_def)
  from parse_tokens_state [OF this] consider "user_error (parse_tokens ?c)"
    | c where "parse_tokens ?c = Inr c" "parser_state c" "pc_env c = env" "last_kind (pc_lexer c) \<noteq> Some TkFunction"
    by auto
  then show ?thesis
  proof cases
    case 1
    then show ?thesis using False by (auto simp: parse_def user_error_def)
  next
    case (2 c)
    show ?thesis
    proof (cases "pc_last_token c")
      case None
      then have "fst (next_token (lexer_new e)) = None"
        using parse_tokens_last [OF 2(1)] by (metis ParseContext.select_convs(2))
      then show ?thesis
        using False 2(1) None next_token_None [of "lexer_new e"] by (simp add: parse_def lexer_new_def)
    next
      case (Some t)
      show ?thesis
      proof (cases "pc_operators c \<noteq> [] \<and> (unexpected_last_token t \<or> has_unclosed_tokens (pc_lexer c))")
        case True
        then show ?thesis using False 2(1) Some by (simp add: parse_def with_token_def)
      next
        case fin: False
        obtain c1 n where n: "flush_all c = Inr c1" "pc_operands c1 = [n]" "node_ok env n"
          using parse_finish [OF 2(2,4) Some fin] 2(3) by auto
        have "parse e env = try_sum (check_max_depth e n 1) (\<lambda>_. Inr (Some n))"
          using False 2(1) Some fin n(1,2) by (auto simp: parse_def)
        then show ?thesis
          using check_max_depth_iff [of e n 1] check_max_depth_error [of e n 1] n(3)
          by (cases "check_max_depth e n 1") (auto simp: user_error_def)
      qed
    qed
  qed
qed

end
