(* ===== verification/Expr_Eval.thy ===== *)
theory Expr_Eval
  imports Expr_Parser
begin

text \<open>
  The evaluator of workflow expressions (\<open>expression/eval.rs\<close>).

  An evaluation allocates arrays and objects, and equality compares their addresses, so it is a
  function of the next free address and returns the one after it.  An argument of a function is
  passed as its own evaluation, which runs where the code calls \<open>evaluate_node\<close> on it; reading an
  argument that is not there is a panic.

  The contexts and the functions of the runner are the trait \<open>EvaluationContext\<close>; the upper-case
  table of \<open>icu_casemap\<close>, and the JSON reader and string printer of \<open>serde_json\<close>, are the fields of
  \<open>Externals\<close>.
\<close>

section \<open>Evaluations\<close>

datatype ExpressionError = Parse ParseError | Evaluation rtext

type_synonym 'a eval = "nat \<Rightarrow> ExpressionError failure + 'a \<times> nat"

definition eval_return :: "'a \<Rightarrow> 'a eval" where
  "eval_return v h = Inr (v, h)"

definition eval_fail :: "ExpressionError failure \<Rightarrow> 'a eval" where
  "eval_fail e h = Inl e"

definition eval_bind :: "'a eval \<Rightarrow> ('a \<Rightarrow> 'b eval) \<Rightarrow> 'b eval" where
  "eval_bind m f h = (case m h of Inl e \<Rightarrow> Inl e | Inr (v, h1) \<Rightarrow> f v h1)"

definition eval_argument :: "'a eval list \<Rightarrow> nat \<Rightarrow> 'a eval" where
  "eval_argument args i = (if i < length args then args ! i else eval_fail Panic)"

text \<open>\<open>Arc::new\<close>.\<close>

definition new_array :: "bool \<Rightarrow> Value list \<Rightarrow> Value eval" where
  "new_array filtered items h = Inr (VArray h filtered items, Suc h)"

definition new_object :: "bool \<Rightarrow> (rtext \<times> Value) list \<Rightarrow> Value eval" where
  "new_object case_sensitive entries h = Inr (VObject h case_sensitive entries, Suc h)"

record EvaluationContext = ParseEnvironment +
  named_value :: "rtext \<Rightarrow> nat \<Rightarrow> Value \<times> nat"
  call_function :: "rtext \<Rightarrow> Value list \<Rightarrow> nat \<Rightarrow> ExpressionError + Value \<times> nat"

datatype JsonValue =
    JsonNull
  | JsonBool bool
  | JsonNumber "f64 option"
  | JsonString rtext
  | JsonArray "JsonValue list"
  | JsonObject "(rtext \<times> JsonValue) list"

record Externals =
  upper :: "int \<Rightarrow> int"
  json_string :: "rtext \<Rightarrow> rtext"
  json_from_str :: "rtext \<Rightarrow> rtext + JsonValue"

section \<open>Operators\<close>

fun evaluate_and :: "Value \<Rightarrow> Value eval list \<Rightarrow> Value eval" where
  "evaluate_and result [] = eval_return result"
| "evaluate_and result (p # ps) =
     eval_bind p (\<lambda>v. if is_falsy v then eval_return v else evaluate_and v ps)"

fun evaluate_or :: "Value \<Rightarrow> Value eval list \<Rightarrow> Value eval" where
  "evaluate_or result [] = eval_return result"
| "evaluate_or result (p # ps) =
     eval_bind p (\<lambda>v. if is_truthy v then eval_return v else evaluate_or v ps)"

definition compare_values :: "Externals \<Rightarrow> BinaryOperator \<Rightarrow> Value \<Rightarrow> Value \<Rightarrow> bool" where
  "compare_values x b l r =
     (case b of
        OpEqual \<Rightarrow> abstract_equal (upper x) l r
      | OpNotEqual \<Rightarrow> abstract_not_equal (upper x) l r
      | OpGreaterThan \<Rightarrow> abstract_greater_than (upper x) l r
      | OpGreaterThanOrEqual \<Rightarrow> abstract_greater_than_or_equal (upper x) l r
      | OpLessThan \<Rightarrow> abstract_less_than (upper x) l r
      | OpLessThanOrEqual \<Rightarrow> abstract_less_than_or_equal (upper x) l r)"

definition string_index :: "Value \<Rightarrow> rtext option" where
  "string_index v = (if is_primitive v then Some (convert_to_string v) else None)"

definition integer_index :: "Value \<Rightarrow> nat option" where
  "integer_index v =
     (case convert_to_number v of
        NaN \<Rightarrow> None
      | Infinite _ \<Rightarrow> None
      | Finite neg u \<Rightarrow>
          if neg \<and> 0 < u then None
          else let n = u div 2 ^ unit_exponent in if 2147483647 < n then None else Some n)"

text \<open>One element of a filtered array, indexed: \<open>None\<close> as the index is the wildcard.\<close>

definition filtered_item :: "Externals \<Rightarrow> Value option \<Rightarrow> Value \<Rightarrow> Value list" where
  "filtered_item x index item =
     (case item of
        VObject _ case_sensitive entries \<Rightarrow>
          (case index of
             None \<Rightarrow> map snd entries
           | Some i \<Rightarrow> (case Option.bind (string_index i) (object_get (upper x) case_sensitive entries) of
                          Some v \<Rightarrow> [v] | None \<Rightarrow> []))
      | VArray _ _ items \<Rightarrow>
          (case index of
             None \<Rightarrow> items
           | Some i \<Rightarrow> (case integer_index i of
                          Some n \<Rightarrow> if n < length items then [items ! n] else []
                        | None \<Rightarrow> []))
      | _ \<Rightarrow> [])"

definition index_collection :: "Externals \<Rightarrow> Value \<Rightarrow> Value option \<Rightarrow> Value eval" where
  "index_collection x left index =
     (case left of
        VArray _ filtered items \<Rightarrow>
          if filtered then new_array True (concat (map (filtered_item x index) items))
          else (case index of
              None \<Rightarrow> new_array True items
            | Some i \<Rightarrow> eval_return (case integer_index i of
                  Some n \<Rightarrow> if n < length items then items ! n else VNull
                | None \<Rightarrow> VNull))
      | VObject _ case_sensitive entries \<Rightarrow>
          (case index of
             None \<Rightarrow> new_array True (map snd entries)
           | Some i \<Rightarrow> eval_return (case Option.bind (string_index i) (object_get (upper x) case_sensitive entries) of
                  Some v \<Rightarrow> v | None \<Rightarrow> VNull))
      | _ \<Rightarrow> eval_return VNull)"

definition evaluate_index :: "Externals \<Rightarrow> Value eval \<Rightarrow> bool \<Rightarrow> Value eval \<Rightarrow> Value eval" where
  "evaluate_index x target is_wildcard index =
     eval_bind target (\<lambda>left.
       if is_primitive left then (if is_wildcard then new_array True [] else eval_return VNull)
       else if is_wildcard then index_collection x left None
       else eval_bind index (\<lambda>i. index_collection x left (Some i)))"

section \<open>The text of \<open>format\<close>\<close>

text \<open>The first position of a character at or after an index.\<close>

definition position_from :: "int \<Rightarrow> rtext \<Rightarrow> nat \<Rightarrow> nat option" where
  "position_from c chars i = find (\<lambda>j. chars ! j = c) [i..<length chars]"

definition read_arg_index :: "rtext \<Rightarrow> nat \<Rightarrow> (nat \<times> nat) option" where
  "read_arg_index chars start =
     (let ds = takeWhile is_digit (drop start chars)
      in if ds = [] then None
         else if 255 < digits_value ds then None
         else Some (digits_value ds, start + length ds - 1))"

function specifiers_from :: "rtext \<Rightarrow> rtext \<Rightarrow> nat \<Rightarrow> (rtext \<times> nat) option" where
  "specifiers_from chars specifiers i =
     (if length chars \<le> i then None
      else if chars ! i \<noteq> 125 then specifiers_from chars (specifiers @ [chars ! i]) (i + 1)
      else if i + 1 < length chars \<and> chars ! (i + 1) = 125 then specifiers_from chars (specifiers @ [125]) (i + 2)
      else Some (specifiers, i))"
  by pat_completeness auto
termination by (relation "measure (\<lambda>(chars, _, i). length chars - i)") auto

declare specifiers_from.simps [simp del]

definition read_format_specifiers :: "rtext \<Rightarrow> nat \<Rightarrow> (rtext \<times> nat) option" where
  "read_format_specifiers chars start =
     (if start < length chars \<and> chars ! start = 125 then Some ([], start)
      else if start < length chars \<and> chars ! start = 58 then specifiers_from chars [] (start + 1)
      else None)"

lemma specifiers_from_end: "specifiers_from chars s i = Some (t, j) \<Longrightarrow> i \<le> j \<and> j < length chars"
proof (induction chars s i rule: specifiers_from.induct)
  case (1 chars s i)
  then show ?case by (auto simp: specifiers_from.simps [of chars s i] split: if_splits)
qed

lemma read_format_specifiers_end: "read_format_specifiers chars i = Some (t, j) \<Longrightarrow> i \<le> j \<and> j < length chars"
  using specifiers_from_end [of chars "[]" "i + 1" t j] by (auto simp: read_format_specifiers_def split: if_splits)

lemma position_fromD: "position_from c chars i = Some j \<Longrightarrow> i \<le> j \<and> j < length chars \<and> chars ! j = c"
  by (auto simp: position_from_def find_Some_iff)

lemma read_arg_indexD: "read_arg_index chars i = Some (n, j) \<Longrightarrow> i \<le> j"
  by (cases "takeWhile is_digit (drop i chars)") (auto simp: read_arg_index_def Let_def split: if_splits)

definition invalid_format :: "rtext \<Rightarrow> ExpressionError failure" where
  "invalid_format fmt = Err (Evaluation (lit ''Invalid format string: '' @ fmt))"

definition too_few_arguments :: "rtext \<Rightarrow> ExpressionError failure" where
  "too_few_arguments fmt = Err (Evaluation
     (lit ''The following format string references more arguments than were supplied: '' @ fmt))"

definition invalid_specifiers :: "rtext \<Rightarrow> Value \<Rightarrow> ExpressionError failure" where
  "invalid_specifiers specifiers v = Err (Evaluation
     (lit ''The format specifiers '' @ [39] @ specifiers @ [39] @ lit '' are not valid for objects of type ''
      @ [39] @ ValueKind_as_str (kind v) @ [39]))"

text \<open>A placeholder after the left brace at \<open>lbrace\<close>: the argument, the specifiers and the closing
  brace.\<close>

definition read_placeholder :: "rtext \<Rightarrow> nat \<Rightarrow> nat option \<Rightarrow> (nat \<times> rtext \<times> nat) option" where
  "read_placeholder chars lbrace rbrace =
     (if (case rbrace of None \<Rightarrow> True | Some r \<Rightarrow> r \<le> lbrace + 1) then None
      else case read_arg_index chars (lbrace + 1) of
          None \<Rightarrow> None
        | Some (arg, end_arg) \<Rightarrow>
            (case read_format_specifiers chars (end_arg + 1) of
               None \<Rightarrow> None
             | Some (specifiers, r) \<Rightarrow> Some (arg, specifiers, r)))"

lemma read_placeholder_end: "read_placeholder chars l r = Some (a, s, j) \<Longrightarrow> l < j \<and> j < length chars"
  by (auto simp: read_placeholder_def dest!: read_arg_indexD read_format_specifiers_end split: option.splits if_splits)

text \<open>The brace the loop meets next: a left one before every right one, or else a right one.\<close>

definition next_brace :: "rtext \<Rightarrow> nat \<Rightarrow> (bool \<times> nat) option" where
  "next_brace chars i =
     (case (position_from 123 chars i, position_from 125 chars i) of
        (Some l, None) \<Rightarrow> Some (True, l)
      | (Some l, Some r) \<Rightarrow> if l < r then Some (True, l) else Some (False, r)
      | (None, Some r) \<Rightarrow> Some (False, r)
      | (None, None) \<Rightarrow> None)"

lemma next_braceD: "next_brace chars i = Some (b, j) \<Longrightarrow> i \<le> j \<and> j < length chars \<and> chars ! j = (if b then 123 else 125)"
  by (auto simp: next_brace_def dest!: position_fromD split: option.splits if_splits)

text \<open>The loop of \<open>format_template\<close>: the text, the cache of converted arguments, the output and the
  position.\<close>

function format_loop :: "rtext \<Rightarrow> Value eval list \<Rightarrow> rtext option list \<Rightarrow> rtext \<Rightarrow> nat \<Rightarrow> rtext eval" where
  "format_loop chars args cache result i h =
     (if length chars \<le> i then Inr (result, h)
      else case next_brace chars i of
          None \<Rightarrow> Inr (result @ drop i chars, h)
        | Some (left, b) \<Rightarrow>
            if b + 1 < length chars \<and> chars ! (b + 1) = chars ! b
            then format_loop chars args cache (result @ drop i (take (b + 1) chars)) (b + 2) h
            else if \<not> left then Inl (invalid_format chars)
            else case read_placeholder chars b (position_from 125 chars i) of
                None \<Rightarrow> Inl (invalid_format chars)
              | Some (arg, specifiers, r) \<Rightarrow>
                  if length args \<le> arg then Inl (too_few_arguments chars)
                  else if specifiers \<noteq> [] then
                    (case (args ! arg) h of
                       Inl e \<Rightarrow> Inl e
                     | Inr (v, h1) \<Rightarrow> Inl (invalid_specifiers specifiers v))
                  else
                    (case (case cache ! arg of
                             Some s \<Rightarrow> Inr (s, h)
                           | None \<Rightarrow> eval_bind (args ! arg) (\<lambda>v. eval_return (convert_to_string v)) h) of
                       Inl e \<Rightarrow> Inl e
                     | Inr (s, h1) \<Rightarrow>
                         format_loop chars args (cache[arg := Some s])
                           (result @ drop i (take b chars) @ s) (r + 1) h1))"
  by pat_completeness auto
termination
  by (relation "measure (\<lambda>(chars, _, _, _, i, _). length chars - i)")
    (auto dest!: next_braceD read_placeholder_end sym [of "Some _"])

declare format_loop.simps [simp del]

definition format_template :: "rtext \<Rightarrow> Value eval list \<Rightarrow> rtext eval" where
  "format_template fmt args h = format_loop fmt args (replicate (length args) None) [] 0 h"

section \<open>JSON\<close>

datatype JsonPrefix = Root | MappingValue | Element bool

definition indent :: "nat \<Rightarrow> rtext" where
  "indent level = concat (replicate level (lit ''  ''))"

definition prefix_text :: "nat \<Rightarrow> JsonPrefix \<Rightarrow> rtext" where
  "prefix_text level p =
     (case p of
        Root \<Rightarrow> []
      | MappingValue \<Rightarrow> lit '': ''
      | Element is_first \<Rightarrow> (if is_first then [] else lit '','') @ [10] @ indent level)"

definition scalar_json :: "Externals \<Rightarrow> Value \<Rightarrow> rtext" where
  "scalar_json x v =
     (case v of
        VNull \<Rightarrow> lit ''null''
      | VBoolean b \<Rightarrow> (if b then lit ''true'' else lit ''false'')
      | VNumber n \<Rightarrow> format_number n
      | VString s \<Rightarrow> json_string x s
      | VArray _ _ _ \<Rightarrow> lit ''[]''
      | VObject _ _ _ \<Rightarrow> [123, 125])"

fun write_json :: "Externals \<Rightarrow> Value \<Rightarrow> nat \<Rightarrow> JsonPrefix \<Rightarrow> rtext"
  and write_entries :: "Externals \<Rightarrow> (rtext \<times> Value) list \<Rightarrow> nat \<Rightarrow> bool \<Rightarrow> rtext"
  and write_items :: "Externals \<Rightarrow> Value list \<Rightarrow> nat \<Rightarrow> bool \<Rightarrow> rtext" where
  "write_json x (VObject a c (e # es)) level p =
     prefix_text level p @ [123] @ write_entries x (e # es) (level + 1) True @ [10] @ indent level @ [125]"
| "write_json x (VArray a f (v # vs)) level p =
     prefix_text level p @ [91] @ write_items x (v # vs) (level + 1) True @ [10] @ indent level @ [93]"
| "write_json x v level p = prefix_text level p @ scalar_json x v"
| "write_entries x [] level is_first = []"
| "write_entries x ((key, v) # es) level is_first =
     prefix_text level (Element is_first) @ json_string x key @ write_json x v level MappingValue
       @ write_entries x es level False"
| "write_items x [] level is_first = []"
| "write_items x (v # vs) level is_first =
     write_json x v level (Element is_first) @ write_items x vs level False"

definition to_json :: "Externals \<Rightarrow> Value \<Rightarrow> rtext" where
  "to_json x v = write_json x v 0 Root"

fun from_serde_json :: "JsonValue \<Rightarrow> Value eval"
  and from_json_items :: "JsonValue list \<Rightarrow> Value list eval"
  and from_json_entries :: "(rtext \<times> JsonValue) list \<Rightarrow> (rtext \<times> Value) list eval" where
  "from_serde_json JsonNull = eval_return VNull"
| "from_serde_json (JsonBool b) = eval_return (VBoolean b)"
| "from_serde_json (JsonNumber n) = eval_return (VNumber (case n of Some d \<Rightarrow> d | None \<Rightarrow> NaN))"
| "from_serde_json (JsonString s) = eval_return (VString s)"
| "from_serde_json (JsonArray items) = eval_bind (from_json_items items) (new_array False)"
| "from_serde_json (JsonObject entries) = eval_bind (from_json_entries entries) (new_object False)"
| "from_json_items [] = eval_return []"
| "from_json_items (j # js) =
     eval_bind (from_serde_json j) (\<lambda>v. eval_bind (from_json_items js) (\<lambda>vs. eval_return (v # vs)))"
| "from_json_entries [] = eval_return []"
| "from_json_entries ((key, j) # es) =
     eval_bind (from_serde_json j) (\<lambda>v. eval_bind (from_json_entries es) (\<lambda>vs. eval_return ((key, v) # vs)))"

definition from_json :: "Externals \<Rightarrow> rtext \<Rightarrow> Value eval" where
  "from_json x json =
     (case json_from_str x json of
        Inl error \<Rightarrow> eval_fail (Err (Evaluation (lit ''Unable to parse JSON: '' @ error)))
      | Inr parsed \<Rightarrow> from_serde_json parsed)"

section \<open>Functions\<close>

text \<open>The loop of \<open>case\<close>: predicate and result, two arguments at a time, and then the last one.\<close>

fun case_loop :: "Value eval list \<Rightarrow> Value eval" where
  "case_loop [] = eval_fail Panic"
| "case_loop [otherwise] = otherwise"
| "case_loop (p # result # rest) =
     eval_bind p (\<lambda>v. case v of
         VBoolean matched \<Rightarrow> if matched then result else case_loop rest
       | _ \<Rightarrow> eval_fail (Err (Evaluation (lit ''case predicate must evaluate to a boolean value''))))"

definition evaluate_case :: "Value eval list \<Rightarrow> Value eval" where
  "evaluate_case args =
     (if even (length args) then eval_fail (Err (Evaluation (lit ''case requires an odd number of arguments'')))
      else case_loop args)"

definition evaluate_contains :: "Externals \<Rightarrow> Value eval list \<Rightarrow> Value eval" where
  "evaluate_contains x args =
     eval_bind (eval_argument args 0) (\<lambda>left.
       if is_primitive left then
         eval_bind (eval_argument args 1) (\<lambda>right.
           eval_return (VBoolean (is_primitive right
             \<and> ordinal_ignore_case_contains (upper x) (convert_to_string left) (convert_to_string right))))
       else case left of
           VArray _ _ (v # vs) \<Rightarrow>
             eval_bind (eval_argument args 1) (\<lambda>right.
               eval_return (VBoolean (list_ex (abstract_equal (upper x) right) (v # vs))))
         | _ \<Rightarrow> eval_return (VBoolean False))"

definition evaluate_affix_args :: "Value eval list \<Rightarrow> (rtext option \<times> rtext option) eval" where
  "evaluate_affix_args args =
     eval_bind (eval_argument args 0) (\<lambda>left.
       if \<not> is_primitive left then eval_return (None, None)
       else eval_bind (eval_argument args 1) (\<lambda>right.
         eval_return (Some (convert_to_string left),
                      if is_primitive right then Some (convert_to_string right) else None)))"

definition evaluate_affix :: "(rtext \<Rightarrow> rtext \<Rightarrow> bool) \<Rightarrow> Value eval list \<Rightarrow> Value eval" where
  "evaluate_affix test args =
     eval_bind (evaluate_affix_args args) (\<lambda>(left, right).
       eval_return (VBoolean (case (left, right) of (Some l, Some r) \<Rightarrow> test l r | _ \<Rightarrow> False)))"

text \<open>The count of arguments after the first would underflow on none.\<close>

definition evaluate_format :: "Value eval list \<Rightarrow> Value eval" where
  "evaluate_format args =
     eval_bind (eval_argument args 0) (\<lambda>v.
     eval_bind (format_template (convert_to_string v) (drop 1 args)) (\<lambda>s. eval_return (VString s)))"

fun join_text :: "rtext \<Rightarrow> rtext list \<Rightarrow> rtext" where
  "join_text sep [] = []"
| "join_text sep [s] = s"
| "join_text sep (s # ss) = s @ sep @ join_text sep ss"

definition evaluate_join :: "Value eval list \<Rightarrow> Value eval" where
  "evaluate_join args =
     eval_bind (eval_argument args 0) (\<lambda>items.
       case items of
         VArray _ _ (v # vs) \<Rightarrow>
           eval_bind
             (if 1 < length args \<and> vs \<noteq> [] then
                eval_bind (eval_argument args 1) (\<lambda>sep.
                  eval_return (if is_primitive sep then convert_to_string sep else lit '',''))
              else eval_return (lit '',''))
             (\<lambda>sep. eval_return (VString (join_text sep (map convert_to_string (v # vs)))))
       | _ \<Rightarrow> eval_return (VString (if is_primitive items then convert_to_string items else [])))"

fun evaluate_all :: "Value eval list \<Rightarrow> Value list eval" where
  "evaluate_all [] = eval_return []"
| "evaluate_all (a # as) = eval_bind a (\<lambda>v. eval_bind (evaluate_all as) (\<lambda>vs. eval_return (v # vs)))"

definition call_runner :: "EvaluationContext \<Rightarrow> rtext \<Rightarrow> Value list \<Rightarrow> Value eval" where
  "call_runner ctx name values h =
     (case call_function ctx name values h of Inl e \<Rightarrow> Inl (Err e) | Inr r \<Rightarrow> Inr r)"

definition evaluate_function :: "Externals \<Rightarrow> EvaluationContext \<Rightarrow> rtext \<Rightarrow> Value eval list \<Rightarrow> Value eval" where
  "evaluate_function x ctx name args =
     (if name = lit ''case'' then evaluate_case args
      else if name = lit ''contains'' then evaluate_contains x args
      else if name = lit ''startsWith'' then evaluate_affix (ordinal_ignore_case_starts_with (upper x)) args
      else if name = lit ''endsWith'' then evaluate_affix (ordinal_ignore_case_ends_with (upper x)) args
      else if name = lit ''format'' then evaluate_format args
      else if name = lit ''join'' then evaluate_join args
      else if name = lit ''toJson'' then
        eval_bind (eval_argument args 0) (\<lambda>v. eval_return (VString (to_json x v)))
      else if name = lit ''fromJson'' then
        eval_bind (eval_argument args 0) (\<lambda>v. from_json x (convert_to_string v))
      else eval_bind (evaluate_all args) (call_runner ctx name))"

primrec evaluate_node :: "Externals \<Rightarrow> EvaluationContext \<Rightarrow> Node \<Rightarrow> Value eval" where
  "evaluate_node x ctx (NLiteral v) = eval_return v"
| "evaluate_node x ctx NWildcard = eval_return (VString (lit ''*''))"
| "evaluate_node x ctx (NNamedValue name) = (\<lambda>h. Inr (named_value ctx name h))"
| "evaluate_node x ctx (NNot n) =
     eval_bind (evaluate_node x ctx n) (\<lambda>v. eval_return (VBoolean (is_falsy v)))"
| "evaluate_node x ctx (NAnd ns) = evaluate_and VNull (map (evaluate_node x ctx) ns)"
| "evaluate_node x ctx (NOr ns) = evaluate_or VNull (map (evaluate_node x ctx) ns)"
| "evaluate_node x ctx (NBinary b l r) =
     eval_bind (evaluate_node x ctx l) (\<lambda>lv. eval_bind (evaluate_node x ctx r) (\<lambda>rv.
       eval_return (VBoolean (compare_values x b lv rv))))"
| "evaluate_node x ctx (NIndex l r) =
     evaluate_index x (evaluate_node x ctx l) (r = NWildcard) (evaluate_node x ctx r)"
| "evaluate_node x ctx (NFunction name args) = evaluate_function x ctx name (map (evaluate_node x ctx) args)"

definition evaluate :: "Externals \<Rightarrow> EvaluationContext \<Rightarrow> rtext \<Rightarrow> Value eval" where
  "evaluate x ctx e =
     (case parse e (ParseEnvironment.truncate ctx) of
        Inl (Err err) \<Rightarrow> eval_fail (Err (Parse err))
      | Inl Panic \<Rightarrow> eval_fail Panic
      | Inr None \<Rightarrow> eval_return VNull
      | Inr (Some n) \<Rightarrow> evaluate_node x ctx n)"

section \<open>What only exists while the job runs\<close>

definition ROOT_CONTEXTS :: "rtext list" where
  "ROOT_CONTEXTS =
     [lit ''github'', lit ''env'', lit ''job'', lit ''jobs'', lit ''runner'', lit ''steps'', lit ''secrets'',
      lit ''strategy'', lit ''matrix'', lit ''needs'', lit ''inputs'', lit ''vars'']"

definition RUNNER_FUNCTIONS :: "(rtext \<times> nat \<times> nat) list" where
  "RUNNER_FUNCTIONS =
     [(lit ''success'', 0, 0), (lit ''failure'', 0, 0), (lit ''always'', 0, 0), (lit ''cancelled'', 0, 0),
      (lit ''hashFiles'', 1, 255)]"

definition runtime_name :: "rtext \<Rightarrow> bool" where
  "runtime_name name =
     (map lower_char name \<in> set [lit ''env'', lit ''steps'', lit ''job'', lit ''jobs'', lit ''runner''])"

definition runner_function :: "rtext \<Rightarrow> bool" where
  "runner_function name = list_ex (\<lambda>(known, _, _). eq_ignore_ascii_case known name) RUNNER_FUNCTIONS"

fun reads_runtime_context :: "Node \<Rightarrow> bool" where
  "reads_runtime_context (NNamedValue name) = runtime_name name"
| "reads_runtime_context (NFunction name args) = (runner_function name \<or> list_ex reads_runtime_context args)"
| "reads_runtime_context (NLiteral _) = False"
| "reads_runtime_context NWildcard = False"
| "reads_runtime_context (NIndex l r) = (reads_runtime_context l \<or> reads_runtime_context r)"
| "reads_runtime_context (NNot n) = reads_runtime_context n"
| "reads_runtime_context (NAnd ns) = list_ex reads_runtime_context ns"
| "reads_runtime_context (NOr ns) = list_ex reads_runtime_context ns"
| "reads_runtime_context (NBinary _ l r) = (reads_runtime_context l \<or> reads_runtime_context r)"

end
