(* ===== verification/Expr_Typing.thy ===== *)
theory Expr_Typing
  imports Expr_Stacks Expr_Eval
begin

text \<open>
  What the evaluator relies on.  A tree of the parser has the arguments its functions read, so an
  evaluation never reads one that is not there; and operators and built-in functions return values of
  a kind that the tree shows.
\<close>

section \<open>Evaluations that do not panic\<close>

named_theorems calm_intros

definition calm :: "'a eval \<Rightarrow> bool" where
  "calm m \<longleftrightarrow> (\<forall>h. m h \<noteq> Inl Panic)"

lemma calm_return [calm_intros]: "calm (eval_return v)"
  by (simp add: calm_def eval_return_def)

lemma calm_value [calm_intros]: "calm (\<lambda>h. Inr (f h))"
  by (simp add: calm_def)

lemma calm_fail [calm_intros]: "calm (eval_fail (Err e))"
  by (simp add: calm_def eval_fail_def)

lemma calm_new [calm_intros]: "calm (new_array f vs)" "calm (new_object c es)"
  by (simp_all add: calm_def new_array_def new_object_def)

lemma calm_bind [calm_intros]: "calm m \<Longrightarrow> (\<And>v. calm (f v)) \<Longrightarrow> calm (eval_bind m f)"
  by (auto simp: calm_def eval_bind_def split: sum.splits)

lemma calm_if [calm_intros]: "calm a \<Longrightarrow> calm b \<Longrightarrow> calm (if c then a else b)"
  by simp

lemma calm_argument [calm_intros]: "list_all calm args \<Longrightarrow> i < length args \<Longrightarrow> calm (eval_argument args i)"
  by (simp add: eval_argument_def list_all_length)

lemma calm_and: "list_all calm ps \<Longrightarrow> calm (evaluate_and v ps)"
  by (induction ps arbitrary: v) (auto intro!: calm_intros)

lemma calm_or: "list_all calm ps \<Longrightarrow> calm (evaluate_or v ps)"
  by (induction ps arbitrary: v) (auto intro!: calm_intros)

lemma calm_all: "list_all calm ps \<Longrightarrow> calm (evaluate_all ps)"
  by (induction ps) (auto intro!: calm_intros)

lemma calm_collection: "calm (index_collection x v i)"
  by (auto simp: index_collection_def intro!: calm_intros split: Value.splits option.splits)

lemma calm_index: "calm l \<Longrightarrow> calm r \<Longrightarrow> calm (evaluate_index x l w r)"
  unfolding evaluate_index_def by (intro calm_intros calm_collection)

lemma calm_from_json:
  "calm (from_serde_json j)" "calm (from_json_items js)" "calm (from_json_entries es)"
  by (induction j and js and es rule: from_serde_json_from_json_items_from_json_entries.induct)
    (auto intro!: calm_intros)

lemma calm_case_loop: "list_all calm args \<Longrightarrow> args \<noteq> [] \<Longrightarrow> odd (length args) \<Longrightarrow> calm (case_loop args)"
proof (induction args rule: case_loop.induct)
  case (3 p result rest)
  then have "rest \<noteq> []" by auto
  with 3 show ?case by (auto intro!: calm_intros split: Value.splits)
qed auto

lemma calm_format_loop:
  "list_all calm args \<Longrightarrow> length cache = length args \<Longrightarrow> format_loop chars args cache result i h \<noteq> Inl Panic"
proof (induction chars args cache result i h rule: format_loop.induct)
  case (1 chars args cache result i h)
  have arg: "(args ! n) k = Inl Panic \<Longrightarrow> length args \<le> n" for n k
    using "1.prems"(1) by (meson calm_def list_all_length not_le)
  show ?case
    using "1.IH" "1.prems"
    by (auto simp: format_loop.simps [of chars args cache result i h] invalid_format_def too_few_arguments_def
        invalid_specifiers_def eval_bind_def eval_return_def dest: arg
        split: option.splits sum.splits prod.splits if_splits)
qed


section \<open>The functions of a tree\<close>

lemma known_function:
  assumes "node_ok env (NFunction name args)"
  shows "name \<in> {lit ''contains'', lit ''startsWith'', lit ''endsWith''} \<Longrightarrow> 2 \<le> length args"
    and "name \<in> {lit ''format'', lit ''join'', lit ''toJson'', lit ''fromJson''} \<Longrightarrow> 1 \<le> length args"
    and "name = lit ''case'' \<Longrightarrow> odd (length args)"
  using assms
  by (auto simp: lookup_function_def WELL_KNOWN_FUNCTIONS_def eq_ignore_ascii_case_def lower_char_def lit_def byte_of_def)

lemma calm_function:
  assumes ok: "node_ok env (NFunction name args)" and calm: "list_all calm es" and len: "length es = length args"
  shows "calm (evaluate_function x ctx name es)"
proof -
  have two: "calm (evaluate_contains x es)" "calm (evaluate_affix t es)" if "2 \<le> length es" for t
    using that calm
    by (auto simp: evaluate_contains_def evaluate_affix_def evaluate_affix_args_def intro!: calm_intros
        split: Value.splits list.splits)
  have one: "calm (evaluate_format es)" "calm (evaluate_join es)" "calm (eval_argument es 0)" if "1 \<le> length es"
  proof -
    have "calm (format_template s (drop 1 es))" for s
      using calm calm_format_loop [of "drop 1 es"] by (simp add: calm_def format_template_def list_all_length)
    then show "calm (evaluate_format es)" "calm (evaluate_join es)" "calm (eval_argument es 0)"
      using that calm
      by (auto simp: evaluate_format_def evaluate_join_def intro!: calm_intros split: Value.splits list.splits)
  qed
  have "calm (evaluate_case es)" if "odd (length es)"
    using that calm calm_case_loop [of es] by (cases es) (auto simp: evaluate_case_def)
  moreover have "calm (from_json x s)" for s
    by (auto simp: from_json_def intro!: calm_intros calm_from_json split: sum.splits)
  moreover have "calm (call_runner ctx name vs)" for vs
    by (simp add: calm_def call_runner_def split: sum.splits)
  ultimately show ?thesis
    using known_function [OF ok] calm calm_all [OF calm] one two len
    by (auto simp: evaluate_function_def intro!: calm_intros)
qed

lemma evaluate_node_calm: "node_ok env n \<Longrightarrow> calm (evaluate_node x ctx n)"
proof (induction n)
  case (NFunction name args)
  then have "list_all calm (map (evaluate_node x ctx) args)" by (auto simp: list_all_iff)
  then show ?case using calm_function [OF NFunction.prems] by simp
qed (auto simp: list_all_iff intro!: calm_intros calm_and calm_or calm_index)

section \<open>The kind of a result\<close>

definition boolean_functions :: "rtext list" where
  "boolean_functions = [lit ''contains'', lit ''startsWith'', lit ''endsWith'']"

definition string_functions :: "rtext list" where
  "string_functions = [lit ''format'', lit ''join'', lit ''toJson'']"

fun result_kind :: "Node \<Rightarrow> ValueKind option" where
  "result_kind (NLiteral v) = Some (kind v)"
| "result_kind NWildcard = Some KString"
| "result_kind (NNot _) = Some KBoolean"
| "result_kind (NBinary _ _ _) = Some KBoolean"
| "result_kind (NFunction name _) =
     (if name \<in> set boolean_functions then Some KBoolean
      else if name \<in> set string_functions then Some KString
      else None)"
| "result_kind _ = None"

definition yields :: "'a eval \<Rightarrow> ('a \<Rightarrow> bool) \<Rightarrow> bool" where
  "yields m P \<longleftrightarrow> (\<forall>h v h1. m h = Inr (v, h1) \<longrightarrow> P v)"

lemma yields_return [simp]: "yields (eval_return v) P = P v"
  by (simp add: yields_def eval_return_def)

lemma yields_bind: "(\<And>v. yields (f v) P) \<Longrightarrow> yields (eval_bind m f) P"
  by (auto simp: yields_def eval_bind_def split: sum.splits)

lemma evaluate_function_named:
  "evaluate_function x ctx (lit ''contains'') es = evaluate_contains x es"
  "evaluate_function x ctx (lit ''startsWith'') es = evaluate_affix (ordinal_ignore_case_starts_with (upper x)) es"
  "evaluate_function x ctx (lit ''endsWith'') es = evaluate_affix (ordinal_ignore_case_ends_with (upper x)) es"
  "evaluate_function x ctx (lit ''format'') es = evaluate_format es"
  "evaluate_function x ctx (lit ''join'') es = evaluate_join es"
  "evaluate_function x ctx (lit ''toJson'') es = eval_bind (eval_argument es 0) (\<lambda>v. eval_return (VString (to_json x v)))"
  by (simp_all add: evaluate_function_def lit_eq_iff)

lemma boolean_results:
  "yields (evaluate_contains x es) (\<lambda>v. kind v = KBoolean)"
  "yields (evaluate_affix t es) (\<lambda>v. kind v = KBoolean)"
  by (auto simp: evaluate_contains_def evaluate_affix_def intro!: yields_bind split: Value.splits list.splits)

lemma string_results:
  "yields (evaluate_format es) (\<lambda>v. kind v = KString)"
  "yields (evaluate_join es) (\<lambda>v. kind v = KString)"
  "yields (eval_bind m (\<lambda>v. eval_return (VString (f v)))) (\<lambda>v. kind v = KString)"
  by (auto simp: evaluate_format_def evaluate_join_def intro!: yields_bind split: Value.splits list.splits)

lemma evaluate_node_kind: "result_kind n = Some k \<Longrightarrow> yields (evaluate_node x ctx n) (\<lambda>v. kind v = k)"
proof (cases n)
  case (NFunction name args)
  assume "result_kind n = Some k"
  then consider "name \<in> set boolean_functions" "k = KBoolean" | "name \<in> set string_functions" "k = KString"
    using NFunction by (auto split: if_splits)
  then show ?thesis
    unfolding NFunction evaluate_node.simps
    by cases (auto simp: boolean_functions_def string_functions_def evaluate_function_named boolean_results string_results)
qed (auto intro!: yields_bind)

section \<open>Short circuits\<close>

lemma eval_bind_return [simp]: "eval_bind m eval_return = m"
  by (rule ext) (simp add: eval_bind_def eval_return_def split: sum.splits)

lemma eval_return_bind [simp]: "eval_bind (eval_return v) f = f v"
  by (rule ext) (simp add: eval_bind_def eval_return_def)

lemma eval_bind_assoc: "eval_bind (eval_bind m f) g = eval_bind m (\<lambda>v. eval_bind (f v) g)"
  by (rule ext) (simp add: eval_bind_def split: sum.splits)

lemma eval_bind_cong: "(\<And>v. f v = g v) \<Longrightarrow> eval_bind m f = eval_bind m g"
  by presburger

lemma evaluate_and_append:
  "ps \<noteq> [] \<Longrightarrow> evaluate_and v (ps @ qs) = eval_bind (evaluate_and v ps) (\<lambda>w. if is_falsy w then eval_return w else evaluate_and w qs)"
proof (induction ps arbitrary: v)
  case (Cons p ps)
  have "(if is_falsy u then eval_return u else evaluate_and u (ps @ qs)) =
      eval_bind (if is_falsy u then eval_return u else evaluate_and u ps) (\<lambda>w. if is_falsy w then eval_return w else evaluate_and w qs)" for u
    using Cons.IH by (cases ps) auto
  then show ?case by (auto simp: eval_bind_assoc intro: eval_bind_cong)
qed simp

lemma evaluate_or_append:
  "ps \<noteq> [] \<Longrightarrow> evaluate_or v (ps @ qs) = eval_bind (evaluate_or v ps) (\<lambda>w. if is_truthy w then eval_return w else evaluate_or w qs)"
proof (induction ps arbitrary: v)
  case (Cons p ps)
  have "(if is_truthy u then eval_return u else evaluate_or u (ps @ qs)) =
      eval_bind (if is_truthy u then eval_return u else evaluate_or u ps) (\<lambda>w. if is_truthy w then eval_return w else evaluate_or w qs)" for u
    using Cons.IH by (cases ps) auto
  then show ?case by (auto simp: eval_bind_assoc intro: eval_bind_cong)
qed simp

lemma evaluate_and_start: "ps \<noteq> [] \<Longrightarrow> evaluate_and v ps = evaluate_and w ps"
  by (cases ps) auto

lemma evaluate_or_start: "ps \<noteq> [] \<Longrightarrow> evaluate_or v ps = evaluate_or w ps"
  by (cases ps) auto

lemma evaluate_and_flat:
  "node_ok env n \<Longrightarrow> evaluate_and v (map (evaluate_node x ctx) (flatten True [n])) = evaluate_node x ctx n"
  by (cases n) (auto simp: flatten_def cong: if_cong intro!: evaluate_and_start)

lemma evaluate_or_flat:
  "node_ok env n \<Longrightarrow> evaluate_or v (map (evaluate_node x ctx) (flatten False [n])) = evaluate_node x ctx n"
  by (cases n) (auto simp: flatten_def cong: if_cong intro!: evaluate_or_start)

lemma flatten_pair: "flatten b [l, r] = flatten b [l] @ flatten b [r]"
  by (simp add: flatten_def)

section \<open>Escaped braces\<close>

definition is_brace :: "int \<Rightarrow> bool" where
  "is_brace c = (c = 123 \<or> c = 125)"

text \<open>The text with every brace doubled.\<close>

definition escape_braces :: "rtext \<Rightarrow> rtext" where
  "escape_braces s = concat (map (\<lambda>c. if is_brace c then [c, c] else [c]) s)"

lemma position_from_skip:
  "position_from d (pre @ x # t) (length pre) =
     (if x = d then Some (length pre) else position_from d (pre @ x # t) (Suc (length pre)))"
proof -
  have "[length pre..<length (pre @ x # t)] = length pre # [Suc (length pre)..<length (pre @ x # t)]"
    by (rule upt_conv_Cons) simp
  then show ?thesis by (simp add: position_from_def del: upt.simps length_append)
qed

lemma position_from_later: "position_from d chars i = Some j \<Longrightarrow> i \<le> j"
  by (drule position_fromD) simp

lemma next_brace_here: "is_brace c \<Longrightarrow> next_brace (pre @ c # t) (length pre) = Some (c = 123, length pre)"
  by (auto simp: next_brace_def is_brace_def position_from_skip dest!: position_from_later split: option.splits)

lemma next_brace_skip: "\<not> is_brace c \<Longrightarrow> next_brace (pre @ c # t) (length pre) = next_brace (pre @ c # t) (Suc (length pre))"
  by (simp add: next_brace_def is_brace_def position_from_skip)

lemma next_brace_first:
  "list_all (\<lambda>c. \<not> is_brace c) a \<Longrightarrow> is_brace c \<Longrightarrow>
     next_brace (pre @ a @ c # t) (length pre) = Some (c = 123, length pre + length a)"
proof (induction a arbitrary: pre)
  case (Cons x a)
  then show ?case using Cons.IH [of "pre @ [x]"] by (simp add: next_brace_skip)
qed (simp add: next_brace_here)

lemma next_brace_none: "list_all (\<lambda>c. \<not> is_brace c) a \<Longrightarrow> next_brace (pre @ a) (length pre) = None"
proof (induction a arbitrary: pre)
  case (Cons x a)
  then show ?case using Cons.IH [of "pre @ [x]"] by (simp add: next_brace_skip)
qed (simp add: next_brace_def position_from_def)

lemma escape_braces_plain: "list_all (\<lambda>c. \<not> is_brace c) a \<Longrightarrow> escape_braces a = a"
  by (induction a) (auto simp: escape_braces_def)

lemma format_loop_escaped:
  "format_loop (pre @ escape_braces s) args cache result (length pre) h = Inr (result @ s, h)"
proof (induction s arbitrary: pre result rule: length_induct)
  case (1 s)
  let ?a = "takeWhile (\<lambda>c. \<not> is_brace c) s"
  have plain: "list_all (\<lambda>c. \<not> is_brace c) ?a" by (auto simp: list_all_iff dest: set_takeWhileD)
  show ?case
  proof (cases "dropWhile (\<lambda>c. \<not> is_brace c) s")
    case Nil
    then have "list_all (\<lambda>c. \<not> is_brace c) s" by (simp add: list_all_iff)
    then show ?thesis
      by (subst format_loop.simps) (auto simp: escape_braces_plain next_brace_none)
  next
    case (Cons c t)
    then have s: "s = ?a @ c # t" using takeWhile_dropWhile_id [of "\<lambda>c. \<not> is_brace c" s] by simp
    have c: "is_brace c" using Cons by (metis dropWhile_eq_Cons_conv)
    let ?pre = "pre @ ?a @ [c, c]"
    have e: "pre @ escape_braces s = pre @ ?a @ c # c # escape_braces t"
      using c escape_braces_plain [OF plain] by (subst s) (simp add: escape_braces_def)
    have "length t < length s" by (subst s) simp
    then have IH: "format_loop (?pre @ escape_braces t) args cache (result @ ?a @ [c]) (length ?pre) h
      = Inr ((result @ ?a @ [c]) @ t, h)" using "1.IH" by blast
    show ?thesis
      unfolding e using IH c next_brace_first [OF plain c, of pre "c # escape_braces t"]
      by (subst format_loop.simps) (subst (2) s, simp add: nth_append)
  qed
qed

section \<open>Contexts that differ at run time only\<close>

text \<open>Two contexts agree on all that exists before the job runs.\<close>

definition same_at_setup :: "EvaluationContext \<Rightarrow> EvaluationContext \<Rightarrow> bool" where
  "same_at_setup c1 c2 \<longleftrightarrow>
     (\<forall>name. runtime_name name \<or> named_value c1 name = named_value c2 name)
     \<and> (\<forall>name. runner_function name \<or> call_function c1 name = call_function c2 name)"

lemma evaluate_same_at_setup:
  assumes "same_at_setup c1 c2"
  shows "\<not> reads_runtime_context n \<Longrightarrow> evaluate_node x c1 n = evaluate_node x c2 n"
proof (induction n)
  case (NFunction name args)
  then have "map (evaluate_node x c1) args = map (evaluate_node x c2) args" by (auto simp: list_ex_iff)
  moreover have "call_runner c1 name = call_runner c2 name"
    using NFunction.prems assms by (auto simp: same_at_setup_def call_runner_def fun_eq_iff)
  ultimately show ?case by (simp only: evaluate_node.simps evaluate_function_def)
next
  case (NAnd ns)
  then have "map (evaluate_node x c1) ns = map (evaluate_node x c2) ns" by (auto simp: list_ex_iff)
  then show ?case by (simp only: evaluate_node.simps)
next
  case (NOr ns)
  then have "map (evaluate_node x c1) ns = map (evaluate_node x c2) ns" by (auto simp: list_ex_iff)
  then show ?case by (simp only: evaluate_node.simps)
qed (use assms in \<open>auto simp: same_at_setup_def\<close>)

end
