(* ===== verification/Expr_Properties.thy ===== *)
theory Expr_Properties
  imports Expr_Typing
begin

text \<open>Properties of the parser and the evaluator of workflow expressions.\<close>

text \<open>C5. The parser never meets a state it does not expect.  On every text and in every environment the
  parse returns; it fails only with an error about the text, never with an internal error and never
  with a panic; and a tree it returns has at most the allowed depth, and every call in it has a
  number of arguments that its function accepts.  The empty result means that the text is blank.\<close>

theorem parse_never_fails_internally:
  "(\<exists>err. parse e env = Inl (Err err) \<and> pe_kind err \<noteq> Internal)
   \<or> (parse e env = Inr None \<and> list_all is_whitespace e)
   \<or> (\<exists>n. parse e env = Inr (Some n) \<and> node_ok env n \<and> depth n \<le> MAX_DEPTH)"
  by (rule parse_outcome)

text \<open>C11. Evaluating an expression never panics, and its result has the kind its tree shows.  Whatever the
  text, the contexts and the functions of the runner, the evaluation fails only with an error value;
  a blank text is no error and gives null; and a negation, a comparison, \<open>contains\<close>, \<open>startsWith\<close> and \<open>endsWith\<close> give a Boolean, \<open>format\<close>, \<open>join\<close> and \<open>toJson\<close> a
  string, and a literal a value of its own kind.\<close>

theorem evaluate_returns_declared_kind:
  "case evaluate x ctx e h of
     Inl Panic \<Rightarrow> False
   | Inl (Err _) \<Rightarrow> parse e (ParseEnvironment.truncate ctx) \<noteq> Inr None
   | Inr (v, _) \<Rightarrow>
       (case parse e (ParseEnvironment.truncate ctx) of
          Inr (Some n) \<Rightarrow> result_kind n \<in> {None, Some (kind v)}
        | _ \<Rightarrow> list_all is_whitespace e \<and> v = VNull)"
proof -
  let ?env = "ParseEnvironment.truncate ctx"
  consider (err) err where "parse e ?env = Inl (Err err)" "pe_kind err \<noteq> Internal"
    | (blank) "parse e ?env = Inr None" "list_all is_whitespace e"
    | (tree) n where "parse e ?env = Inr (Some n)" "node_ok ?env n"
    using parse_outcome [of e ?env] by blast
  then show ?thesis
  proof cases
    case (tree n)
    have calm: "evaluate_node x ctx n h \<noteq> Inl Panic" using evaluate_node_calm [OF tree(2)] by (simp add: calm_def)
    have kind: "result_kind n \<in> {None, Some (kind v)}" if "evaluate_node x ctx n h = Inr (v, h1)" for v h1
      using evaluate_node_kind [of n _ x ctx] that by (cases "result_kind n") (auto simp: yields_def)
    show ?thesis
    proof (cases "evaluate_node x ctx n h")
      case (Inl f)
      then show ?thesis
        using tree(1) calm by (cases f) (auto simp: evaluate_def)
    next
      case (Inr p)
      then show ?thesis using tree(1) kind by (cases p) (auto simp: evaluate_def)
    qed
  qed (auto simp: evaluate_def eval_fail_def eval_return_def)
qed

text \<open>C12. Flattening nested conjunctions and disjunctions into one node does not change what an expression
  evaluates to.  The node the parser builds for \<open>l && r\<close> evaluates \<open>l\<close> and then, if that is truthy,
  \<open>r\<close>; the one for \<open>l || r\<close> evaluates \<open>r\<close> if \<open>l\<close> is falsy; each returns the value of the operand
  evaluated last, and this holds when \<open>l\<close> and \<open>r\<close> are conjunctions or disjunctions themselves.\<close>

theorem flattening_keeps_short_circuit:
  assumes "node_ok env l" "node_ok env r"
  shows "\<exists>n m. logical_node c (lit ''&&'') [l, r] = Inr (push_node c n)
      \<and> logical_node c (lit ''||'') [l, r] = Inr (push_node c m)
      \<and> evaluate_node x ctx n = eval_bind (evaluate_node x ctx l)
           (\<lambda>v. if is_falsy v then eval_return v else evaluate_node x ctx r)
      \<and> evaluate_node x ctx m = eval_bind (evaluate_node x ctx l)
           (\<lambda>v. if is_truthy v then eval_return v else evaluate_node x ctx r)"
proof -
  have "logical_node c (lit ''&&'') [l, r] = Inr (push_node c (NAnd (flatten True [l, r])))"
    and "logical_node c (lit ''||'') [l, r] = Inr (push_node c (NOr (flatten False [l, r])))"
    by (simp_all add: logical_node_def lit_eq_iff)
  moreover have "evaluate_node x ctx (NAnd (flatten True [l, r])) = eval_bind (evaluate_node x ctx l)
      (\<lambda>v. if is_falsy v then eval_return v else evaluate_node x ctx r)"
    using flatten_nonempty [OF assms(1), of True "[]"]
    by (simp add: flatten_pair evaluate_and_append evaluate_and_flat [OF assms(1)] evaluate_and_flat [OF assms(2)] cong: if_cong)
  moreover have "evaluate_node x ctx (NOr (flatten False [l, r])) = eval_bind (evaluate_node x ctx l)
      (\<lambda>v. if is_truthy v then eval_return v else evaluate_node x ctx r)"
    using flatten_nonempty [OF assms(1), of False "[]"]
    by (simp add: flatten_pair evaluate_or_append evaluate_or_flat [OF assms(1)] evaluate_or_flat [OF assms(2)] cong: if_cong)
  ultimately show ?thesis by blast
qed

definition sample_context :: EvaluationContext where
  "sample_context = \<lparr>is_named_value = (\<lambda>_. True), function_arity = (\<lambda>_. None),
     named_value = (\<lambda>name h. (VString name, h)), call_function = (\<lambda>_ _ h. Inr (VNull, h))\<rparr>"

definition sample_externals :: Externals where
  "sample_externals = \<lparr>upper = (\<lambda>c. if 97 \<le> c \<and> c \<le> 122 then c - 32 else c),
     json_string = (\<lambda>s. [34] @ s @ [34]), json_from_str = (\<lambda>_. Inl [])\<rparr>"

theorem flattening_keeps_short_circuit_witness:
  "let l = NAnd [NNamedValue (lit ''a''), NLiteral (VBoolean False)]; r = NOr [NLiteral VNull, NLiteral (VString (lit ''b''))];
       env = ParseEnvironment.truncate sample_context;
       c = \<lparr>pc_expression = [], pc_lexer = lexer_new [], pc_operands = [], pc_operators = [], pc_last_token = None, pc_env = env\<rparr>
   in node_ok env l \<and> node_ok env r
      \<and> (\<exists>n m. logical_node c (lit ''&&'') [l, r] = Inr (push_node c n) \<and> evaluate_node sample_externals sample_context n 0 = Inr (VBoolean False, 0)
          \<and> logical_node c (lit ''||'') [l, r] = Inr (push_node c m) \<and> evaluate_node sample_externals sample_context m 0 = Inr (VString (lit ''b''), 0))"
proof -
  let ?l = "NAnd [NNamedValue (lit ''a''), NLiteral (VBoolean False)]"
  let ?r = "NOr [NLiteral VNull, NLiteral (VString (lit ''b''))]"
  let ?env = "ParseEnvironment.truncate sample_context"
  let ?c = "\<lparr>pc_expression = [], pc_lexer = lexer_new [], pc_operands = [], pc_operators = [], pc_last_token = None, pc_env = ?env\<rparr>"
  have ok: "node_ok ?env ?l" "node_ok ?env ?r" by simp_all
  obtain n m where "logical_node ?c (lit ''&&'') [?l, ?r] = Inr (push_node ?c n)"
    "logical_node ?c (lit ''||'') [?l, ?r] = Inr (push_node ?c m)"
    "evaluate_node sample_externals sample_context n = eval_bind (evaluate_node sample_externals sample_context ?l)
       (\<lambda>v. if is_falsy v then eval_return v else evaluate_node sample_externals sample_context ?r)"
    "evaluate_node sample_externals sample_context m = eval_bind (evaluate_node sample_externals sample_context ?l)
       (\<lambda>v. if is_truthy v then eval_return v else evaluate_node sample_externals sample_context ?r)"
    using flattening_keeps_short_circuit [OF ok, of ?c sample_externals sample_context] by blast
  then show ?thesis
    unfolding Let_def using ok
    by (intro conjI exI [of _ n] exI [of _ m])
      (simp_all add: eval_bind_def eval_return_def sample_context_def is_truthy_def lit_def)
qed

text \<open>C40. Text with doubled braces formats to the text itself: \<open>format\<close> undoes the escaping of braces, evaluates
  none of its arguments and fails on no such text.\<close>

theorem format_unescapes_braces:
  "format_template (escape_braces s) args h = Inr (s, h)"
  using format_loop_escaped [of "[]" s] by (simp add: format_template_def)

text \<open>C39. What is evaluated at job setup does not depend on the running job.  A tree that reads no run-time
  context and calls no function of the runner evaluates to the same result, with the same allocations,
  in every two contexts that differ only in \<open>env\<close>, \<open>steps\<close>, \<open>job\<close>, \<open>jobs\<close>, \<open>runner\<close> and in the functions
  of the runner; so evaluating it before the steps run gives what a step would have got.\<close>

theorem setup_evaluation_is_stable:
  assumes "\<forall>name. runtime_name name \<or> named_value c1 name = named_value c2 name"
    and "\<forall>name. runner_function name \<or> call_function c1 name = call_function c2 name"
    and "\<not> reads_runtime_context n"
  shows "evaluate_node x c1 n h = evaluate_node x c2 n h"
  using evaluate_same_at_setup [of c1 c2 n x] assms by (simp add: same_at_setup_def)

definition running_context :: EvaluationContext where
  "running_context = sample_context\<lparr>named_value := \<lambda>name h. if runtime_name name then (VNull, h) else (VString name, h)\<rparr>"

theorem setup_evaluation_is_stable_witness:
  "(\<forall>name. runtime_name name \<or> named_value sample_context name = named_value running_context name)
   \<and> named_value sample_context (lit ''env'') 0 \<noteq> named_value running_context (lit ''env'') 0
   \<and> evaluate_node sample_externals running_context (NBinary OpEqual (NNamedValue (lit ''github'')) (NLiteral VNull)) 0
     = evaluate_node sample_externals sample_context (NBinary OpEqual (NNamedValue (lit ''github'')) (NLiteral VNull)) 0"
proof -
  have names: "\<forall>name. runtime_name name \<or> named_value sample_context name = named_value running_context name"
    by (auto simp: running_context_def sample_context_def)
  moreover have "\<not> reads_runtime_context (NBinary OpEqual (NNamedValue (lit ''github'')) (NLiteral VNull))"
    by (simp add: runtime_name_def lit_def byte_of_def lower_char_def)
  moreover have "\<forall>name. runner_function name \<or> call_function sample_context name = call_function running_context name"
    by (simp add: running_context_def)
  ultimately show ?thesis
    using setup_evaluation_is_stable [of sample_context running_context _ sample_externals 0]
    by (simp add: running_context_def sample_context_def runtime_name_def lit_def byte_of_def lower_char_def)
qed

end
